(* ===== verification/Rap_Prelude.thy ===== *)
theory Rap_Prelude
  imports Main "HOL-Library.Word"
begin

text \<open>
  Prelude of the RAP-cpp development: the types every component shares, the two ways the
  C++ code's control flow is written in HOL, and the facts about little-endian byte strings.

  \<^item> \<open>byte\<close> is \<open>uint8_t\<close>; \<open>Buffer\<close> is both \<open>std::vector<uint8_t>\<close> and
    \<open>std::span<uint8_t const>\<close> (\<open>Types.h\<close>): a view that is advanced is a shorter list.
  \<^item> A C++ function that may throw returns \<open>'e + 'a\<close>: \<open>Inl\<close> is the exception, \<open>Inr\<close>
    the value. \<open>bindR\<close> sequences two such calls, the first exception wins.
  \<^item> A C++ member function that changes state returns its result and the new state; the state
    survives an exception. \<open>bindA\<close> sequences two such calls.
  \<^item> \<open>size_t\<close> and the counts computed in it are \<open>nat\<close>; the two places where
    arithmetic in \<open>size_t\<close> may wrap around (\<open>calcSize\<close>, and the constructor \<open>UdpTransport\<close>) have
    their \<open>mod 2 ^ 64\<close> written out.
\<close>

unbundle bit_operations_syntax

type_synonym byte = "8 word"
type_synonym Buffer = "byte list"

section \<open>Results: exceptions as values\<close>

definition bindR :: "'e + 'a \<Rightarrow> ('a \<Rightarrow> 'e + 'b) \<Rightarrow> 'e + 'b" where
  "bindR m f = (case m of Inl e \<Rightarrow> Inl e | Inr x \<Rightarrow> f x)"

abbreviation (input) throwR :: "'e \<Rightarrow> 'e + 'a" where
  "throwR \<equiv> Inl"

lemma bindR_simps [simp]:
  "bindR (Inl e) f = Inl e"
  "bindR (Inr x) f = f x"
  by (simp_all add: bindR_def)

lemma bindR_eq_Inr_conv: "bindR m f = Inr y \<longleftrightarrow> (\<exists>x. m = Inr x \<and> f x = Inr y)"
  by (cases m) simp_all

lemma bindR_eq_Inl_conv: "bindR m f = Inl e \<longleftrightarrow> m = Inl e \<or> (\<exists>x. m = Inr x \<and> f x = Inl e)"
  by (cases m) simp_all

lemma if_throw_eq_Inr_conv [simp]:
  "(if b then Inl e else m) = Inr y \<longleftrightarrow> \<not> b \<and> m = Inr y"
  by simp

section \<open>Actions: exceptions with state\<close>

type_synonym ('e, 's, 'a) act = "'s \<Rightarrow> ('e + 'a) \<times> 's"

definition bindA :: "('e, 's, 'a) act \<Rightarrow> ('a \<Rightarrow> ('e, 's, 'b) act) \<Rightarrow> ('e, 's, 'b) act" where
  "bindA m f s = (case m s of (Inl e, s') \<Rightarrow> (Inl e, s') | (Inr x, s') \<Rightarrow> f x s')"

definition liftA :: "'e + 'a \<Rightarrow> ('e, 's, 'a) act" where
  "liftA r s = (r, s)"

lemma bindA_Inl [simp]: "m s = (Inl e, s') \<Longrightarrow> bindA m f s = (Inl e, s')"
  by (simp add: bindA_def)

lemma bindA_Inr [simp]: "m s = (Inr x, s') \<Longrightarrow> bindA m f s = f x s'"
  by (simp add: bindA_def)

lemma liftA_simp [simp]: "liftA r s = (r, s)"
  by (simp add: liftA_def)

section \<open>Little-endian byte strings\<close>

text \<open>
  The two reference definitions the wire fields are proved against: the \<open>n\<close> low bytes of a
  word, least significant first, and the word a byte string denotes.
\<close>

definition le_bytes :: "nat \<Rightarrow> 'w::len word \<Rightarrow> Buffer" where
  "le_bytes n v = map (\<lambda>i. ucast (drop_bit (8 * i) v)) [0..<n]"

fun le_word :: "Buffer \<Rightarrow> 'w::len word" where
  "le_word [] = 0"
| "le_word (b # bs) = ucast b OR push_bit 8 (le_word bs)"

lemma length_le_bytes [simp]: "length (le_bytes n v) = n"
  by (simp add: le_bytes_def)

lemma le_bytes_0 [simp]: "le_bytes 0 v = []"
  by (simp add: le_bytes_def)

lemma le_bytes_Suc: "le_bytes (Suc n) v = ucast v # le_bytes n (drop_bit 8 v)"
  by (simp add: le_bytes_def upt_conv_Cons map_Suc_upt [symmetric] o_def ac_simps del: upt_Suc)

lemma le_bytes_snoc: "le_bytes (Suc n) v = le_bytes n v @ [ucast (drop_bit (8 * n) v)]"
  by (simp add: le_bytes_def)

lemma bit_byte_beyond [simp]: "8 \<le> k \<Longrightarrow> \<not> bit (b :: byte) k"
  using bit_imp_le_length [of b k] by auto

lemma bit_le_word:
  "bit (le_word bs :: 'w::len word) k \<longleftrightarrow>
     k < LENGTH('w) \<and> k < 8 * length bs \<and> bit (bs ! (k div 8)) (k mod 8)"
proof (induction bs arbitrary: k)
  case Nil
  then show ?case by simp
next
  case (Cons b bs)
  show ?case
  proof (cases "k < 8")
    case True
    then show ?thesis
      by (auto simp: bit_or_iff bit_push_bit_iff bit_ucast_iff)
  next
    case False
    then obtain j where k: "k = j + 8" by (metis add.commute le_Suc_ex not_less)
    moreover have "(j + 8) div 8 = Suc (j div 8)" by simp
    ultimately show ?thesis
      by (auto simp: bit_or_iff bit_push_bit_iff bit_ucast_iff Cons.IH)
  qed
qed

lemma bit_le_bytes_nth:
  "i < n \<Longrightarrow> bit (le_bytes n v ! i) k \<longleftrightarrow> k < 8 \<and> bit v (8 * i + k)"
  by (auto simp: le_bytes_def bit_ucast_iff bit_drop_bit_eq)

lemma le_word_le_bytes: "le_word (le_bytes n v) = take_bit (8 * n) (v :: 'w::len word)"
proof (rule bit_word_eqI)
  fix k assume "k < LENGTH('w)"
  moreover have "k < 8 * n \<Longrightarrow> k div 8 < n" by auto
  ultimately show "bit (le_word (le_bytes n v) :: 'w word) k \<longleftrightarrow> bit (take_bit (8 * n) v) k"
    by (auto simp: bit_le_word bit_take_bit_iff bit_le_bytes_nth)
qed

lemma le_bytes_le_word:
  assumes "8 * length bs \<le> LENGTH('w)"
  shows "le_bytes (length bs) (le_word bs :: 'w::len word) = bs"
proof (rule nth_equalityI)
  fix i assume "i < length (le_bytes (length bs) (le_word bs :: 'w word))"
  then have i: "i < length bs" by simp
  show "le_bytes (length bs) (le_word bs :: 'w word) ! i = bs ! i"
  proof (rule bit_word_eqI)
    fix k :: nat assume "k < LENGTH(8)"
    then have k: "k < 8" by simp
    have "8 * i + k < 8 * length bs" using i k by linarith
    then show "bit (le_bytes (length bs) (le_word bs :: 'w word) ! i) k = bit (bs ! i) k"
      using assms i k by (simp add: bit_le_bytes_nth bit_le_word)
  qed
qed simp

text \<open>A word whose value fits \<open>n\<close> bytes survives the trip through them.\<close>

definition fits_bytes :: "nat \<Rightarrow> 'w::len word \<Rightarrow> bool" where
  "fits_bytes n v \<longleftrightarrow> unat v < 2 ^ (8 * n)"

lemma fits_bytes_take_bit: "fits_bytes n v \<Longrightarrow> take_bit (8 * n) v = v"
  by (rule word_unat_eq_iff [THEN iffD2])
     (simp add: fits_bytes_def unsigned_take_bit_eq take_bit_nat_eq_self)

lemma fits_bytes_le_word: "fits_bytes (length bs) (le_word bs :: 'w::len word)"
proof -
  have "take_bit (8 * length bs) (le_word bs :: 'w word) = le_word bs"
    by (rule bit_word_eqI) (auto simp: bit_take_bit_iff bit_le_word)
  then have "unat (le_word bs :: 'w word) = take_bit (8 * length bs) (unat (le_word bs :: 'w word))"
    by (metis unsigned_take_bit_eq)
  then show ?thesis
    by (metis fits_bytes_def take_bit_nat_less_exp)
qed

lemma fits_bytes_full: "LENGTH('w) \<le> 8 * n \<Longrightarrow> fits_bytes n (v :: 'w::len word)"
proof -
  assume "LENGTH('w) \<le> 8 * n"
  then have "(2::nat) ^ LENGTH('w) \<le> 2 ^ (8 * n)" by (simp add: power_increasing)
  moreover have "unat v < 2 ^ LENGTH('w)" by (rule unsigned_less)
  ultimately show "fits_bytes n v"
    unfolding fits_bytes_def by linarith
qed

end
