(* ===== verification/Configuration.thy ===== *)
theory Configuration
  imports Rap_Prelude
begin

text \<open>
  \<open>Configuration.h\<close>: the traits struct every template of the code takes as \<open>Cfg\<close>, the
  concept \<open>IsConfigurationType\<close> that is meant to check it, and \<open>ExampleRapCfg\<close>.

  The struct's member types are type variables of the record \<open>cfg\<close> (\<open>'a\<close> for
  \<open>AddressType\<close>, \<open>'d\<close> for \<open>DataType\<close>, \<open>'l\<close> for \<open>LengthType\<close>, \<open>'c\<close> for \<open>CrcType\<close>),
  held in fields of type \<open>'a itself\<close>; its \<open>uint8_t\<close> constants are naturals, since every
  use of them in the code is promoted to \<open>int\<close> or \<open>size_t\<close> first.
\<close>

record ('a, 'd, 'l, 'c) cfg =
  AddressType :: "'a itself"
  AddressBits :: nat
  AddressBytes :: nat
  DataType :: "'d itself"
  DataBits :: nat
  DataBytes :: nat
  LengthType :: "'l itself"
  LengthBytes :: nat
  CrcType :: "'c itself"
  CrcBytes :: nat
  FeatureSequential :: bool
  FeatureFifo :: bool
  FeatureIncrement :: bool
  FeatureCompressed :: bool
  FeatureInterrupt :: bool
  FeatureReadModifyWrite :: bool

definition ExampleRapCfg :: "(32, 32, 16, 16) cfg" where
  "ExampleRapCfg =
     \<lparr> AddressType = TYPE(32), AddressBits = 24, AddressBytes = 3,
       DataType = TYPE(32), DataBits = 32, DataBytes = 4,
       LengthType = TYPE(16), LengthBytes = 2,
       CrcType = TYPE(16), CrcBytes = 2,
       FeatureSequential = True, FeatureFifo = True, FeatureIncrement = False,
       FeatureCompressed = True, FeatureInterrupt = False,
       FeatureReadModifyWrite = False \<rparr>"

lemma ExampleRapCfg_simps [simp]:
  "AddressBits ExampleRapCfg = 24" "AddressBytes ExampleRapCfg = 3"
  "DataBits ExampleRapCfg = 32" "DataBytes ExampleRapCfg = 4"
  "LengthBytes ExampleRapCfg = 2" "CrcBytes ExampleRapCfg = 2"
  "FeatureSequential ExampleRapCfg" "FeatureFifo ExampleRapCfg"
  "\<not> FeatureIncrement ExampleRapCfg" "FeatureCompressed ExampleRapCfg"
  "\<not> FeatureInterrupt ExampleRapCfg" "\<not> FeatureReadModifyWrite ExampleRapCfg"
  by (simp_all add: ExampleRapCfg_def)

section \<open>The concept, requirement by requirement\<close>

text \<open>
  A traits struct as the concept sees it: a table of named members. The concept's body is a
  list of requirements. C++ checks of a simple requirement only that the expression is
  well-formed once the struct is substituted; the value of the expression is not looked at.
\<close>

datatype ctype = uint8_t | uint16_t | uint32_t | uint64_t | other_type

datatype member = TypeMember ctype | Uint8Member nat | BoolMember bool

text \<open>The names the concept asks for, one constructor each.\<close>

datatype member_name =
    mAddressType | mAddressBits | mAddressBytes
  | mDataType | mDataBits | mDataBytes
  | mLengthType | mLengthBytes
  | mCrcType | mCrcBytes
  | mFeatureSequential | mFeatureFifo | mFeatureIncrement
  | mFeatureCompressed | mFeatureInterrupt | mFeatureReadModifyWrite

type_synonym traits = "member_name \<rightharpoonup> member"

datatype requirement =
    TypeRequirement member_name
  | OneOfTypes member_name "ctype list"
  | SameAsUint8 member_name
  | SameAsBool member_name
  | BitsWithinBytes member_name member_name
  | BytesWithinType member_name member_name

definition ValidAddressType :: "ctype list" where
  "ValidAddressType = [uint8_t, uint16_t, uint32_t, uint64_t]"

definition ValidDataType :: "ctype list" where
  "ValidDataType = [uint8_t, uint16_t, uint32_t, uint64_t]"

definition ValidLengthType :: "ctype list" where
  "ValidLengthType = [uint8_t, uint16_t]"

definition ValidCrcType :: "ctype list" where
  "ValidCrcType = [uint8_t, uint16_t, uint32_t]"

definition configuration_requirements :: "requirement list" where
  "configuration_requirements =
     [TypeRequirement mAddressType, OneOfTypes mAddressType ValidAddressType,
      SameAsUint8 mAddressBits, SameAsUint8 mAddressBytes,
      BitsWithinBytes mAddressBits mAddressBytes,
      BytesWithinType mAddressBytes mAddressType,
      TypeRequirement mDataType, OneOfTypes mDataType ValidDataType,
      SameAsUint8 mDataBits, SameAsUint8 mDataBytes,
      BitsWithinBytes mDataBits mDataBytes,
      BytesWithinType mDataBytes mDataType,
      TypeRequirement mLengthType, OneOfTypes mLengthType ValidLengthType,
      SameAsUint8 mLengthBytes, BytesWithinType mLengthBytes mLengthType,
      TypeRequirement mCrcType, OneOfTypes mCrcType ValidCrcType,
      SameAsUint8 mCrcBytes, BytesWithinType mCrcBytes mCrcType,
      SameAsBool mFeatureSequential, SameAsBool mFeatureFifo,
      SameAsBool mFeatureIncrement, SameAsBool mFeatureCompressed,
      SameAsBool mFeatureInterrupt, SameAsBool mFeatureReadModifyWrite]"

fun is_type :: "member option \<Rightarrow> bool" where
  "is_type (Some (TypeMember t)) = True"
| "is_type _ = False"

fun is_value :: "member option \<Rightarrow> bool" where
  "is_value (Some (Uint8Member n)) = True"
| "is_value (Some (BoolMember b)) = True"
| "is_value _ = False"

fun well_formed :: "traits \<Rightarrow> requirement \<Rightarrow> bool" where
  "well_formed t (TypeRequirement T) = is_type (t T)"
| "well_formed t (OneOfTypes T ts) = is_type (t T)"
| "well_formed t (SameAsUint8 m) = is_value (t m)"
| "well_formed t (SameAsBool m) = is_value (t m)"
| "well_formed t (BitsWithinBytes m n) = (is_value (t m) \<and> is_value (t n))"
| "well_formed t (BytesWithinType m T) = (is_value (t m) \<and> is_type (t T))"

definition IsConfigurationType :: "traits \<Rightarrow> bool" where
  "IsConfigurationType t = list_all (well_formed t) configuration_requirements"

text \<open>
  What the requirements say when their expressions are evaluated, as the README describes the
  concept. \<open>decltype\<close> of a \<open>static constexpr uint8_t\<close> member is \<open>const uint8_t\<close>; the
  comparison is read up to that \<open>const\<close>.
\<close>

fun sizeof :: "ctype \<Rightarrow> nat" where
  "sizeof uint8_t = 1"
| "sizeof uint16_t = 2"
| "sizeof uint32_t = 4"
| "sizeof uint64_t = 8"
| "sizeof other_type = 0"

fun requirement_true :: "traits \<Rightarrow> requirement \<Rightarrow> bool" where
  "requirement_true t (TypeRequirement T) = is_type (t T)"
| "requirement_true t (OneOfTypes T ts) =
     (case t T of Some (TypeMember c) \<Rightarrow> c \<in> set ts | _ \<Rightarrow> False)"
| "requirement_true t (SameAsUint8 m) =
     (case t m of Some (Uint8Member n) \<Rightarrow> True | _ \<Rightarrow> False)"
| "requirement_true t (SameAsBool m) =
     (case t m of Some (BoolMember b) \<Rightarrow> True | _ \<Rightarrow> False)"
| "requirement_true t (BitsWithinBytes m n) =
     (case (t m, t n) of
        (Some (Uint8Member bits), Some (Uint8Member bytes)) \<Rightarrow> (bits + 7) div 8 \<le> bytes
      | _ \<Rightarrow> False)"
| "requirement_true t (BytesWithinType m T) =
     (case (t m, t T) of
        (Some (Uint8Member bytes), Some (TypeMember c)) \<Rightarrow> bytes \<le> sizeof c
      | _ \<Rightarrow> False)"

definition configuration_as_documented :: "traits \<Rightarrow> bool" where
  "configuration_as_documented t = list_all (requirement_true t) configuration_requirements"

definition ctype_of_width :: "nat \<Rightarrow> ctype" where
  "ctype_of_width w =
     (if w = 8 then uint8_t else if w = 16 then uint16_t
      else if w = 32 then uint32_t else if w = 64 then uint64_t else other_type)"

text \<open>The member table of a \<open>cfg\<close> record.\<close>

definition traits_of :: "('a::len, 'd::len, 'l::len, 'c::len) cfg \<Rightarrow> traits" where
  "traits_of cfg =
     [mAddressType \<mapsto> TypeMember (ctype_of_width LENGTH('a)),
      mAddressBits \<mapsto> Uint8Member (AddressBits cfg),
      mAddressBytes \<mapsto> Uint8Member (AddressBytes cfg),
      mDataType \<mapsto> TypeMember (ctype_of_width LENGTH('d)),
      mDataBits \<mapsto> Uint8Member (DataBits cfg),
      mDataBytes \<mapsto> Uint8Member (DataBytes cfg),
      mLengthType \<mapsto> TypeMember (ctype_of_width LENGTH('l)),
      mLengthBytes \<mapsto> Uint8Member (LengthBytes cfg),
      mCrcType \<mapsto> TypeMember (ctype_of_width LENGTH('c)),
      mCrcBytes \<mapsto> Uint8Member (CrcBytes cfg),
      mFeatureSequential \<mapsto> BoolMember (FeatureSequential cfg),
      mFeatureFifo \<mapsto> BoolMember (FeatureFifo cfg),
      mFeatureIncrement \<mapsto> BoolMember (FeatureIncrement cfg),
      mFeatureCompressed \<mapsto> BoolMember (FeatureCompressed cfg),
      mFeatureInterrupt \<mapsto> BoolMember (FeatureInterrupt cfg),
      mFeatureReadModifyWrite \<mapsto> BoolMember (FeatureReadModifyWrite cfg)]"


section \<open>Sound configurations\<close>

text \<open>
  The conditions the rest of the code needs: the documented ones, and that no field the code
  divides by or computes a CRC over is empty (\<open>getMaxSeqReadCount\<close> and its siblings divide
  by \<open>DataBytes\<close> and \<open>AddressBytes\<close>, \<open>calculateCrc\<close> has no branch for zero bytes).
\<close>

definition cfg_wf :: "('a::len, 'd::len, 'l::len, 'c::len) cfg \<Rightarrow> bool" where
  "cfg_wf cfg \<longleftrightarrow>
     LENGTH('a) \<in> {8, 16, 32, 64} \<and> LENGTH('d) \<in> {8, 16, 32, 64} \<and>
     LENGTH('l) \<in> {8, 16} \<and> LENGTH('c) \<in> {8, 16, 32} \<and>
     (AddressBits cfg + 7) div 8 \<le> AddressBytes cfg \<and> 8 * AddressBytes cfg \<le> LENGTH('a) \<and>
     (DataBits cfg + 7) div 8 \<le> DataBytes cfg \<and> 8 * DataBytes cfg \<le> LENGTH('d) \<and>
     8 * LengthBytes cfg \<le> LENGTH('l) \<and> 8 * CrcBytes cfg \<le> LENGTH('c) \<and>
     0 < AddressBytes cfg \<and> 0 < DataBytes cfg \<and> 0 < CrcBytes cfg"

lemma cfg_wf_ExampleRapCfg [simp]: "cfg_wf ExampleRapCfg"
  by (simp add: cfg_wf_def)

lemma ctype_of_width_mem:
  "ctype_of_width w \<in> set ValidAddressType \<longleftrightarrow> w \<in> {8, 16, 32, 64}"
  "ctype_of_width w \<in> set ValidDataType \<longleftrightarrow> w \<in> {8, 16, 32, 64}"
  "ctype_of_width w \<in> set ValidLengthType \<longleftrightarrow> w \<in> {8, 16}"
  "ctype_of_width w \<in> set ValidCrcType \<longleftrightarrow> w \<in> {8, 16, 32}"
  by (simp_all add: ctype_of_width_def ValidAddressType_def ValidDataType_def
        ValidLengthType_def ValidCrcType_def)

lemma sizeof_ctype_of_width:
  "w \<in> {8, 16, 32, 64} \<Longrightarrow> 8 * n \<le> w \<longleftrightarrow> n \<le> sizeof (ctype_of_width w)"
  by (auto simp: ctype_of_width_def)

lemma cfg_wf_iff_documented:
  fixes cfg :: "('a::len, 'd::len, 'l::len, 'c::len) cfg"
  shows "cfg_wf cfg \<longleftrightarrow>
    configuration_as_documented (traits_of cfg) \<and>
    0 < AddressBytes cfg \<and> 0 < DataBytes cfg \<and> 0 < CrcBytes cfg"
proof -
  have "configuration_as_documented (traits_of cfg) \<longleftrightarrow>
     LENGTH('a) \<in> {8, 16, 32, 64} \<and> LENGTH('d) \<in> {8, 16, 32, 64} \<and>
     LENGTH('l) \<in> {8, 16} \<and> LENGTH('c) \<in> {8, 16, 32} \<and>
     (AddressBits cfg + 7) div 8 \<le> AddressBytes cfg \<and>
     AddressBytes cfg \<le> sizeof (ctype_of_width LENGTH('a)) \<and>
     (DataBits cfg + 7) div 8 \<le> DataBytes cfg \<and>
     DataBytes cfg \<le> sizeof (ctype_of_width LENGTH('d)) \<and>
     LengthBytes cfg \<le> sizeof (ctype_of_width LENGTH('l)) \<and>
     CrcBytes cfg \<le> sizeof (ctype_of_width LENGTH('c))"
    by (simp add: configuration_as_documented_def configuration_requirements_def traits_of_def
          ctype_of_width_mem) blast
  moreover have "LENGTH('l) \<in> {8, 16} \<Longrightarrow> LENGTH('l) \<in> {8, 16, 32, 64}"
    and "LENGTH('c) \<in> {8, 16, 32} \<Longrightarrow> LENGTH('c) \<in> {8, 16, 32, 64}" by auto
  moreover note sizeof_ctype_of_width [of "LENGTH('a)" "AddressBytes cfg"]
    sizeof_ctype_of_width [of "LENGTH('d)" "DataBytes cfg"]
    sizeof_ctype_of_width [of "LENGTH('l)" "LengthBytes cfg"]
    sizeof_ctype_of_width [of "LENGTH('c)" "CrcBytes cfg"]
  ultimately show ?thesis
    unfolding cfg_wf_def by argo
qed

text \<open>The concept as it is written accepts every member table, whatever the numbers say.\<close>

lemma IsConfigurationType_traits_of: "IsConfigurationType (traits_of cfg)"
  by (simp add: IsConfigurationType_def configuration_requirements_def traits_of_def)

locale wf_config =
  fixes cfg :: "('a::len, 'd::len, 'l::len, 'c::len) cfg"
  assumes wf: "cfg_wf cfg"
begin

lemma address_width: "8 * AddressBytes cfg \<le> LENGTH('a)"
  and data_width: "8 * DataBytes cfg \<le> LENGTH('d)"
  and length_width: "8 * LengthBytes cfg \<le> LENGTH('l)"
  and crc_width: "8 * CrcBytes cfg \<le> LENGTH('c)"
  using wf by (simp_all add: cfg_wf_def)

lemma bytes_positive [simp]:
  "0 < AddressBytes cfg" "0 < DataBytes cfg" "0 < CrcBytes cfg"
  using wf by (simp_all add: cfg_wf_def)

lemma type_widths:
  "LENGTH('a) \<in> {8, 16, 32, 64}" "LENGTH('d) \<in> {8, 16, 32, 64}"
  "LENGTH('l) \<in> {8, 16}" "LENGTH('c) \<in> {8, 16, 32}"
  using wf by (simp_all only: cfg_wf_def)

lemma bytes_bounds:
  "AddressBytes cfg \<le> 8" "DataBytes cfg \<le> 8" "LengthBytes cfg \<le> 2" "CrcBytes cfg \<le> 4"
  using address_width type_widths(1) data_width type_widths(2) length_width type_widths(3)
    crc_width type_widths(4)
  by simp_all linarith+

lemma length_type_max: "2 ^ LENGTH('l) \<le> (65536 :: nat)"
  using type_widths(3) by auto

lemma crc_bytes_cases: "CrcBytes cfg \<in> {1, 2, 3, 4}"
proof -
  have "0 < CrcBytes cfg" and "CrcBytes cfg \<le> 4" by (simp_all add: bytes_bounds)
  then show ?thesis by (simp; linarith)
qed

end

interpretation example: wf_config ExampleRapCfg
  by unfold_locales simp

text \<open>
  The concept as it is written checks none of the numbers: its requirements are simple
  requirements, so every configuration with the right member names satisfies it, one whose
  addresses have more bytes on the wire than their type among them.
\<close>

lemma concept_checks_no_sizes:
  "(\<forall>cfg :: ('a::len, 'd::len, 'l::len, 'c::len) cfg. IsConfigurationType (traits_of cfg)) \<and>
   \<not> configuration_as_documented (traits_of (ExampleRapCfg\<lparr> AddressBytes := 9 \<rparr>))"
proof (intro conjI allI)
  show "IsConfigurationType (traits_of cfg)" for cfg :: "('a, 'd, 'l, 'c) cfg"
    by (rule IsConfigurationType_traits_of)
  show "\<not> configuration_as_documented (traits_of (ExampleRapCfg\<lparr> AddressBytes := 9 \<rparr>))"
    by (simp add: configuration_as_documented_def configuration_requirements_def traits_of_def
        ctype_of_width_def)
qed

end
