(* ===== verification/Messages.thy ===== *)
theory Messages
  imports Rap_Prelude
begin

text \<open>
  The message structs of \<open>Serdes.h\<close> and the two variants that hold them. Each struct is a
  constructor of the variant it is an alternative of, with the struct's members in their
  order; members with the same name share a selector. \<open>std::vector\<close> members are lists.
  Then the trait that relates a command to its two responses, and the wire codes.
\<close>

section \<open>Commands and responses\<close>

datatype ('a, 'd, 'l) Command =
    ReadSingleCommand (cmd_transaction_id: byte) (cmd_addr: 'a)
  | WriteSingleCommand (cmd_transaction_id: byte) (cmd_posted: bool) (cmd_addr: 'a) (cmd_data: 'd)
  | ReadSeqCommand (cmd_transaction_id: byte) (cmd_start_addr: 'a) (cmd_increment: 'l)
      (cmd_count: 'l)
  | WriteSeqCommand (cmd_transaction_id: byte) (cmd_posted: bool) (cmd_start_addr: 'a)
      (cmd_increment: 'l) (cmd_seq_data: "'d list")
  | ReadCompCommand (cmd_transaction_id: byte) (cmd_addresses: "'a list")
  | WriteCompCommand (cmd_transaction_id: byte) (cmd_posted: bool)
      (cmd_addr_data: "('a \<times> 'd) list")
  | ReadModifyWriteCommand (cmd_transaction_id: byte) (cmd_posted: bool) (cmd_addr: 'a)
      (cmd_data: 'd) (cmd_mask: 'd)

datatype 'd Response =
    ReadSingleAckResponse (resp_transaction_id: byte) (resp_data: 'd)
  | WriteSingleAckResponse (resp_transaction_id: byte)
  | ReadSeqAckResponse (resp_transaction_id: byte) (resp_seq_data: "'d list")
  | WriteSeqAckResponse (resp_transaction_id: byte)
  | ReadCompAckResponse (resp_transaction_id: byte) (resp_seq_data: "'d list")
  | WriteCompAckResponse (resp_transaction_id: byte)
  | ReadSingleNakResponse (resp_transaction_id: byte) (resp_status: 'd)
  | WriteSingleNakResponse (resp_transaction_id: byte) (resp_status: 'd)
  | ReadSeqNakResponse (resp_transaction_id: byte) (resp_status: 'd)
  | WriteSeqNakResponse (resp_transaction_id: byte) (resp_status: 'd)
  | ReadCompNakResponse (resp_transaction_id: byte) (resp_status: 'd)
  | WriteCompNakResponse (resp_transaction_id: byte) (resp_status: 'd)
  | ReadmodifywriteSingleAckResponse (resp_transaction_id: byte)
  | ReadmodifywriteSingleNakResponse (resp_transaction_id: byte) (resp_status: 'd)
  | Interrupt (resp_transaction_id: byte) (resp_status: 'd)

section \<open>Which responses belong to a command\<close>

text \<open>
  \<open>CommandResponseRelationshipTrait\<close>: for each command type its acknowledge and its
  negative-acknowledge type. A type is the predicate that recognises its values, as the
  \<open>if constexpr\<close> on the visited alternative does.
\<close>

fun AckResponseType :: "('a, 'd, 'l) Command \<Rightarrow> 'd Response \<Rightarrow> bool" where
  "AckResponseType (ReadSingleCommand _ _) = is_ReadSingleAckResponse"
| "AckResponseType (WriteSingleCommand _ _ _ _) = is_WriteSingleAckResponse"
| "AckResponseType (ReadSeqCommand _ _ _ _) = is_ReadSeqAckResponse"
| "AckResponseType (WriteSeqCommand _ _ _ _ _) = is_WriteSeqAckResponse"
| "AckResponseType (ReadCompCommand _ _) = is_ReadCompAckResponse"
| "AckResponseType (WriteCompCommand _ _ _) = is_WriteCompAckResponse"
| "AckResponseType (ReadModifyWriteCommand _ _ _ _ _) = is_ReadmodifywriteSingleAckResponse"

fun NakResponseType :: "('a, 'd, 'l) Command \<Rightarrow> 'd Response \<Rightarrow> bool" where
  "NakResponseType (ReadSingleCommand _ _) = is_ReadSingleNakResponse"
| "NakResponseType (WriteSingleCommand _ _ _ _) = is_WriteSingleNakResponse"
| "NakResponseType (ReadSeqCommand _ _ _ _) = is_ReadSeqNakResponse"
| "NakResponseType (WriteSeqCommand _ _ _ _ _) = is_WriteSeqNakResponse"
| "NakResponseType (ReadCompCommand _ _) = is_ReadCompNakResponse"
| "NakResponseType (WriteCompCommand _ _ _) = is_WriteCompNakResponse"
| "NakResponseType (ReadModifyWriteCommand _ _ _ _ _) = is_ReadmodifywriteSingleNakResponse"

text \<open>Constructing a value of the related \<open>NakResponseType\<close>, as the server does.\<close>

fun mk_nak :: "('a, 'd, 'l) Command \<Rightarrow> byte \<Rightarrow> 'd \<Rightarrow> 'd Response" where
  "mk_nak (ReadSingleCommand _ _) = ReadSingleNakResponse"
| "mk_nak (WriteSingleCommand _ _ _ _) = WriteSingleNakResponse"
| "mk_nak (ReadSeqCommand _ _ _ _) = ReadSeqNakResponse"
| "mk_nak (WriteSeqCommand _ _ _ _ _) = WriteSeqNakResponse"
| "mk_nak (ReadCompCommand _ _) = ReadCompNakResponse"
| "mk_nak (WriteCompCommand _ _ _) = WriteCompNakResponse"
| "mk_nak (ReadModifyWriteCommand _ _ _ _ _) = ReadmodifywriteSingleNakResponse"

lemma mk_nak_simps [simp]:
  "NakResponseType cmd (mk_nak cmd t s)"
  "\<not> AckResponseType cmd (mk_nak cmd t s)"
  "resp_transaction_id (mk_nak cmd t s) = t"
  "resp_status (mk_nak cmd t s) = s"
  by (cases cmd; simp)+

lemma ack_not_nak: "AckResponseType cmd r \<Longrightarrow> \<not> NakResponseType cmd r"
  by (cases cmd; cases r; simp)

text \<open>Two commands accept a common response only when they are of the same kind.\<close>

lemma not_own_interrupt [simp]:
  "\<not> AckResponseType cmd (Interrupt t s)" "\<not> NakResponseType cmd (Interrupt t s)"
  by (cases cmd; simp)+

section \<open>Message types on the wire\<close>

datatype MessageType =
    eCmdSingleRead | eAckSingleRead | eNakSingleRead
  | eCmdSingleWrite | eCmdSingleWritePosted | eAckSingleWrite | eNakSingleWrite
  | eCmdSeqRead | eAckSeqRead | eNakSeqRead
  | eCmdSeqWrite | eCmdSeqWritePosted | eAckSeqWrite | eNakSeqWrite
  | eCmdCompRead | eAckCompRead | eNakCompRead
  | eCmdCompWrite | eCmdCompWritePosted | eAckCompWrite | eNakCompWrite
  | eCmdSingleRmw | eCmdSingleRmwPosted | eAckSingleRmw | eNakSingleRmw
  | eAckSingleInterrupt

fun msg_code :: "MessageType \<Rightarrow> byte" where
  "msg_code eCmdSingleRead = 0x01"
| "msg_code eAckSingleRead = 0x80"
| "msg_code eNakSingleRead = 0xC1"
| "msg_code eCmdSingleWrite = 0x10"
| "msg_code eCmdSingleWritePosted = 0x51"
| "msg_code eAckSingleWrite = 0x91"
| "msg_code eNakSingleWrite = 0xD0"
| "msg_code eCmdSeqRead = 0x04"
| "msg_code eAckSeqRead = 0x85"
| "msg_code eNakSeqRead = 0xC4"
| "msg_code eCmdSeqWrite = 0x15"
| "msg_code eCmdSeqWritePosted = 0x54"
| "msg_code eAckSeqWrite = 0x94"
| "msg_code eNakSeqWrite = 0xD5"
| "msg_code eCmdCompRead = 0x08"
| "msg_code eAckCompRead = 0x89"
| "msg_code eNakCompRead = 0xC8"
| "msg_code eCmdCompWrite = 0x19"
| "msg_code eCmdCompWritePosted = 0x58"
| "msg_code eAckCompWrite = 0x98"
| "msg_code eNakCompWrite = 0xD9"
| "msg_code eCmdSingleRmw = 0x20"
| "msg_code eCmdSingleRmwPosted = 0x61"
| "msg_code eAckSingleRmw = 0xA1"
| "msg_code eNakSingleRmw = 0xE0"
| "msg_code eAckSingleInterrupt = 0xB0"

definition message_types :: "MessageType list" where
  "message_types =
     [eCmdSingleRead, eAckSingleRead, eNakSingleRead,
      eCmdSingleWrite, eCmdSingleWritePosted, eAckSingleWrite, eNakSingleWrite,
      eCmdSeqRead, eAckSeqRead, eNakSeqRead,
      eCmdSeqWrite, eCmdSeqWritePosted, eAckSeqWrite, eNakSeqWrite,
      eCmdCompRead, eAckCompRead, eNakCompRead,
      eCmdCompWrite, eCmdCompWritePosted, eAckCompWrite, eNakCompWrite,
      eCmdSingleRmw, eCmdSingleRmwPosted, eAckSingleRmw, eNakSingleRmw,
      eAckSingleInterrupt]"

text \<open>
  \<open>static_cast<MessageType>(b)\<close>. The enumeration has \<open>uint8_t\<close> as its underlying type, so
  the cast keeps any byte; \<open>None\<close> stands for the values no enumerator names, which every
  \<open>switch\<close> of the code sends to its \<open>default\<close>.
\<close>

definition message_type_of :: "byte \<Rightarrow> MessageType option" where
  "message_type_of b = find (\<lambda>t. msg_code t = b) message_types"

lemma message_type_of_code [simp]: "message_type_of (msg_code t) = Some t"
  by (cases t) (simp_all add: message_type_of_def message_types_def)

lemma message_type_of_Some: "message_type_of b = Some t \<longleftrightarrow> b = msg_code t"
proof
  assume "message_type_of b = Some t"
  then show "b = msg_code t"
    by (auto simp: message_type_of_def find_Some_iff)
qed simp

lemma msg_code_inject: "msg_code s = msg_code t \<longleftrightarrow> s = t"
  by (metis message_type_of_code option.inject)

text \<open>Enumerators compare as their underlying values.\<close>

instantiation MessageType :: linorder
begin

definition less_eq_MessageType :: "MessageType \<Rightarrow> MessageType \<Rightarrow> bool" where
  "less_eq_MessageType s t \<longleftrightarrow> msg_code s \<le> msg_code t"

definition less_MessageType :: "MessageType \<Rightarrow> MessageType \<Rightarrow> bool" where
  "less_MessageType s t \<longleftrightarrow> msg_code s < msg_code t"

instance
  by standard
    (auto simp: less_eq_MessageType_def less_MessageType_def order.strict_iff_order
      msg_code_inject [symmetric])

end

text \<open>Every code has an odd number of one bits.\<close>

definition popcount :: "byte \<Rightarrow> nat" where
  "popcount b = length (filter (bit b) [0..<8])"

lemma odd_popcount_msg_code: "odd (popcount (msg_code t))"
  by (cases t) (simp_all add: popcount_def upt_rec bit_simps)

text \<open>Flipping one bit of a byte flips the parity.\<close>

definition flip_bit_of :: "nat \<Rightarrow> byte \<Rightarrow> byte" where
  "flip_bit_of i b = b XOR push_bit i 1"

lemma bit_flip_bit_of: "i < 8 \<Longrightarrow> bit (flip_bit_of i b) j \<longleftrightarrow> (if j = i then \<not> bit b j else bit b j)"
  by (auto simp: flip_bit_of_def bit_xor_iff bit_exp_iff)

lemma odd_popcount: "odd (popcount b) \<longleftrightarrow> odd (\<Sum>j<8. of_bool (bit b j) :: nat)"
  by (simp add: popcount_def upt_rec lessThan_Suc eval_nat_numeral)

lemma odd_popcount_flip:
  assumes "i < 8"
  shows "odd (popcount (flip_bit_of i b)) \<longleftrightarrow> even (popcount b)"
proof -
  let ?f = "\<lambda>j. of_bool (bit b j) :: nat" and ?g = "\<lambda>j. of_bool (bit (flip_bit_of i b) j) :: nat"
  define R where "R = (\<Sum>j\<in>{..<8} - {i}. ?f j)"
  have "(\<Sum>j\<in>{..<8} - {i}. ?g j) = R"
    unfolding R_def using assms by (intro sum.cong) (simp_all only: bit_flip_bit_of Diff_iff singleton_iff if_False)
  then have g: "(\<Sum>j<8. ?g j) = ?g i + R"
    using assms sum.remove [of "{..<8}" i ?g] by simp
  have f: "(\<Sum>j<8. ?f j) = ?f i + R"
    unfolding R_def using assms sum.remove [of "{..<8}" i ?f] by simp
  have "odd (popcount (flip_bit_of i b)) \<longleftrightarrow> odd (?g i + R)" by (simp only: odd_popcount g)
  moreover have "odd (popcount b) \<longleftrightarrow> odd (?f i + R)" by (simp only: odd_popcount f)
  ultimately show ?thesis
    using bit_flip_bit_of [OF assms, of b i] by (cases "bit b i") auto
qed

lemma message_type_of_flip: "i < 8 \<Longrightarrow> message_type_of (flip_bit_of i (msg_code t)) = None"
proof (rule ccontr)
  assume i: "i < 8" and "message_type_of (flip_bit_of i (msg_code t)) \<noteq> None"
  then obtain s where "flip_bit_of i (msg_code t) = msg_code s"
    by (auto simp: message_type_of_Some)
  then show False
    using odd_popcount_flip [OF i, of "msg_code t"] odd_popcount_msg_code [of t]
      odd_popcount_msg_code [of s] by simp
qed

text \<open>Keep the symbolic codes: facts about packets are stated with them.\<close>

declare msg_code.simps [simp del]

end
