(* ===== verification/Rap_Types.thy ===== *)
theory Rap_Types
  imports Rap_Prelude
begin

text \<open>
  The exception hierarchy of \<open>Types.h\<close> and \<open>Transports.h\<close>, with the text each exception
  carries (\<open>what\<close>). One datatype holds everything a call of this code can end in:
  \<^item> the classes the repository declares, with their fields;
  \<^item> \<open>ForeignException\<close> and \<open>ErrorCode\<close>: what code outside the repository throws into it
    (a \<open>std::exception\<close> of RTF, asio or the allocator; a \<open>std::error_code\<close> object, which
    is no \<open>std::exception\<close>);
  \<^item> \<open>AssertionFailed\<close> (a failed \<open>assert\<close> ends the program) and \<open>UndefinedBehaviour\<close>
    (C++ gives the execution no meaning): no handler sees these two.
\<close>

datatype exn =
    Exception string
  | CrcMismatchException (mismatch_expected: "32 word") (mismatch_actual: "32 word")
  | OperationNakException (nak_status: "32 word")
  | UnexpectedMessageTypeException
  | MalformedPacketException
  | RapProtocolException
  | MessageSizeException string
  | TransportTimeoutException
  | ForeignException string
  | ErrorCode nat
  | AssertionFailed
  | UndefinedBehaviour

type_synonym 'a result = "exn + 'a"
type_synonym ('s, 'a) action = "(exn, 's, 'a) act"

text \<open>
  \<open>std::format\<close> with the plain \<open>{}\<close> prints an unsigned integer in decimal.
\<close>

definition digit :: "nat \<Rightarrow> char" where
  "digit n = char_of (48 + n)"

fun decimal :: "nat \<Rightarrow> string" where
  "decimal n = (if n < 10 then [digit n] else decimal (n div 10) @ [digit (n mod 10)])"

declare decimal.simps [simp del]

text \<open>The text handed to \<open>std::runtime_error\<close> by each constructor, in the source's words.\<close>

fun what :: "exn \<Rightarrow> string" where
  "what (Exception msg) = msg"
| "what (CrcMismatchException e a) =
     ''CRC mismatch on packet. got:0x'' @ decimal (unat e)
       @ '' want:0x'' @ decimal (unat a)"
| "what (OperationNakException status) =
     ''NAK received from Device. status:0x'' @ decimal (unat status)"
| "what UnexpectedMessageTypeException = ''Received an unexpected (but valid) message type.''"
| "what MalformedPacketException = ''Packet passed CRC but is otherwise malformed.''"
| "what RapProtocolException =
     ''Response Transaction ID does not match Command Transaction ID.''"
| "what (MessageSizeException msg) = msg"
| "what TransportTimeoutException = ''Transport operation timed out!''"
| "what (ForeignException msg) = msg"
| "what (ErrorCode n) = []"
| "what AssertionFailed = []"
| "what UndefinedBehaviour = []"

text \<open>Which outcomes a C++ handler can stop: all objects that were thrown.\<close>

fun catchable :: "exn \<Rightarrow> bool" where
  "catchable AssertionFailed = False"
| "catchable UndefinedBehaviour = False"
| "catchable _ = True"

text \<open>\<open>catch (std::exception const&)\<close> matches everything but a thrown \<open>std::error_code\<close>.\<close>

fun is_std_exception :: "exn \<Rightarrow> bool" where
  "is_std_exception (ErrorCode n) = False"
| "is_std_exception AssertionFailed = False"
| "is_std_exception UndefinedBehaviour = False"
| "is_std_exception _ = True"

lemma std_exception_catchable: "is_std_exception e \<Longrightarrow> catchable e"
  by (cases e) auto

text \<open>A result, and an action, that no failed assertion and no undefined behaviour ends.\<close>

definition handled :: "'r result \<Rightarrow> bool" where
  "handled r \<longleftrightarrow> (\<forall>e. r = Inl e \<longrightarrow> catchable e)"

definition guarded :: "('s, 'r) action \<Rightarrow> bool" where
  "guarded m \<longleftrightarrow> (\<forall>s. handled (fst (m s)))"

lemma handled_simps [simp]: "handled (Inr x)" "handled (Inl e) = catchable e"
  by (simp_all add: handled_def)

lemma guarded_bindA:
  assumes "guarded m" and "\<And>x. guarded (f x)"
  shows "guarded (bindA m f)"
  unfolding guarded_def
proof
  fix s
  have "handled (fst (m s))" using assms(1) by (simp add: guarded_def)
  with assms(2) show "handled (fst (bindA m f s))"
    by (cases "m s"; cases "fst (m s)") (simp_all add: guarded_def)
qed

lemma guarded_liftA: "handled r \<Longrightarrow> guarded (liftA r)"
  by (simp add: guarded_def)

lemmas guarded_intros = guarded_bindA guarded_liftA

lemma decimal_small [simp]: "n < 10 \<Longrightarrow> decimal n = [digit n]"
  by (simp add: decimal.simps)

lemma decimal_nonempty [simp]: "decimal n \<noteq> []"
  by (subst decimal.simps) simp

text \<open>Decimal printing is faithful: reading the digits back gives the number.\<close>

definition digit_value :: "char \<Rightarrow> nat" where
  "digit_value c = of_char c - 48"

definition read_decimal :: "string \<Rightarrow> nat" where
  "read_decimal s = foldl (\<lambda>n c. 10 * n + digit_value c) 0 s"

lemma digit_value_digit [simp]: "n < 10 \<Longrightarrow> digit_value (digit n) = n"
  by (simp add: digit_value_def digit_def)

lemma read_decimal_decimal: "read_decimal (decimal n) = n"
proof (induction n rule: decimal.induct)
  case (1 n)
  show ?case
  proof (cases "n < 10")
    case True
    then show ?thesis by (simp add: read_decimal_def)
  next
    case False
    then have "read_decimal (decimal (n div 10)) = n div 10" by (rule 1)
    with False show ?thesis
      by (subst decimal.simps) (simp add: read_decimal_def)
  qed
qed

lemma decimal_inject: "decimal m = decimal n \<longleftrightarrow> m = n"
  by (metis read_decimal_decimal)

text \<open>
  The two numbers of a CRC mismatch report change places: the value after \<^verbatim>\<open>got\<close> is the
  checksum the receiver computed, the one after \<^verbatim>\<open>want\<close> is the checksum of the packet.
\<close>

lemma what_crc_mismatch_swapped:
  "what (CrcMismatchException want got) =
     ''CRC mismatch on packet. got:0x'' @ decimal (unat want)
       @ '' want:0x'' @ decimal (unat got)"
  by simp

end
