(* ===== verification/Serdes_Fields.thy ===== *)
theory Serdes_Fields
  imports Configuration Messages Rap_Types
begin

text \<open>
  The private half of the class \<open>Serdes\<close> (\<open>Serdes.h\<close>): the object's state and
  constructor, the size computation, the count limits, and the routines that append one field
  to a buffer or take one off its front. Every one of them is a member function of
  \<open>Serdes<Cfg>\<close>, so each takes \<open>cfg\<close>; the object's only member is \<open>max_message_size\<close>.

  The locale \<open>field_codec\<close> states what a pair of an append and an extract routine promises;
  the address, data and length routines are interpreted in it, and the array loops and the
  address/data pairs are verified once inside it.
\<close>

section \<open>Object, constructor, sizes\<close>

record serdes =
  max_message_size :: nat

definition minimum_max_message_size :: nat where
  "minimum_max_message_size = 32"

definition Serdes_constructor :: "nat \<Rightarrow> serdes result" where
  "Serdes_constructor n =
     (if n < minimum_max_message_size
      then throwR (Exception
        ''Serdes max_message_size must be at least Serdes::minimum_max_message_size!'')
      else Inr \<lparr> max_message_size = n \<rparr>)"

definition calcSize ::
  "('a::len, 'd::len, 'l::len, 'c::len) cfg \<Rightarrow> serdes \<Rightarrow> nat \<Rightarrow> nat \<Rightarrow> nat \<Rightarrow> nat result" where
  "calcSize cfg sd address_cnt data_cnt length_cnt =
     (let sz = (2 + address_cnt * AddressBytes cfg + data_cnt * DataBytes cfg
                  + length_cnt * LengthBytes cfg + CrcBytes cfg) mod 2 ^ 64
      in if sz > max_message_size sd
         then throwR (MessageSizeException
           ''Serialized message too large to fit in Transport limits'')
         else Inr sz)"

text \<open>Integer division is undefined for a zero divisor.\<close>

definition div_size :: "nat \<Rightarrow> nat \<Rightarrow> nat result" where
  "div_size m n = (if n = 0 then throwR UndefinedBehaviour else Inr (m div n))"

text \<open>\<open>std::numeric_limits<LengthType>::max()\<close>, and the conversion of a \<open>size_t\<close> to it.\<close>

definition max_by_length :: "('a::len, 'd::len, 'l::len, 'c::len) cfg \<Rightarrow> nat" where
  "max_by_length cfg = 2 ^ LENGTH('l) - 1"

definition getMaxSeqReadCount ::
  "('a::len, 'd::len, 'l::len, 'c::len) cfg \<Rightarrow> serdes \<Rightarrow> 'l word result" where
  "getMaxSeqReadCount cfg sd =
     bindR (calcSize cfg sd 0 0 1) (\<lambda>overhead_sz.
     bindR (div_size (max_message_size sd - overhead_sz) (DataBytes cfg)) (\<lambda>max_by_cmd.
     Inr (word_of_nat (min max_by_cmd (max_by_length cfg)))))"

definition getMaxSeqWriteCount ::
  "('a::len, 'd::len, 'l::len, 'c::len) cfg \<Rightarrow> serdes \<Rightarrow> 'l word result" where
  "getMaxSeqWriteCount cfg sd =
     bindR (calcSize cfg sd 1 0 2) (\<lambda>overhead_sz.
     bindR (div_size (max_message_size sd - overhead_sz) (DataBytes cfg)) (\<lambda>max_by_cmd.
     Inr (word_of_nat (min max_by_cmd (max_by_length cfg)))))"

definition getMaxCompReadCount ::
  "('a::len, 'd::len, 'l::len, 'c::len) cfg \<Rightarrow> serdes \<Rightarrow> 'l word result" where
  "getMaxCompReadCount cfg sd =
     bindR (bindR (calcSize cfg sd 0 0 1) (\<lambda>overhead_sz.
            div_size (max_message_size sd - overhead_sz) (AddressBytes cfg))) (\<lambda>max_by_cmd.
     bindR (bindR (calcSize cfg sd 0 0 1) (\<lambda>overhead_sz.
            div_size (max_message_size sd - overhead_sz) (DataBytes cfg))) (\<lambda>max_by_ack.
     Inr (word_of_nat (min max_by_cmd (min max_by_ack (max_by_length cfg))))))"

definition getMaxCompWriteCount ::
  "('a::len, 'd::len, 'l::len, 'c::len) cfg \<Rightarrow> serdes \<Rightarrow> 'l word result" where
  "getMaxCompWriteCount cfg sd =
     bindR (calcSize cfg sd 0 0 1) (\<lambda>overhead_sz.
     bindR (div_size (max_message_size sd - overhead_sz) (AddressBytes cfg + DataBytes cfg))
       (\<lambda>max_by_cmd.
     Inr (word_of_nat (min max_by_cmd (max_by_length cfg)))))"

section \<open>Appending fields\<close>

definition appendByte :: "Buffer \<Rightarrow> byte \<Rightarrow> Buffer" where
  "appendByte buf v = buf @ [v]"

text \<open>\<open>reserve\<close> sets the capacity only.\<close>

definition mkBuffer :: "nat \<Rightarrow> byte \<Rightarrow> MessageType \<Rightarrow> Buffer" where
  "mkBuffer sz txn_id msg_type = appendByte (appendByte [] txn_id) (msg_code msg_type)"

text \<open>
  The loop of \<open>appendAddress\<close>, \<open>appendData\<close> and \<open>appendLength\<close>: \<open>n\<close> times push the low
  byte and shift it out.
\<close>

fun append_le :: "nat \<Rightarrow> Buffer \<Rightarrow> 'w::len word \<Rightarrow> Buffer" where
  "append_le 0 buf v = buf"
| "append_le (Suc n) buf v = append_le n (buf @ [ucast (v AND 0xFF)]) (drop_bit 8 v)"

definition appendAddress ::
  "('a::len, 'd::len, 'l::len, 'c::len) cfg \<Rightarrow> Buffer \<Rightarrow> 'a word \<Rightarrow> Buffer" where
  "appendAddress cfg buf v = append_le (AddressBytes cfg) buf v"

definition appendData ::
  "('a::len, 'd::len, 'l::len, 'c::len) cfg \<Rightarrow> Buffer \<Rightarrow> 'd word \<Rightarrow> Buffer" where
  "appendData cfg buf v = append_le (DataBytes cfg) buf v"

definition appendLength ::
  "('a::len, 'd::len, 'l::len, 'c::len) cfg \<Rightarrow> Buffer \<Rightarrow> 'l word \<Rightarrow> Buffer" where
  "appendLength cfg buf v = append_le (LengthBytes cfg) buf v"

section \<open>Extracting fields\<close>

definition extractByte :: "Buffer \<Rightarrow> (byte \<times> Buffer) result" where
  "extractByte buf =
     (case buf of [] \<Rightarrow> throwR MalformedPacketException | v # rest \<Rightarrow> Inr (v, rest))"

text \<open>
  The loop of the multi-byte extract routines. The shift \<open>i * 8\<close> stays below the width of
  the (promoted) operand because a field has at most \<open>sizeof\<close> its type many bytes.
\<close>

definition extract_le :: "nat \<Rightarrow> Buffer \<Rightarrow> 'w::len word" where
  "extract_le n buf = foldl (\<lambda>v i. v OR push_bit (i * 8) (ucast (buf ! i))) 0 [0..<n]"

definition extractAddress ::
  "('a::len, 'd::len, 'l::len, 'c::len) cfg \<Rightarrow> Buffer \<Rightarrow> ('a word \<times> Buffer) result" where
  "extractAddress cfg buf =
     (if length buf < AddressBytes cfg then throwR MalformedPacketException
      else Inr (extract_le (AddressBytes cfg) buf, drop (AddressBytes cfg) buf))"

definition extractData ::
  "('a::len, 'd::len, 'l::len, 'c::len) cfg \<Rightarrow> Buffer \<Rightarrow> ('d word \<times> Buffer) result" where
  "extractData cfg buf =
     (if length buf < DataBytes cfg then throwR MalformedPacketException
      else Inr (extract_le (DataBytes cfg) buf, drop (DataBytes cfg) buf))"

definition extractLength ::
  "('a::len, 'd::len, 'l::len, 'c::len) cfg \<Rightarrow> Buffer \<Rightarrow> ('l word \<times> Buffer) result" where
  "extractLength cfg buf =
     (if length buf < LengthBytes cfg then throwR MalformedPacketException
      else Inr (extract_le (LengthBytes cfg) buf, drop (LengthBytes cfg) buf))"

text \<open>The loop of the array routines: \<open>count\<close> times extract one element and push it back.\<close>

fun extract_array ::
  "(Buffer \<Rightarrow> ('v \<times> Buffer) result) \<Rightarrow> nat \<Rightarrow> Buffer \<Rightarrow> 'v list \<Rightarrow> ('v list \<times> Buffer) result"
where
  "extract_array get 0 buf acc = Inr (acc, buf)"
| "extract_array get (Suc n) buf acc =
     bindR (get buf) (\<lambda>(v, buf'). extract_array get n buf' (acc @ [v]))"

definition extractAddressArray ::
  "('a::len, 'd::len, 'l::len, 'c::len) cfg \<Rightarrow> Buffer \<Rightarrow> nat \<Rightarrow> ('a word list \<times> Buffer) result"
where
  "extractAddressArray cfg buf cnt = extract_array (extractAddress cfg) cnt buf []"

definition extractDataArray ::
  "('a::len, 'd::len, 'l::len, 'c::len) cfg \<Rightarrow> Buffer \<Rightarrow> nat \<Rightarrow> ('d word list \<times> Buffer) result"
where
  "extractDataArray cfg buf cnt = extract_array (extractData cfg) cnt buf []"

text \<open>One round of the loop of \<open>extractAddressDataArray\<close>, and the loop.\<close>

definition extractAddressData ::
  "('a::len, 'd::len, 'l::len, 'c::len) cfg \<Rightarrow> Buffer \<Rightarrow> (('a word \<times> 'd word) \<times> Buffer) result"
where
  "extractAddressData cfg buf =
     bindR (extractAddress cfg buf) (\<lambda>(a, buf').
     bindR (extractData cfg buf') (\<lambda>(d, buf''). Inr ((a, d), buf'')))"

definition extractAddressDataArray ::
  "('a::len, 'd::len, 'l::len, 'c::len) cfg \<Rightarrow> Buffer \<Rightarrow> nat \<Rightarrow>
     (('a word \<times> 'd word) list \<times> Buffer) result"
where
  "extractAddressDataArray cfg buf cnt = extract_array (extractAddressData cfg) cnt buf []"

text \<open>One round of the loop that writes address/data pairs.\<close>

definition appendAddressData ::
  "('a::len, 'd::len, 'l::len, 'c::len) cfg \<Rightarrow> Buffer \<Rightarrow> 'a word \<times> 'd word \<Rightarrow> Buffer" where
  "appendAddressData cfg buf ad = appendData cfg (appendAddress cfg buf (fst ad)) (snd ad)"

section \<open>Checksums\<close>

text \<open>
  CRCpp is a git submodule. The code relies on it through one call,
  \<open>CRCPP::CRC::Calculate(data, size, table)\<close>, with a table made from the parameters below;
  \<open>crcpp\<close> stands for that call in every definition that computes a checksum.
\<close>

record 'c crc_parameters =
  CRCWidth :: nat
  polynomial :: 'c
  initialValue :: 'c
  finalXOR :: 'c
  reflectInput :: bool
  reflectOutput :: bool

definition crc8_dvb_s2 :: "'c::len word crc_parameters" where
  "crc8_dvb_s2 =
     \<lparr> CRCWidth = 8, polynomial = 0xd5, initialValue = 0x00, finalXOR = 0x00,
       reflectInput = False, reflectOutput = False \<rparr>"

definition crc16_xmodem :: "'c::len word crc_parameters" where
  "crc16_xmodem =
     \<lparr> CRCWidth = 16, polynomial = 0x1021, initialValue = 0x0000, finalXOR = 0x0000,
       reflectInput = False, reflectOutput = False \<rparr>"

definition crc24_interlaken :: "'c::len word crc_parameters" where
  "crc24_interlaken =
     \<lparr> CRCWidth = 24, polynomial = 0x328b63, initialValue = 0xffffff, finalXOR = 0xffffff,
       reflectInput = False, reflectOutput = False \<rparr>"

definition crc32_interlaken :: "'c::len word crc_parameters" where
  "crc32_interlaken =
     \<lparr> CRCWidth = 32, polynomial = 0x1edc6f41, initialValue = 0xffffffff,
       finalXOR = 0xffffffff, reflectInput = True, reflectOutput = True \<rparr>"

type_synonym 'c crc_function = "'c word crc_parameters \<Rightarrow> Buffer \<Rightarrow> 'c word"

text \<open>A size with no branch falls off the end of a function that returns a value.\<close>

definition calculateCrc ::
  "('a::len, 'd::len, 'l::len, 'c::len) cfg \<Rightarrow> 'c crc_function \<Rightarrow> Buffer \<Rightarrow> 'c word result"
where
  "calculateCrc cfg crcpp buf =
     (if CrcBytes cfg = 1 then Inr (crcpp crc8_dvb_s2 buf)
      else if CrcBytes cfg = 2 then Inr (crcpp crc16_xmodem buf)
      else if CrcBytes cfg = 3 then Inr (crcpp crc24_interlaken buf)
      else if CrcBytes cfg = 4 then Inr (crcpp crc32_interlaken buf)
      else throwR UndefinedBehaviour)"

definition appendCrc ::
  "('a::len, 'd::len, 'l::len, 'c::len) cfg \<Rightarrow> 'c crc_function \<Rightarrow> Buffer \<Rightarrow> Buffer result"
where
  "appendCrc cfg crcpp buf =
     bindR (calculateCrc cfg crcpp buf) (\<lambda>crc.
     Inr (foldl (\<lambda>b i. b @ [ucast (drop_bit (i * 8) crc)]) buf [0..<CrcBytes cfg]))"

definition extractCrc ::
  "('a::len, 'd::len, 'l::len, 'c::len) cfg \<Rightarrow> Buffer \<Rightarrow> ('c word \<times> Buffer) result" where
  "extractCrc cfg buf =
     (if length buf < CrcBytes cfg then throwR MalformedPacketException
      else let crc_buf = drop (length buf - CrcBytes cfg) buf
           in Inr (extract_le (CrcBytes cfg) crc_buf, take (length buf - CrcBytes cfg) buf))"

text \<open>The \<open>assert(buf.size() == sz)\<close> every encode routine ends with.\<close>

definition assert_size :: "nat \<Rightarrow> Buffer \<Rightarrow> Buffer result" where
  "assert_size sz buf = (if length buf = sz then Inr buf else throwR AssertionFailed)"

text \<open>
  The common beginning of \<open>decodeCommand\<close> and \<open>decodeResponse\<close>: check the checksum, strip
  it, read the transaction id and the message type.
\<close>

definition openPacket ::
  "('a::len, 'd::len, 'l::len, 'c::len) cfg \<Rightarrow> 'c crc_function \<Rightarrow> Buffer \<Rightarrow>
     (byte \<times> MessageType option \<times> Buffer) result"
where
  "openPacket cfg crcpp buff =
     (if length buff < 2 + CrcBytes cfg then throwR MalformedPacketException
      else bindR (extractCrc cfg buff) (\<lambda>(wire_crc, buff).
           bindR (calculateCrc cfg crcpp buff) (\<lambda>expected_crc.
           if wire_crc \<noteq> expected_crc
           then throwR (CrcMismatchException (ucast expected_crc) (ucast wire_crc))
           else bindR (extractByte buff) (\<lambda>(transaction_id, buff).
                bindR (extractByte buff) (\<lambda>(msg_type, buff).
                Inr (transaction_id, message_type_of msg_type, buff))))))"

section \<open>The loops compute the reference definitions\<close>

lemma ucast_and_FF: "(ucast (v AND 0xFF) :: byte) = ucast (v :: 'w::len word)"
proof (rule bit_word_eqI)
  fix n :: nat assume n: "n < LENGTH(8)"
  have FF: "(0xFF :: 'w word) = mask 8" by (simp add: mask_eq_exp_minus_1)
  show "bit (ucast (v AND 0xFF) :: byte) n \<longleftrightarrow> bit (ucast v :: byte) n"
    unfolding FF using n by (auto simp: bit_ucast_iff bit_and_iff bit_mask_iff dest: bit_imp_le_length)
qed

lemma append_le_eq: "append_le n buf v = buf @ le_bytes n v"
  by (induction n arbitrary: buf v) (simp_all add: le_bytes_Suc ucast_and_FF)

lemma append_crc_loop:
  "foldl (\<lambda>b i. b @ [ucast (drop_bit (i * 8) crc)]) buf [0..<n] = buf @ le_bytes n crc"
  by (induction n) (simp_all add: le_bytes_snoc mult.commute)

lemma bit_extract_le:
  "bit (extract_le n buf :: 'w::len word) k \<longleftrightarrow>
     k < LENGTH('w) \<and> k < 8 * n \<and> bit (buf ! (k div 8)) (k mod 8)"
proof (induction n)
  case 0
  then show ?case by (simp add: extract_le_def)
next
  case (Suc n)
  have step: "(extract_le (Suc n) buf :: 'w word)
      = extract_le n buf OR push_bit (n * 8) (ucast (buf ! n))"
    by (simp add: extract_le_def)
  have "bit (push_bit (n * 8) (ucast (buf ! n)) :: 'w word) k \<longleftrightarrow>
      k < LENGTH('w) \<and> 8 * n \<le> k \<and> k < 8 * Suc n \<and> bit (buf ! (k div 8)) (k mod 8)"
  proof (cases "8 * n \<le> k \<and> k < 8 * Suc n")
    case True
    then have "k div 8 = n" by (intro div_nat_eqI) auto
    moreover from this have "k mod 8 = k - n * 8"
      using minus_div_mult_eq_mod [of k 8] by simp
    moreover note True
    ultimately show ?thesis
      by (auto simp: bit_push_bit_iff bit_ucast_iff)
  next
    case False
    then show ?thesis
      by (auto simp: bit_push_bit_iff bit_ucast_iff)
  qed
  then show ?case
    by (auto simp: step bit_or_iff Suc.IH)
qed

lemma extract_le_eq:
  "n \<le> length buf \<Longrightarrow> (extract_le n buf :: 'w::len word) = le_word (take n buf)"
  by (rule bit_word_eqI) (auto simp: bit_extract_le bit_le_word)

section \<open>What a field routine promises\<close>

text \<open>
  A codec for one field: \<open>put\<close> appends a value to a buffer, \<open>get\<close> takes one off the front
  and returns the rest of the buffer, \<open>width\<close> is the number of bytes on the wire, and \<open>fits\<close>
  says which values the width can carry.
\<close>

locale field_codec =
  fixes width :: nat
    and put :: "Buffer \<Rightarrow> 'v \<Rightarrow> Buffer"
    and get :: "Buffer \<Rightarrow> ('v \<times> Buffer) result"
    and fits :: "'v \<Rightarrow> bool"
  assumes put_append: "put buf v = buf @ put [] v"
    and length_put: "length (put [] v) = width"
    and get_put: "fits v \<Longrightarrow> get (put [] v @ rest) = Inr (v, rest)"
    and get_short: "length buf < width \<Longrightarrow> get buf = Inl MalformedPacketException"
    and get_long: "width \<le> length buf \<Longrightarrow>
      \<exists>v. fits v \<and> get buf = Inr (v, drop width buf) \<and> put [] v = take width buf"
begin

lemma get_put_nil: "fits v \<Longrightarrow> get (put [] v) = Inr (v, [])"
  using get_put [of v "[]"] by simp

lemma get_inv: "get buf = Inr (v, rest) \<Longrightarrow> buf = put [] v @ rest \<and> fits v"
proof -
  assume got: "get buf = Inr (v, rest)"
  then have "width \<le> length buf" using get_short [of buf] by (cases "length buf < width") auto
  with got get_long [of buf] show ?thesis by auto
qed

lemma get_error_iff: "get buf = Inl e \<longleftrightarrow> length buf < width \<and> e = MalformedPacketException"
  using get_short get_long [of buf] by (cases "length buf < width") auto

lemma length_put_any: "length (put buf v) = length buf + width"
  by (subst put_append) (simp add: length_put)

text \<open>Writing a whole list, and reading as many values back.\<close>

lemma put_list: "foldl put buf vs = buf @ concat (map (put []) vs)"
proof (induction vs arbitrary: buf)
  case Nil
  then show ?case by simp
next
  case (Cons v vs)
  have "foldl put buf (v # vs) = put buf v @ concat (map (put []) vs)"
    by (simp add: Cons.IH)
  also have "put buf v = buf @ put [] v" by (rule put_append)
  finally show ?case by simp
qed

lemma length_put_list: "length (concat (map (put []) vs)) = length vs * width"
  by (induction vs) (simp_all add: length_put)

lemma get_array_put:
  "list_all fits vs \<Longrightarrow>
     extract_array get (length vs) (concat (map (put []) vs) @ rest) acc = Inr (acc @ vs, rest)"
  by (induction vs arbitrary: acc) (simp_all add: get_put)

lemma get_array_put_nil:
  "list_all fits vs \<Longrightarrow>
     extract_array get (length vs) (concat (map (put []) vs)) acc = Inr (acc @ vs, [])"
  using get_array_put [of vs "[]" acc] by simp

lemma get_array_inv:
  "extract_array get n buf acc = Inr (vs, rest) \<Longrightarrow>
     \<exists>us. vs = acc @ us \<and> length us = n \<and> list_all fits us \<and> buf = concat (map (put []) us) @ rest"
proof (induction n arbitrary: buf acc)
  case 0
  then show ?case by simp
next
  case (Suc n)
  then obtain v buf' where got: "get buf = Inr (v, buf')"
    and more: "extract_array get n buf' (acc @ [v]) = Inr (vs, rest)"
    by (auto simp: bindR_eq_Inr_conv)
  from Suc.IH [OF more] obtain us where us: "vs = (acc @ [v]) @ us" "length us = n"
    "list_all fits us" "buf' = concat (map (put []) us) @ rest" by blast
  have "vs = acc @ (v # us) \<and> length (v # us) = Suc n \<and> list_all fits (v # us) \<and>
      buf = concat (map (put []) (v # us)) @ rest"
    using get_inv [OF got] us by simp
  then show ?case by blast
qed

lemma get_array_inv_nil:
  "extract_array get n buf [] = Inr (vs, rest) \<Longrightarrow>
     length vs = n \<and> list_all fits vs \<and> buf = concat (map (put []) vs) @ rest"
  using get_array_inv [of n buf "[]" vs rest] by auto

lemma get_array_error_iff:
  "extract_array get n buf acc = Inl e \<longleftrightarrow>
     length buf < n * width \<and> e = MalformedPacketException"
proof (induction n arbitrary: buf acc)
  case 0
  then show ?case by simp
next
  case (Suc n)
  show ?case
  proof (cases "length buf < width")
    case True
    then have "length buf < Suc n * width" by simp
    with True show ?thesis by (auto simp: get_short)
  next
    case False
    then obtain v where "get buf = Inr (v, drop width buf)"
      using get_long [of buf] by auto
    moreover have "length (drop width buf) < n * width \<longleftrightarrow> length buf < Suc n * width"
      using False by auto
    ultimately show ?thesis by (simp only: extract_array.simps bindR_simps prod.case Suc.IH)
  qed
qed

lemma get_array_exact:
  assumes "length buf = n * width"
  obtains vs where "extract_array get n buf [] = Inr (vs, [])" "length vs = n"
    "list_all fits vs" "buf = concat (map (put []) vs)"
proof -
  have "extract_array get n buf [] \<noteq> Inl e" for e
    using assms by (simp add: get_array_error_iff)
  then obtain vs rest where got: "extract_array get n buf [] = Inr (vs, rest)"
    by (metis old.sum.exhaust surj_pair)
  with get_array_inv [OF got] have "length vs = n" "list_all fits vs"
    and buf: "buf = concat (map (put []) vs) @ rest" by auto
  moreover from buf assms have "rest = []"
    using \<open>length vs = n\<close> by (simp add: length_put_list)
  ultimately show ?thesis using got that by simp
qed

end

text \<open>Two codecs one after the other are a codec for pairs.\<close>

locale pair_codec =
  fst: field_codec wa puta geta fita + snd: field_codec wd putd getd fitd
  for wa :: nat and puta :: "Buffer \<Rightarrow> 'a \<Rightarrow> Buffer" and geta :: "Buffer \<Rightarrow> ('a \<times> Buffer) result"
    and fita :: "'a \<Rightarrow> bool" and wd :: nat and putd :: "Buffer \<Rightarrow> 'd \<Rightarrow> Buffer"
    and getd :: "Buffer \<Rightarrow> ('d \<times> Buffer) result" and fitd :: "'d \<Rightarrow> bool"

sublocale pair_codec \<subseteq> pair: field_codec "wa + wd"
  "\<lambda>buf ad. putd (puta buf (fst ad)) (snd ad)"
  "\<lambda>buf. bindR (geta buf) (\<lambda>(a, buf'). bindR (getd buf') (\<lambda>(d, buf''). Inr ((a, d), buf'')))"
  "\<lambda>ad. fita (fst ad) \<and> fitd (snd ad)"
proof
  fix buf and v :: "'a \<times> 'd"
  show "putd (puta buf (fst v)) (snd v) = buf @ putd (puta [] (fst v)) (snd v)"
    by (metis append.assoc fst.put_append snd.put_append)
  show "length (putd (puta [] (fst v)) (snd v)) = wa + wd"
    by (simp add: fst.length_put snd.length_put_any)
next
  fix v :: "'a \<times> 'd" and rest
  assume "fita (fst v) \<and> fitd (snd v)"
  moreover have "putd (puta [] (fst v)) (snd v) = puta [] (fst v) @ putd [] (snd v)"
    by (rule snd.put_append)
  ultimately show "bindR (geta (putd (puta [] (fst v)) (snd v) @ rest))
      (\<lambda>(a, buf'). bindR (getd buf') (\<lambda>(d, buf''). Inr ((a, d), buf''))) = Inr (v, rest)"
    by (simp add: fst.get_put snd.get_put)
next
  fix buf :: Buffer
  assume short: "length buf < wa + wd"
  show "bindR (geta buf) (\<lambda>(a, buf'). bindR (getd buf') (\<lambda>(d, buf''). Inr ((a, d), buf'')))
      = Inl MalformedPacketException"
  proof (cases "length buf < wa")
    case True
    then show ?thesis by (simp add: fst.get_short)
  next
    case False
    then obtain a where "geta buf = Inr (a, drop wa buf)"
      using fst.get_long [of buf] by auto
    with False short show ?thesis by (simp add: snd.get_short)
  qed
next
  fix buf :: Buffer
  assume long: "wa + wd \<le> length buf"
  then obtain a where a: "fita a" "geta buf = Inr (a, drop wa buf)" "puta [] a = take wa buf"
    using fst.get_long [of buf] by auto
  have "wd \<le> length (drop wa buf)" using long by simp
  then obtain d where d: "fitd d" "getd (drop wa buf) = Inr (d, drop wd (drop wa buf))"
    "putd [] d = take wd (drop wa buf)"
    using snd.get_long [of "drop wa buf"] by blast
  have "putd (puta [] a) d = take (wa + wd) buf"
    by (subst snd.put_append) (simp add: a(3) d(3) take_add)
  then show "\<exists>v. (fita (fst v) \<and> fitd (snd v)) \<and>
      bindR (geta buf) (\<lambda>(a, buf'). bindR (getd buf') (\<lambda>(d, buf''). Inr ((a, d), buf'')))
        = Inr (v, drop (wa + wd) buf) \<and>
      putd (puta [] (fst v)) (snd v) = take (wa + wd) buf"
    using a d by (intro exI [of _ "(a, d)"]) (simp add: add.commute)
qed

section \<open>The routines of the code are codecs\<close>

context pair_codec
begin

lemma is_field_codec:
  "field_codec (wa + wd) (\<lambda>buf ad. putd (puta buf (fst ad)) (snd ad))
     (\<lambda>buf. bindR (geta buf) (\<lambda>(a, buf'). bindR (getd buf') (\<lambda>(d, buf''). Inr ((a, d), buf''))))
     (\<lambda>ad. fita (fst ad) \<and> fitd (snd ad))"
  by (rule pair.field_codec_axioms)

end

lemma le_field_codec:
  assumes "8 * n \<le> LENGTH('w)"
  shows "field_codec n (append_le n :: Buffer \<Rightarrow> 'w::len word \<Rightarrow> Buffer)
    (\<lambda>buf. if length buf < n then throwR MalformedPacketException
           else Inr (extract_le n buf, drop n buf)) (fits_bytes n)"
proof
  fix v :: "'w word" and rest :: Buffer
  assume "fits_bytes n v"
  then show "(if length (append_le n [] v @ rest) < n then throwR MalformedPacketException
      else Inr (extract_le n (append_le n [] v @ rest), drop n (append_le n [] v @ rest)))
      = Inr (v, rest)"
    by (simp add: append_le_eq extract_le_eq le_word_le_bytes fits_bytes_take_bit)
next
  fix buf :: Buffer
  assume n: "n \<le> length buf"
  then have len: "length (take n buf) = n" by simp
  have "fits_bytes n (le_word (take n buf) :: 'w word)"
    using fits_bytes_le_word [of "take n buf"] len by simp
  moreover have "le_bytes n (le_word (take n buf) :: 'w word) = take n buf"
    using le_bytes_le_word [of "take n buf"] assms len by simp
  ultimately show "\<exists>v :: 'w word. fits_bytes n v \<and>
      (if length buf < n then throwR MalformedPacketException
       else Inr (extract_le n buf, drop n buf)) = Inr (v, drop n buf) \<and>
      append_le n [] v = take n buf"
    using n by (simp add: append_le_eq extract_le_eq)
qed (simp_all add: append_le_eq)

definition pair_fits ::
  "('a::len, 'd::len, 'l::len, 'c::len) cfg \<Rightarrow> 'a word \<times> 'd word \<Rightarrow> bool" where
  "pair_fits cfg ad \<longleftrightarrow>
     fits_bytes (AddressBytes cfg) (fst ad) \<and> fits_bytes (DataBytes cfg) (snd ad)"

sublocale wf_config \<subseteq> adr: field_codec "AddressBytes cfg" "appendAddress cfg"
  "extractAddress cfg" "fits_bytes (AddressBytes cfg)"
  using le_field_codec [OF address_width]
  by (simp only: appendAddress_def [abs_def] extractAddress_def [abs_def])

sublocale wf_config \<subseteq> dat: field_codec "DataBytes cfg" "appendData cfg"
  "extractData cfg" "fits_bytes (DataBytes cfg)"
  using le_field_codec [OF data_width]
  by (simp only: appendData_def [abs_def] extractData_def [abs_def])

sublocale wf_config \<subseteq> len: field_codec "LengthBytes cfg" "appendLength cfg"
  "extractLength cfg" "fits_bytes (LengthBytes cfg)"
  using le_field_codec [OF length_width]
  by (simp only: appendLength_def [abs_def] extractLength_def [abs_def])

sublocale wf_config \<subseteq> adp: pair_codec "AddressBytes cfg" "appendAddress cfg"
  "extractAddress cfg" "fits_bytes (AddressBytes cfg)" "DataBytes cfg" "appendData cfg"
  "extractData cfg" "fits_bytes (DataBytes cfg)"
  by intro_locales

sublocale wf_config \<subseteq> ad: field_codec "AddressBytes cfg + DataBytes cfg"
  "appendAddressData cfg" "extractAddressData cfg" "pair_fits cfg"
  using adp.is_field_codec
  by (simp only: appendAddressData_def [abs_def] extractAddressData_def [abs_def]
        pair_fits_def [abs_def])

section \<open>Sizes and counts\<close>

text \<open>The number of bytes of a message, without the wrap-around of \<open>size_t\<close>.\<close>

definition msg_size :: "('a::len, 'd::len, 'l::len, 'c::len) cfg \<Rightarrow> nat \<Rightarrow> nat \<Rightarrow> nat \<Rightarrow> nat" where
  "msg_size cfg address_cnt data_cnt length_cnt =
     2 + address_cnt * AddressBytes cfg + data_cnt * DataBytes cfg
       + length_cnt * LengthBytes cfg + CrcBytes cfg"

text \<open>An object the constructor can have made.\<close>

definition serdes_ok :: "serdes \<Rightarrow> bool" where
  "serdes_ok sd \<longleftrightarrow> 32 \<le> max_message_size sd"

lemma Serdes_constructor_ok: "Serdes_constructor n = Inr sd \<Longrightarrow> serdes_ok sd \<and> max_message_size sd = n"
  by (auto simp: Serdes_constructor_def serdes_ok_def minimum_max_message_size_def
      split: if_splits)

text \<open>The greatest count \<open>n\<close> with \<open>k + n * w \<le> m\<close> that the length type can express.\<close>

lemma le_unat_min_limit:
  "n \<le> unat (word_of_nat (min x (2 ^ LENGTH('l) - 1)) :: 'l::len word)
     \<longleftrightarrow> n \<le> x \<and> n < 2 ^ LENGTH('l)"
proof -
  have pos: "(0::nat) < 2 ^ LENGTH('l)" by simp
  then have "min x (2 ^ LENGTH('l) - 1) < 2 ^ LENGTH('l)" by linarith
  then have "unat (word_of_nat (min x (2 ^ LENGTH('l) - 1)) :: 'l word)
      = min x (2 ^ LENGTH('l) - 1)"
    by (simp add: unat_of_nat)
  moreover have "n \<le> 2 ^ LENGTH('l) - 1 \<longleftrightarrow> n < 2 ^ LENGTH('l)" using pos by linarith
  ultimately show ?thesis by (simp only: min.bounded_iff)
qed

lemma le_div_limit:
  fixes w k m n :: nat
  assumes "0 < w" and "k \<le> m"
  shows "n \<le> (m - k) div w \<longleftrightarrow> k + n * w \<le> m"
  using assms by (auto simp: less_eq_div_iff_mult_less_eq)

lemma count_limit:
  assumes "0 < w" and "k \<le> m"
  shows "n \<le> unat (word_of_nat (min ((m - k) div w) (2 ^ LENGTH('l) - 1)) :: 'l::len word)
    \<longleftrightarrow> k + n * w \<le> m \<and> n < 2 ^ LENGTH('l)"
  by (simp only: le_unat_min_limit le_div_limit [OF assms])

lemma count_limit2:
  assumes "0 < w" and "0 < u" and "k \<le> m"
  shows "n \<le> unat (word_of_nat (min ((m - k) div w) (min ((m - k) div u)
      (2 ^ LENGTH('l) - 1))) :: 'l::len word)
    \<longleftrightarrow> k + n * w \<le> m \<and> k + n * u \<le> m \<and> n < 2 ^ LENGTH('l)"
  by (simp only: min.assoc [symmetric] le_unat_min_limit min.bounded_iff
        le_div_limit [OF assms(1,3)] le_div_limit [OF assms(2,3)] conj_assoc)

context wf_config
begin

lemma mult_bytes_bound:
  "n \<le> 65536 \<Longrightarrow> n * AddressBytes cfg \<le> 524288"
  "n \<le> 65536 \<Longrightarrow> n * DataBytes cfg \<le> 524288"
  "n \<le> 65536 \<Longrightarrow> n * LengthBytes cfg \<le> 524288"
  using mult_le_mono [of n 65536 "AddressBytes cfg" 8] mult_le_mono [of n 65536 "DataBytes cfg" 8]
    mult_le_mono [of n 65536 "LengthBytes cfg" 8] bytes_bounds by simp_all

lemma calcSize_eq:
  assumes "a \<le> 65536" "d \<le> 65536" "l \<le> 65536"
  shows "calcSize cfg sd a d l =
    (if msg_size cfg a d l \<le> max_message_size sd then Inr (msg_size cfg a d l)
     else Inl (MessageSizeException ''Serialized message too large to fit in Transport limits''))"
proof -
  have "msg_size cfg a d l < 2 ^ 64"
    using mult_bytes_bound(1) [OF assms(1)] mult_bytes_bound(2) [OF assms(2)]
      mult_bytes_bound(3) [OF assms(3)] bytes_bounds
    by (simp add: msg_size_def)
  then show ?thesis
    by (simp add: calcSize_def Let_def msg_size_def not_less)
qed

text \<open>The messages without a list: at most 32 bytes for every sound configuration.\<close>

lemma fixed_size_bound:
  assumes "a \<le> 1" "d \<le> 2" "l \<le> 2" "l = 0 \<or> d = 0"
  shows "msg_size cfg a d l \<le> 32"
proof -
  have "a * AddressBytes cfg \<le> 8"
    using mult_le_mono [OF assms(1) bytes_bounds(1)] by simp
  moreover have "d * DataBytes cfg + l * LengthBytes cfg \<le> 16"
    using mult_le_mono [OF assms(2) bytes_bounds(2)] mult_le_mono [OF assms(3) bytes_bounds(3)]
      assms(4) by auto
  ultimately show ?thesis
    using bytes_bounds(4) by (simp add: msg_size_def)
qed

lemma calcSize_fixed:
  assumes "a \<le> 1" "d \<le> 2" "l \<le> 2" "l = 0 \<or> d = 0" "serdes_ok sd"
  shows "calcSize cfg sd a d l = Inr (msg_size cfg a d l)"
  using fixed_size_bound [OF assms(1-4)] assms by (simp add: calcSize_eq serdes_ok_def)

lemma getMaxSeqReadCount_spec:
  assumes "serdes_ok sd"
  obtains m where "getMaxSeqReadCount cfg sd = Inr m"
    "\<And>n. n \<le> unat m \<longleftrightarrow> msg_size cfg 0 n 1 \<le> max_message_size sd \<and> n < 2 ^ LENGTH('l)"
proof -
  have "msg_size cfg 0 0 1 \<le> max_message_size sd"
    using fixed_size_bound [of 0 0 1] assms by (simp add: serdes_ok_def)
  from count_limit [OF bytes_positive(2) this] show ?thesis
    by (intro that) (simp_all add: getMaxSeqReadCount_def calcSize_fixed assms div_size_def
        max_by_length_def msg_size_def ac_simps)
qed

lemma getMaxSeqWriteCount_spec:
  assumes "serdes_ok sd"
  obtains m where "getMaxSeqWriteCount cfg sd = Inr m"
    "\<And>n. n \<le> unat m \<longleftrightarrow> msg_size cfg 1 n 2 \<le> max_message_size sd \<and> n < 2 ^ LENGTH('l)"
proof -
  have "msg_size cfg 1 0 2 \<le> max_message_size sd"
    using fixed_size_bound [of 1 0 2] assms by (simp add: serdes_ok_def)
  from count_limit [OF bytes_positive(2) this] show ?thesis
    by (intro that) (simp_all add: getMaxSeqWriteCount_def calcSize_fixed assms div_size_def
        max_by_length_def msg_size_def ac_simps)
qed

lemma getMaxCompReadCount_spec:
  assumes "serdes_ok sd"
  obtains m where "getMaxCompReadCount cfg sd = Inr m"
    "\<And>n. n \<le> unat m \<longleftrightarrow> msg_size cfg n 0 1 \<le> max_message_size sd \<and>
       msg_size cfg 0 n 1 \<le> max_message_size sd \<and> n < 2 ^ LENGTH('l)"
proof -
  have "msg_size cfg 0 0 1 \<le> max_message_size sd"
    using fixed_size_bound [of 0 0 1] assms by (simp add: serdes_ok_def)
  from count_limit2 [OF bytes_positive(1,2) this] show ?thesis
    by (intro that) (simp_all add: getMaxCompReadCount_def calcSize_fixed assms div_size_def
        max_by_length_def msg_size_def ac_simps)
qed

lemma getMaxCompWriteCount_spec:
  assumes "serdes_ok sd"
  obtains m where "getMaxCompWriteCount cfg sd = Inr m"
    "\<And>n. n \<le> unat m \<longleftrightarrow> msg_size cfg n n 1 \<le> max_message_size sd \<and> n < 2 ^ LENGTH('l)"
proof -
  have "msg_size cfg 0 0 1 \<le> max_message_size sd"
    using fixed_size_bound [of 0 0 1] assms by (simp add: serdes_ok_def)
  moreover have "0 < AddressBytes cfg + DataBytes cfg" by simp
  note count_limit [OF this calculation]
  then show ?thesis
    by (intro that) (simp_all add: getMaxCompWriteCount_def calcSize_fixed assms div_size_def
        max_by_length_def msg_size_def ac_simps distrib_left)
qed

end

end
