(* ===== verification/Crc_Reference.thy ===== *)
theory Crc_Reference
  imports Serdes_Fields
begin

text \<open>
  CRCpp is a submodule whose source is not in the repository, so the development takes the
  call \<open>CRCPP::CRC::Calculate\<close> as a parameter. What the packet format needs of it is stated
  here (\<open>crc_width_respected\<close>: a checksum has no bit beyond the \<open>CRCWidth\<close> of its
  parameters, which is what the library documents that template argument to be), together
  with a bit-serial checksum over the same parameters that satisfies it. The bit-serial
  function is the concrete instance the witnesses and the interpretations compute with; it is
  checked against the published check values of the algorithms \<open>calculateCrc\<close> names in its
  comments.
\<close>

definition crc_width_respected :: "'c::len crc_function \<Rightarrow> bool" where
  "crc_width_respected crcpp \<longleftrightarrow> (\<forall>p buf. unat (crcpp p buf) < 2 ^ CRCWidth p)"

definition shift_register :: "nat \<Rightarrow> 'c::len word \<Rightarrow> 'c word \<Rightarrow> bool \<Rightarrow> 'c word" where
  "shift_register w poly r b =
     (let r' = take_bit w (push_bit 1 r)
      in if bit r (w - 1) \<noteq> b then r' XOR poly else r')"

definition bits_of_byte :: "bool \<Rightarrow> byte \<Rightarrow> bool list" where
  "bits_of_byte reflect b = map (bit b) (if reflect then [0..<8] else rev [0..<8])"

definition reflect_word :: "nat \<Rightarrow> 'c::len word \<Rightarrow> 'c word" where
  "reflect_word w r = foldl (\<lambda>v i. if bit r i then set_bit (w - 1 - i) v else v) 0 [0..<w]"

definition bit_serial_crc :: "'c::len crc_function" where
  "bit_serial_crc p buf =
     (let w = CRCWidth p;
          r = foldl (shift_register w (polynomial p)) (initialValue p)
                (concat (map (bits_of_byte (reflectInput p)) buf));
          r' = (if reflectOutput p then reflect_word w r else r)
      in take_bit w (r' XOR finalXOR p))"

lemma unat_take_bit_less: "unat (take_bit n (v :: 'c::len word)) < 2 ^ n"
  by (simp add: unsigned_take_bit_eq)

lemma bit_serial_crc_width [simp]: "crc_width_respected bit_serial_crc"
  by (simp only: crc_width_respected_def bit_serial_crc_def Let_def unat_take_bit_less simp_thms)

text \<open>The check input of the CRC catalogues: the ASCII digits one to nine.\<close>

definition check_input :: Buffer where
  "check_input = [0x31, 0x32, 0x33, 0x34, 0x35, 0x36, 0x37, 0x38, 0x39]"

lemma bit_serial_crc_check_values:
  "bit_serial_crc crc8_dvb_s2 check_input = (0xBC :: 8 word)"
  "bit_serial_crc crc16_xmodem check_input = (0x31C3 :: 16 word)"
  "bit_serial_crc crc24_interlaken check_input = (0xB4F3E6 :: 32 word)"
  "bit_serial_crc crc32_interlaken check_input = (0xE3069283 :: 32 word)"
  by code_simp+

end
