(* ===== verification/Message_Order.thy ===== *)
theory Message_Order
  imports Messages "HOL-Library.Product_Lexorder" "HOL-Library.List_Lexorder"
begin

text \<open>
  The comparisons of the message structs (\<open>operator<=>(...) const = default\<close> in \<open>Serdes.h\<close>) and of
  the two variants: alternatives are compared by their index, two of the same alternative by
  their members in the order of declaration, vectors and pairs lexicographically.

  A key holds the members of a message in that order, with an empty list for a member that its
  struct does not have; the order of the keys is the order of the library.
\<close>

section \<open>Commands\<close>

fun command_key :: "('a, 'd, 'l) Command \<Rightarrow>
    nat \<times> byte \<times> bool \<times> 'a list \<times> 'l list \<times> ('a \<times> 'd) list \<times> 'd list" where
  "command_key (ReadSingleCommand t addr) = (0, t, False, [addr], [], [], [])"
| "command_key (WriteSingleCommand t posted addr data) = (1, t, posted, [addr], [], [], [data])"
| "command_key (ReadSeqCommand t start_addr increment count) =
     (2, t, False, [start_addr], [increment, count], [], [])"
| "command_key (WriteSeqCommand t posted start_addr increment data) =
     (3, t, posted, [start_addr], [increment], [], data)"
| "command_key (ReadCompCommand t addresses) = (4, t, False, addresses, [], [], [])"
| "command_key (WriteCompCommand t posted addr_data) = (5, t, posted, [], [], addr_data, [])"
| "command_key (ReadModifyWriteCommand t posted addr data bits) =
     (6, t, posted, [addr], [], [], [data, bits])"

lemma command_key_inject: "command_key c = command_key d \<longleftrightarrow> c = d"
  by (cases c; cases d; simp)

instantiation Command :: (linorder, linorder, linorder) linorder
begin

definition less_eq_Command :: "('a, 'b, 'c) Command \<Rightarrow> ('a, 'b, 'c) Command \<Rightarrow> bool" where
  "less_eq_Command c d = (command_key c \<le> command_key d)"

definition less_Command :: "('a, 'b, 'c) Command \<Rightarrow> ('a, 'b, 'c) Command \<Rightarrow> bool" where
  "less_Command c d = (command_key c < command_key d)"

instance
proof
  fix x y z :: "('a, 'b, 'c) Command"
  show "x < y \<longleftrightarrow> x \<le> y \<and> \<not> y \<le> x"
    unfolding less_Command_def less_eq_Command_def by (rule less_le_not_le)
  show "x \<le> x" unfolding less_eq_Command_def by (rule order_refl)
  show "x \<le> z" if "x \<le> y" and "y \<le> z" using that unfolding less_eq_Command_def by (rule order_trans)
  show "x = y" if "x \<le> y" and "y \<le> x"
    using that command_key_inject [of x y] unfolding less_eq_Command_def by (simp add: order_antisym)
  show "x \<le> y \<or> y \<le> x" unfolding less_eq_Command_def by (rule linear)
qed

end

section \<open>Responses\<close>

fun response_key :: "'d Response \<Rightarrow> nat \<times> byte \<times> 'd list" where
  "response_key (ReadSingleAckResponse t data) = (0, t, [data])"
| "response_key (WriteSingleAckResponse t) = (1, t, [])"
| "response_key (ReadSeqAckResponse t data) = (2, t, data)"
| "response_key (WriteSeqAckResponse t) = (3, t, [])"
| "response_key (ReadCompAckResponse t data) = (4, t, data)"
| "response_key (WriteCompAckResponse t) = (5, t, [])"
| "response_key (ReadSingleNakResponse t status) = (6, t, [status])"
| "response_key (WriteSingleNakResponse t status) = (7, t, [status])"
| "response_key (ReadSeqNakResponse t status) = (8, t, [status])"
| "response_key (WriteSeqNakResponse t status) = (9, t, [status])"
| "response_key (ReadCompNakResponse t status) = (10, t, [status])"
| "response_key (WriteCompNakResponse t status) = (11, t, [status])"
| "response_key (ReadmodifywriteSingleAckResponse t) = (12, t, [])"
| "response_key (ReadmodifywriteSingleNakResponse t status) = (13, t, [status])"
| "response_key (Interrupt t status) = (14, t, [status])"

lemma response_key_inject: "response_key q = response_key r \<longleftrightarrow> q = r"
  by (cases q; cases r; simp)

instantiation Response :: (linorder) linorder
begin

definition less_eq_Response :: "'a Response \<Rightarrow> 'a Response \<Rightarrow> bool" where
  "less_eq_Response q r = (response_key q \<le> response_key r)"

definition less_Response :: "'a Response \<Rightarrow> 'a Response \<Rightarrow> bool" where
  "less_Response q r = (response_key q < response_key r)"

instance
proof
  fix x y z :: "'a Response"
  show "x < y \<longleftrightarrow> x \<le> y \<and> \<not> y \<le> x"
    unfolding less_Response_def less_eq_Response_def by (rule less_le_not_le)
  show "x \<le> x" unfolding less_eq_Response_def by (rule order_refl)
  show "x \<le> z" if "x \<le> y" and "y \<le> z" using that unfolding less_eq_Response_def by (rule order_trans)
  show "x = y" if "x \<le> y" and "y \<le> x"
    using that response_key_inject [of x y] unfolding less_eq_Response_def by (simp add: order_antisym)
  show "x \<le> y \<or> y \<le> x" unfolding less_eq_Response_def by (rule linear)
qed

end

section \<open>Memberwise comparison\<close>

lemma command_le_memberwise:
  fixes a a' :: "'a::linorder" and d d' m m' :: "'d::linorder" and i i' n n' :: "'l::linorder"
  shows "(ReadSeqCommand t a i n :: ('a, 'd, 'l) Command) \<le> ReadSeqCommand t' a' i' n' \<longleftrightarrow>
      (t, a, i, n) \<le> (t', a', i', n')"
    and "(WriteSeqCommand t p a i ds :: ('a, 'd, 'l) Command) \<le> WriteSeqCommand t' p' a' i' ds' \<longleftrightarrow>
      (t, p, a, i, ds) \<le> (t', p', a', i', ds')"
    and "(WriteCompCommand t p ads :: ('a, 'd, 'l) Command) \<le> WriteCompCommand t' p' ads' \<longleftrightarrow>
      (t, p, ads) \<le> (t', p', ads')"
    and "(ReadModifyWriteCommand t p a d m :: ('a, 'd, 'l) Command) \<le>
      ReadModifyWriteCommand t' p' a' d' m' \<longleftrightarrow> (t, p, a, d, m) \<le> (t', p', a', d', m')"
  by (auto simp: less_eq_Command_def less_eq_prod_def)

text \<open>Commands of different kinds compare as their kinds do, whatever they hold.\<close>

lemma command_kind_first: "fst (command_key c) < fst (command_key d) \<Longrightarrow> c < d"
  by (simp add: less_Command_def less_prod_def)

end
