(* ===== verification/Serdes_Packet.thy ===== *)
theory Serdes_Packet
  imports Crc_Reference
begin

text \<open>
  The frame around every message: transaction id, message type, body, checksum. \<open>packet\<close> is
  the frame as a value; the lemmas say that the code's \<open>mkBuffer\<close>/\<open>appendCrc\<close> build it, that
  \<open>openPacket\<close> takes it apart, and that nothing else is accepted. The locale \<open>wf_wire\<close>
  extends \<open>wf_config\<close> by the property of the CRC library the frame needs.
\<close>

definition packet_crc ::
  "('a::len, 'd::len, 'l::len, 'c::len) cfg \<Rightarrow> 'c crc_function \<Rightarrow> Buffer \<Rightarrow> 'c word" where
  "packet_crc cfg crcpp buf =
     (case calculateCrc cfg crcpp buf of Inl e \<Rightarrow> 0 | Inr crc \<Rightarrow> crc)"

definition packet ::
  "('a::len, 'd::len, 'l::len, 'c::len) cfg \<Rightarrow> 'c crc_function \<Rightarrow> byte \<Rightarrow> byte \<Rightarrow> Buffer \<Rightarrow> Buffer"
where
  "packet cfg crcpp txn code body =
     (txn # code # body)
       @ le_bytes (CrcBytes cfg) (packet_crc cfg crcpp (txn # code # body))"

lemma length_packet [simp]: "length (packet cfg crcpp txn code body) = 2 + length body + CrcBytes cfg"
  by (simp add: packet_def)

lemma packet_inject:
  "packet cfg crcpp txn code body = packet cfg crcpp txn' code' body' \<longleftrightarrow>
     txn = txn' \<and> code = code' \<and> body = body'"
  by (auto simp: packet_def)

lemma mkBuffer_eq [simp]: "mkBuffer sz txn mt = [txn, msg_code mt]"
  by (simp add: mkBuffer_def appendByte_def)

lemma extractByte_Cons [simp]: "extractByte (b # buf) = Inr (b, buf)"
  by (simp add: extractByte_def)

text \<open>The append routines in terms of the reference definition.\<close>

lemma append_field_simps [simp]:
  "appendAddress cfg buf a = buf @ le_bytes (AddressBytes cfg) a"
  "appendData cfg buf d = buf @ le_bytes (DataBytes cfg) d"
  "appendLength cfg buf l = buf @ le_bytes (LengthBytes cfg) l"
  by (simp_all add: appendAddress_def appendData_def appendLength_def append_le_eq)

definition pair_bytes ::
  "('a::len, 'd::len, 'l::len, 'c::len) cfg \<Rightarrow> 'a word \<times> 'd word \<Rightarrow> Buffer" where
  "pair_bytes cfg ad = le_bytes (AddressBytes cfg) (fst ad) @ le_bytes (DataBytes cfg) (snd ad)"

lemma length_pair_bytes [simp]: "length (pair_bytes cfg ad) = AddressBytes cfg + DataBytes cfg"
  by (simp add: pair_bytes_def)

lemma appendAddressData_eq [simp]: "appendAddressData cfg buf ad = buf @ pair_bytes cfg ad"
  by (simp add: appendAddressData_def pair_bytes_def)

lemma foldl_append_bytes:
  assumes "\<And>buf v. put buf v = buf @ enc v"
  shows "foldl put buf vs = buf @ concat (map enc vs)"
  by (induction vs arbitrary: buf) (simp_all add: assms)

lemma foldl_append_simps [simp]:
  "foldl (appendAddress cfg) buf as = buf @ concat (map (le_bytes (AddressBytes cfg)) as)"
  "foldl (appendData cfg) buf ds = buf @ concat (map (le_bytes (DataBytes cfg)) ds)"
  "foldl (appendAddressData cfg) buf ads = buf @ concat (map (pair_bytes cfg) ads)"
  by (rule foldl_append_bytes, simp)+

lemma length_concat_map:
  "(\<And>v. length (enc v) = w) \<Longrightarrow> length (concat (map enc vs)) = length vs * w"
  by (induction vs) simp_all

lemma length_concat_bytes [simp]:
  "length (concat (map (le_bytes n) vs)) = length vs * n"
  "length (concat (map (pair_bytes cfg) ads)) = length ads * (AddressBytes cfg + DataBytes cfg)"
  by (rule length_concat_map, simp)+

locale wf_wire = wf_config cfg
  for cfg :: "('a::len, 'd::len, 'l::len, 'c::len) cfg" +
  fixes crcpp :: "'c crc_function"
  assumes crc_ok: "crc_width_respected crcpp"
begin

lemma unat_word_of_length:
  "n < 2 ^ (8 * LengthBytes cfg) \<Longrightarrow> unat (word_of_nat n :: 'l word) = n"
proof -
  assume "n < 2 ^ (8 * LengthBytes cfg)"
  moreover have "(2::nat) ^ (8 * LengthBytes cfg) \<le> 2 ^ LENGTH('l)"
    using length_width by (rule power_increasing) simp
  ultimately have "n < 2 ^ LENGTH('l)" by linarith
  then show ?thesis by (simp add: unat_of_nat)
qed

lemma fits_word_of_length:
  "n < 2 ^ (8 * LengthBytes cfg) \<Longrightarrow> fits_bytes (LengthBytes cfg) (word_of_nat n :: 'l word)"
  by (simp add: fits_bytes_def unat_word_of_length)

text \<open>Reading back what was appended, the facts of the codecs over \<open>le_bytes\<close>.\<close>

lemma put_nil_bytes:
  "appendAddress cfg [] = le_bytes (AddressBytes cfg)"
  "appendData cfg [] = le_bytes (DataBytes cfg)"
  "appendLength cfg [] = le_bytes (LengthBytes cfg)"
  "appendAddressData cfg [] = pair_bytes cfg"
  by (simp_all add: fun_eq_iff)

lemmas extract_put =
  adr.get_put [unfolded put_nil_bytes] adr.get_put_nil [unfolded put_nil_bytes]
  dat.get_put [unfolded put_nil_bytes] dat.get_put_nil [unfolded put_nil_bytes]
  len.get_put [unfolded put_nil_bytes] len.get_put_nil [unfolded put_nil_bytes]
  adr.get_array_put_nil [unfolded put_nil_bytes] dat.get_array_put_nil [unfolded put_nil_bytes]
  ad.get_array_put_nil [unfolded put_nil_bytes]

lemmas extract_inv =
  adr.get_inv [unfolded put_nil_bytes] dat.get_inv [unfolded put_nil_bytes]
  len.get_inv [unfolded put_nil_bytes]
  adr.get_array_inv_nil [unfolded put_nil_bytes] dat.get_array_inv_nil [unfolded put_nil_bytes]
  ad.get_array_inv_nil [unfolded put_nil_bytes]

lemmas extract_error =
  adr.get_error_iff dat.get_error_iff len.get_error_iff
  adr.get_array_error_iff dat.get_array_error_iff ad.get_array_error_iff

lemma calculateCrc_eq: "calculateCrc cfg crcpp buf = Inr (packet_crc cfg crcpp buf)"
  using crc_bytes_cases by (auto simp: packet_crc_def calculateCrc_def)

lemma fits_packet_crc: "fits_bytes (CrcBytes cfg) (packet_crc cfg crcpp buf)"
proof -
  have "unat (crcpp p buf) < 2 ^ CRCWidth p" for p
    using crc_ok by (simp add: crc_width_respected_def)
  from this [of crc8_dvb_s2] this [of crc16_xmodem] this [of crc24_interlaken]
    this [of crc32_interlaken]
  show ?thesis
    using crc_bytes_cases
    by (auto simp: packet_crc_def calculateCrc_def fits_bytes_def crc8_dvb_s2_def
        crc16_xmodem_def crc24_interlaken_def crc32_interlaken_def)
qed

lemma appendCrc_eq:
  "appendCrc cfg crcpp (txn # code # body) = Inr (packet cfg crcpp txn code body)"
  by (simp add: appendCrc_def calculateCrc_eq append_crc_loop packet_def)

lemma extractCrc_append:
  "extractCrc cfg (buf @ le_bytes (CrcBytes cfg) crc) = Inr (take_bit (8 * CrcBytes cfg) crc, buf)"
  by (simp add: extractCrc_def extract_le_eq le_word_le_bytes)

lemma openPacket_append:
  "openPacket cfg crcpp (txn # code # body @ le_bytes (CrcBytes cfg) crc) =
     (if take_bit (8 * CrcBytes cfg) crc = packet_crc cfg crcpp (txn # code # body)
      then Inr (txn, message_type_of code, body)
      else Inl (CrcMismatchException (ucast (packet_crc cfg crcpp (txn # code # body)))
             (ucast (take_bit (8 * CrcBytes cfg) crc))))"
  using extractCrc_append [of "txn # code # body" crc]
  by (simp add: openPacket_def calculateCrc_eq)

lemma openPacket_packet:
  "openPacket cfg crcpp (packet cfg crcpp txn code body) = Inr (txn, message_type_of code, body)"
  using openPacket_append [of txn code body "packet_crc cfg crcpp (txn # code # body)"]
  by (simp add: packet_def fits_bytes_take_bit [OF fits_packet_crc])

text \<open>A length field on the wire keeps only the bytes configured for it.\<close>

lemma extractLength_bytes:
  "extractLength cfg (le_bytes (LengthBytes cfg) v @ rest) =
     Inr (take_bit (8 * LengthBytes cfg) v, rest)"
  by (simp add: extractLength_def extract_le_eq le_word_le_bytes)

text \<open>A checksum other than the computed one is reported with both values.\<close>

lemma openPacket_bad_crc:
  assumes "length tail = CrcBytes cfg"
    and "tail \<noteq> le_bytes (CrcBytes cfg) (packet_crc cfg crcpp (txn # code # body))"
  shows "openPacket cfg crcpp (txn # code # body @ tail) =
    Inl (CrcMismatchException (ucast (packet_crc cfg crcpp (txn # code # body)))
           (ucast (le_word tail :: 'c word)))"
proof -
  have bytes: "le_bytes (CrcBytes cfg) (le_word tail :: 'c word) = tail"
    using le_bytes_le_word [of tail, where 'w = 'c] crc_width assms(1) by simp
  have fits: "take_bit (8 * CrcBytes cfg) (le_word tail :: 'c word) = le_word tail"
    using fits_bytes_le_word [of tail, where 'w = 'c] assms(1) by (simp add: fits_bytes_take_bit)
  have "le_word tail \<noteq> packet_crc cfg crcpp (txn # code # body)"
    using assms(2) bytes by metis
  with openPacket_append [of txn code body "le_word tail"] bytes fits show ?thesis by simp
qed

text \<open>Every buffer that is long enough is a header, a body and some checksum bytes.\<close>

lemma split_buffer:
  assumes "2 + CrcBytes cfg \<le> length buf"
  obtains txn code body crc where
    "buf = txn # code # body @ le_bytes (CrcBytes cfg) (crc :: 'c word)"
    "fits_bytes (CrcBytes cfg) crc"
proof -
  let ?k = "length buf - CrcBytes cfg"
  let ?t = "drop ?k buf"
  have len: "length ?t = CrcBytes cfg" using assms by simp
  have bytes: "le_bytes (CrcBytes cfg) (le_word ?t :: 'c word) = ?t"
    using le_bytes_le_word [of ?t, where 'w = 'c] crc_width len by simp
  have fits: "fits_bytes (CrcBytes cfg) (le_word ?t :: 'c word)"
    using fits_bytes_le_word [of ?t, where 'w = 'c] len by simp
  have "2 \<le> length (take ?k buf)" using assms by simp
  then obtain txn code body where "take ?k buf = txn # code # body"
    by (metis Suc_le_length_iff numeral_2_eq_2)
  then have "buf = txn # code # body @ le_bytes (CrcBytes cfg) (le_word ?t :: 'c word)"
    using append_take_drop_id [of ?k buf] bytes by simp
  then show ?thesis using that fits by blast
qed

lemma openPacket_inv:
  assumes "openPacket cfg crcpp buf = Inr (txn, mt, body)"
  obtains code where "buf = packet cfg crcpp txn code body" "mt = message_type_of code"
proof -
  have "2 + CrcBytes cfg \<le> length buf"
    using assms by (simp add: openPacket_def split: if_splits)
  then obtain txn' code body' crc where
    buf: "buf = txn' # code # body' @ le_bytes (CrcBytes cfg) (crc :: 'c word)"
    and fits: "fits_bytes (CrcBytes cfg) crc" by (rule split_buffer)
  then have "crc = packet_crc cfg crcpp (txn' # code # body')"
    and "txn = txn'" "body = body'" "mt = message_type_of code"
    using assms by (auto simp: openPacket_append fits_bytes_take_bit split: if_splits)
  with buf that show ?thesis by (simp add: packet_def)
qed

lemma openPacket_error:
  assumes "openPacket cfg crcpp buf = Inl e"
  shows "e = MalformedPacketException \<and> length buf < 2 + CrcBytes cfg \<or>
    (\<exists>want got. e = CrcMismatchException want got) \<and> 2 + CrcBytes cfg \<le> length buf"
proof (cases "length buf < 2 + CrcBytes cfg")
  case True
  with assms show ?thesis by (simp add: openPacket_def)
next
  case False
  then have "2 + CrcBytes cfg \<le> length buf" by simp
  moreover from this obtain txn code body crc where
    "buf = txn # code # body @ le_bytes (CrcBytes cfg) (crc :: 'c word)" by (rule split_buffer)
  ultimately show ?thesis
    using assms by (auto simp: openPacket_append split: if_splits)
qed

end

text \<open>
  The shape of the routines that encode a list: a count over the limit is refused, and within it
  the size is computed and the body makes the packet.
\<close>

lemma limited_encode:
  assumes "get_max = Inr m" and "n \<le> unat m \<longleftrightarrow> within"
    and "within \<Longrightarrow> calcSize cfg sd x y z = Inr sz" and "within \<Longrightarrow> body sz = Inr pkt"
  shows "bindR get_max (\<lambda>max_count.
      if n > unat max_count then throwR e else bindR (calcSize cfg sd x y z) body) =
    (if within then Inr pkt else Inl e)"
  using assms by (auto simp: not_le [symmetric])

interpretation example_wire: wf_wire ExampleRapCfg bit_serial_crc
  by unfold_locales simp_all

end
