(* ===== verification/Serdes_Commands.thy ===== *)
theory Serdes_Commands
  imports Serdes_Packet
begin

text \<open>
  The command half of the class \<open>Serdes\<close>: one encode and one decode routine per command
  struct, \<open>encodeCommand\<close> and \<open>decodeCommand\<close>. They are verified against the wire format of
  commands (\<open>command_type\<close>, \<open>command_body\<close>), the values it can carry (\<open>command_fits\<close>) and the
  size limits (\<open>command_limit\<close>).
\<close>

section \<open>Encoding\<close>

definition encode_ReadSingleCommand ::
  "('a::len, 'd::len, 'l::len, 'c::len) cfg \<Rightarrow> 'c crc_function \<Rightarrow> serdes \<Rightarrow>
     byte \<Rightarrow> 'a word \<Rightarrow> Buffer result"
where
  "encode_ReadSingleCommand cfg crcpp sd transaction_id addr =
     bindR (calcSize cfg sd 1 0 0) (\<lambda>sz.
     let buf = mkBuffer sz transaction_id eCmdSingleRead;
         buf = appendAddress cfg buf addr
     in bindR (appendCrc cfg crcpp buf) (\<lambda>buf. assert_size sz buf))"

definition encode_WriteSingleCommand ::
  "('a::len, 'd::len, 'l::len, 'c::len) cfg \<Rightarrow> 'c crc_function \<Rightarrow> serdes \<Rightarrow>
     byte \<Rightarrow> bool \<Rightarrow> 'a word \<Rightarrow> 'd word \<Rightarrow> Buffer result"
where
  "encode_WriteSingleCommand cfg crcpp sd transaction_id posted addr data =
     bindR (calcSize cfg sd 1 1 0) (\<lambda>sz.
     let buf = mkBuffer sz transaction_id (if posted then eCmdSingleWritePosted else eCmdSingleWrite);
         buf = appendAddress cfg buf addr;
         buf = appendData cfg buf data
     in bindR (appendCrc cfg crcpp buf) (\<lambda>buf. assert_size sz buf))"

definition encode_ReadSeqCommand ::
  "('a::len, 'd::len, 'l::len, 'c::len) cfg \<Rightarrow> 'c crc_function \<Rightarrow> serdes \<Rightarrow>
     byte \<Rightarrow> 'a word \<Rightarrow> 'l word \<Rightarrow> 'l word \<Rightarrow> Buffer result"
where
  "encode_ReadSeqCommand cfg crcpp sd transaction_id start_addr increment cnt =
     bindR (getMaxSeqReadCount cfg sd) (\<lambda>max_count.
     if cnt > max_count
     then throwR (MessageSizeException
       ''ReadSeqCommand count exceeded transport-imposed limit'')
     else
     bindR (calcSize cfg sd 1 0 2) (\<lambda>sz.
     let buf = mkBuffer sz transaction_id eCmdSeqRead;
         buf = appendAddress cfg buf start_addr;
         buf = appendLength cfg buf increment;
         buf = appendLength cfg buf cnt
     in bindR (appendCrc cfg crcpp buf) (\<lambda>buf. assert_size sz buf)))"

definition encode_WriteSeqCommand ::
  "('a::len, 'd::len, 'l::len, 'c::len) cfg \<Rightarrow> 'c crc_function \<Rightarrow> serdes \<Rightarrow>
     byte \<Rightarrow> bool \<Rightarrow> 'a word \<Rightarrow> 'l word \<Rightarrow> 'd word list \<Rightarrow> Buffer result"
where
  "encode_WriteSeqCommand cfg crcpp sd transaction_id posted start_addr increment data =
     bindR (getMaxSeqWriteCount cfg sd) (\<lambda>max_count.
     if length data > unat max_count
     then throwR (MessageSizeException
       ''WriteSeqCommand count exceeded transport-imposed limit'')
     else
     bindR (calcSize cfg sd 1 (length data) 2) (\<lambda>sz.
     let buf = mkBuffer sz transaction_id (if posted then eCmdSeqWritePosted else eCmdSeqWrite);
         buf = appendAddress cfg buf start_addr;
         buf = appendLength cfg buf increment;
         buf = appendLength cfg buf (word_of_nat (length data));
         buf = foldl (appendData cfg) buf data
     in bindR (appendCrc cfg crcpp buf) (\<lambda>buf. assert_size sz buf)))"

definition encode_ReadCompCommand ::
  "('a::len, 'd::len, 'l::len, 'c::len) cfg \<Rightarrow> 'c crc_function \<Rightarrow> serdes \<Rightarrow>
     byte \<Rightarrow> 'a word list \<Rightarrow> Buffer result"
where
  "encode_ReadCompCommand cfg crcpp sd transaction_id addresses =
     bindR (getMaxCompReadCount cfg sd) (\<lambda>max_count.
     if length addresses > unat max_count
     then throwR (MessageSizeException
       ''ReadCompCommand count exceeded transport-imposed limit'')
     else
     bindR (calcSize cfg sd (length addresses) 0 1) (\<lambda>sz.
     let buf = mkBuffer sz transaction_id eCmdCompRead;
         buf = appendLength cfg buf (word_of_nat (length addresses));
         buf = foldl (appendAddress cfg) buf addresses
     in bindR (appendCrc cfg crcpp buf) (\<lambda>buf. assert_size sz buf)))"

definition encode_WriteCompCommand ::
  "('a::len, 'd::len, 'l::len, 'c::len) cfg \<Rightarrow> 'c crc_function \<Rightarrow> serdes \<Rightarrow>
     byte \<Rightarrow> bool \<Rightarrow> ('a word \<times> 'd word) list \<Rightarrow> Buffer result"
where
  "encode_WriteCompCommand cfg crcpp sd transaction_id posted addr_data =
     bindR (getMaxCompWriteCount cfg sd) (\<lambda>max_count.
     if length addr_data > unat max_count
     then throwR (MessageSizeException
       ''WriteCompCommand count exceeded transport-imposed limit'')
     else
     bindR (calcSize cfg sd (length addr_data) (length addr_data) 1) (\<lambda>sz.
     let buf = mkBuffer sz transaction_id (if posted then eCmdCompWritePosted else eCmdCompWrite);
         buf = appendLength cfg buf (word_of_nat (length addr_data));
         buf = foldl (appendAddressData cfg) buf addr_data
     in bindR (appendCrc cfg crcpp buf) (\<lambda>buf. assert_size sz buf)))"

definition encode_ReadModifyWriteCommand ::
  "('a::len, 'd::len, 'l::len, 'c::len) cfg \<Rightarrow> 'c crc_function \<Rightarrow> serdes \<Rightarrow>
     byte \<Rightarrow> bool \<Rightarrow> 'a word \<Rightarrow> 'd word \<Rightarrow> 'd word \<Rightarrow> Buffer result"
where
  "encode_ReadModifyWriteCommand cfg crcpp sd transaction_id posted addr data rmw_mask =
     bindR (calcSize cfg sd 1 2 0) (\<lambda>sz.
     let buf = mkBuffer sz transaction_id (if posted then eCmdSingleRmwPosted else eCmdSingleRmw);
         buf = appendAddress cfg buf addr;
         buf = appendData cfg buf data;
         buf = appendData cfg buf rmw_mask
     in bindR (appendCrc cfg crcpp buf) (\<lambda>buf. assert_size sz buf))"

fun encodeCommand ::
  "('a::len, 'd::len, 'l::len, 'c::len) cfg \<Rightarrow> 'c crc_function \<Rightarrow> serdes \<Rightarrow>
     ('a word, 'd word, 'l word) Command \<Rightarrow> Buffer result"
where
  "encodeCommand cfg crcpp sd (ReadSingleCommand t a) = encode_ReadSingleCommand cfg crcpp sd t a"
| "encodeCommand cfg crcpp sd (WriteSingleCommand t p a d) =
     encode_WriteSingleCommand cfg crcpp sd t p a d"
| "encodeCommand cfg crcpp sd (ReadSeqCommand t a i n) = encode_ReadSeqCommand cfg crcpp sd t a i n"
| "encodeCommand cfg crcpp sd (WriteSeqCommand t p a i ds) =
     encode_WriteSeqCommand cfg crcpp sd t p a i ds"
| "encodeCommand cfg crcpp sd (ReadCompCommand t as) = encode_ReadCompCommand cfg crcpp sd t as"
| "encodeCommand cfg crcpp sd (WriteCompCommand t p ads) =
     encode_WriteCompCommand cfg crcpp sd t p ads"
| "encodeCommand cfg crcpp sd (ReadModifyWriteCommand t p a d m) =
     encode_ReadModifyWriteCommand cfg crcpp sd t p a d m"

section \<open>Decoding\<close>

definition decode_ReadSingleCommand ::
  "('a::len, 'd::len, 'l::len, 'c::len) cfg \<Rightarrow> Buffer \<Rightarrow> byte \<Rightarrow> MessageType \<Rightarrow>
     ('a word, 'd word, 'l word) Command result"
where
  "decode_ReadSingleCommand cfg buf txn_id msg_type =
     bindR (extractAddress cfg buf) (\<lambda>(addr, buf).
     if length buf \<noteq> 0 then throwR MalformedPacketException
     else Inr (ReadSingleCommand txn_id addr))"

definition decode_WriteSingleCommand ::
  "('a::len, 'd::len, 'l::len, 'c::len) cfg \<Rightarrow> Buffer \<Rightarrow> byte \<Rightarrow> MessageType \<Rightarrow>
     ('a word, 'd word, 'l word) Command result"
where
  "decode_WriteSingleCommand cfg buf txn_id msg_type =
     bindR (extractAddress cfg buf) (\<lambda>(addr, buf).
     bindR (extractData cfg buf) (\<lambda>(data, buf).
     if length buf \<noteq> 0 then throwR MalformedPacketException
     else Inr (WriteSingleCommand txn_id (msg_type = eCmdSingleWritePosted) addr data)))"

definition decode_ReadSeqCommand ::
  "('a::len, 'd::len, 'l::len, 'c::len) cfg \<Rightarrow> Buffer \<Rightarrow> byte \<Rightarrow> MessageType \<Rightarrow>
     ('a word, 'd word, 'l word) Command result"
where
  "decode_ReadSeqCommand cfg buf txn_id msg_type =
     bindR (extractAddress cfg buf) (\<lambda>(start_addr, buf).
     bindR (extractLength cfg buf) (\<lambda>(increment, buf).
     bindR (extractLength cfg buf) (\<lambda>(cnt, buf).
     if length buf \<noteq> 0 then throwR MalformedPacketException
     else Inr (ReadSeqCommand txn_id start_addr increment cnt))))"

definition decode_WriteSeqCommand ::
  "('a::len, 'd::len, 'l::len, 'c::len) cfg \<Rightarrow> Buffer \<Rightarrow> byte \<Rightarrow> MessageType \<Rightarrow>
     ('a word, 'd word, 'l word) Command result"
where
  "decode_WriteSeqCommand cfg buf txn_id msg_type =
     bindR (extractAddress cfg buf) (\<lambda>(start_addr, buf).
     bindR (extractLength cfg buf) (\<lambda>(increment, buf).
     bindR (extractLength cfg buf) (\<lambda>(cnt, buf).
     if length buf \<noteq> unat cnt * DataBytes cfg then throwR (Exception ''Buffer size error'')
     else
     bindR (extractDataArray cfg buf (unat cnt)) (\<lambda>(data, buf).
     if length buf \<noteq> 0 then throwR MalformedPacketException
     else Inr (WriteSeqCommand txn_id (msg_type = eCmdSeqWritePosted) start_addr increment data)))))"

definition decode_ReadCompCommand ::
  "('a::len, 'd::len, 'l::len, 'c::len) cfg \<Rightarrow> Buffer \<Rightarrow> byte \<Rightarrow> MessageType \<Rightarrow>
     ('a word, 'd word, 'l word) Command result"
where
  "decode_ReadCompCommand cfg buf txn_id msg_type =
     bindR (extractLength cfg buf) (\<lambda>(cnt, buf).
     if length buf \<noteq> unat cnt * AddressBytes cfg then throwR (Exception ''Buffer size error'')
     else
     bindR (extractAddressArray cfg buf (unat cnt)) (\<lambda>(addrs, buf).
     if length buf \<noteq> 0 then throwR MalformedPacketException
     else Inr (ReadCompCommand txn_id addrs)))"

definition decode_WriteCompCommand ::
  "('a::len, 'd::len, 'l::len, 'c::len) cfg \<Rightarrow> Buffer \<Rightarrow> byte \<Rightarrow> MessageType \<Rightarrow>
     ('a word, 'd word, 'l word) Command result"
where
  "decode_WriteCompCommand cfg buf txn_id msg_type =
     bindR (extractLength cfg buf) (\<lambda>(cnt, buf).
     if length buf \<noteq> unat cnt * (AddressBytes cfg + DataBytes cfg) then throwR (Exception ''Buffer size error'')
     else
     bindR (extractAddressDataArray cfg buf (unat cnt)) (\<lambda>(addr_data, buf).
     if length buf \<noteq> 0 then throwR MalformedPacketException
     else Inr (WriteCompCommand txn_id (msg_type = eCmdCompWritePosted) addr_data)))"

definition decode_ReadModifyWriteCommand ::
  "('a::len, 'd::len, 'l::len, 'c::len) cfg \<Rightarrow> Buffer \<Rightarrow> byte \<Rightarrow> MessageType \<Rightarrow>
     ('a word, 'd word, 'l word) Command result"
where
  "decode_ReadModifyWriteCommand cfg buf txn_id msg_type =
     bindR (extractAddress cfg buf) (\<lambda>(addr, buf).
     bindR (extractData cfg buf) (\<lambda>(data, buf).
     bindR (extractData cfg buf) (\<lambda>(rmw_mask, buf).
     if length buf \<noteq> 0 then throwR MalformedPacketException
     else Inr (ReadModifyWriteCommand txn_id (msg_type = eCmdSingleRmwPosted) addr data rmw_mask))))"

text \<open>
  The \<open>switch\<close> of \<open>decodeCommand\<close>; a byte no enumerator names reaches its \<open>default\<close>, as every
  response type does.
\<close>

fun decode_command_switch ::
  "('a::len, 'd::len, 'l::len, 'c::len) cfg \<Rightarrow> MessageType option \<Rightarrow> Buffer \<Rightarrow> byte \<Rightarrow>
     ('a word, 'd word, 'l word) Command result"
where
  "decode_command_switch cfg (Some eCmdSingleRead) buff transaction_id =
     decode_ReadSingleCommand cfg buff transaction_id eCmdSingleRead"
| "decode_command_switch cfg (Some eCmdSingleWrite) buff transaction_id =
     decode_WriteSingleCommand cfg buff transaction_id eCmdSingleWrite"
| "decode_command_switch cfg (Some eCmdSingleWritePosted) buff transaction_id =
     decode_WriteSingleCommand cfg buff transaction_id eCmdSingleWritePosted"
| "decode_command_switch cfg (Some eCmdSeqRead) buff transaction_id =
     decode_ReadSeqCommand cfg buff transaction_id eCmdSeqRead"
| "decode_command_switch cfg (Some eCmdSeqWrite) buff transaction_id =
     decode_WriteSeqCommand cfg buff transaction_id eCmdSeqWrite"
| "decode_command_switch cfg (Some eCmdSeqWritePosted) buff transaction_id =
     decode_WriteSeqCommand cfg buff transaction_id eCmdSeqWritePosted"
| "decode_command_switch cfg (Some eCmdCompRead) buff transaction_id =
     decode_ReadCompCommand cfg buff transaction_id eCmdCompRead"
| "decode_command_switch cfg (Some eCmdCompWrite) buff transaction_id =
     decode_WriteCompCommand cfg buff transaction_id eCmdCompWrite"
| "decode_command_switch cfg (Some eCmdCompWritePosted) buff transaction_id =
     decode_WriteCompCommand cfg buff transaction_id eCmdCompWritePosted"
| "decode_command_switch cfg (Some eCmdSingleRmw) buff transaction_id =
     decode_ReadModifyWriteCommand cfg buff transaction_id eCmdSingleRmw"
| "decode_command_switch cfg (Some eCmdSingleRmwPosted) buff transaction_id =
     decode_ReadModifyWriteCommand cfg buff transaction_id eCmdSingleRmwPosted"
| "decode_command_switch cfg _ buff transaction_id = throwR UnexpectedMessageTypeException"

definition decodeCommand ::
  "('a::len, 'd::len, 'l::len, 'c::len) cfg \<Rightarrow> 'c crc_function \<Rightarrow> Buffer \<Rightarrow>
     ('a word, 'd word, 'l word) Command result"
where
  "decodeCommand cfg crcpp buff =
     bindR (openPacket cfg crcpp buff) (\<lambda>(transaction_id, msg_type, buff).
     decode_command_switch cfg msg_type buff transaction_id)"

section \<open>The wire format of commands\<close>

fun command_type :: "('a, 'd, 'l) Command \<Rightarrow> MessageType" where
  "command_type (ReadSingleCommand t a) = eCmdSingleRead"
| "command_type (WriteSingleCommand t p a d) =
     (if p then eCmdSingleWritePosted else eCmdSingleWrite)"
| "command_type (ReadSeqCommand t a i n) = eCmdSeqRead"
| "command_type (WriteSeqCommand t p a i ds) =
     (if p then eCmdSeqWritePosted else eCmdSeqWrite)"
| "command_type (ReadCompCommand t as) = eCmdCompRead"
| "command_type (WriteCompCommand t p ads) =
     (if p then eCmdCompWritePosted else eCmdCompWrite)"
| "command_type (ReadModifyWriteCommand t p a d m) =
     (if p then eCmdSingleRmwPosted else eCmdSingleRmw)"

fun command_body ::
  "('a::len, 'd::len, 'l::len, 'c::len) cfg \<Rightarrow> ('a word, 'd word, 'l word) Command \<Rightarrow> Buffer"
where
  "command_body cfg (ReadSingleCommand t a) = le_bytes (AddressBytes cfg) a"
| "command_body cfg (WriteSingleCommand t p a d) =
     le_bytes (AddressBytes cfg) a @ le_bytes (DataBytes cfg) d"
| "command_body cfg (ReadSeqCommand t a i n) =
     le_bytes (AddressBytes cfg) a @ le_bytes (LengthBytes cfg) i @ le_bytes (LengthBytes cfg) n"
| "command_body cfg (WriteSeqCommand t p a i ds) =
     le_bytes (AddressBytes cfg) a @ le_bytes (LengthBytes cfg) i
       @ le_bytes (LengthBytes cfg) (word_of_nat (length ds) :: 'l word)
       @ concat (map (le_bytes (DataBytes cfg)) ds)"
| "command_body cfg (ReadCompCommand t as) =
     le_bytes (LengthBytes cfg) (word_of_nat (length as) :: 'l word)
       @ concat (map (le_bytes (AddressBytes cfg)) as)"
| "command_body cfg (WriteCompCommand t p ads) =
     le_bytes (LengthBytes cfg) (word_of_nat (length ads) :: 'l word)
       @ concat (map (pair_bytes cfg) ads)"
| "command_body cfg (ReadModifyWriteCommand t p a d m) =
     le_bytes (AddressBytes cfg) a @ le_bytes (DataBytes cfg) d @ le_bytes (DataBytes cfg) m"

definition command_packet ::
  "('a::len, 'd::len, 'l::len, 'c::len) cfg \<Rightarrow> 'c crc_function \<Rightarrow>
     ('a word, 'd word, 'l word) Command \<Rightarrow> Buffer"
where
  "command_packet cfg crcpp cmd =
     packet cfg crcpp (cmd_transaction_id cmd) (msg_code (command_type cmd)) (command_body cfg cmd)"

text \<open>The commands whose fields the configured byte counts can carry.\<close>

fun command_fits ::
  "('a::len, 'd::len, 'l::len, 'c::len) cfg \<Rightarrow> ('a word, 'd word, 'l word) Command \<Rightarrow> bool"
where
  "command_fits cfg (ReadSingleCommand t a) = fits_bytes (AddressBytes cfg) a"
| "command_fits cfg (WriteSingleCommand t p a d) =
     (fits_bytes (AddressBytes cfg) a \<and> fits_bytes (DataBytes cfg) d)"
| "command_fits cfg (ReadSeqCommand t a i n) =
     (fits_bytes (AddressBytes cfg) a \<and> fits_bytes (LengthBytes cfg) i
       \<and> fits_bytes (LengthBytes cfg) n)"
| "command_fits cfg (WriteSeqCommand t p a i ds) =
     (fits_bytes (AddressBytes cfg) a \<and> fits_bytes (LengthBytes cfg) i
       \<and> length ds < 2 ^ (8 * LengthBytes cfg) \<and> list_all (fits_bytes (DataBytes cfg)) ds)"
| "command_fits cfg (ReadCompCommand t as) =
     (length as < 2 ^ (8 * LengthBytes cfg) \<and> list_all (fits_bytes (AddressBytes cfg)) as)"
| "command_fits cfg (WriteCompCommand t p ads) =
     (length ads < 2 ^ (8 * LengthBytes cfg) \<and> list_all (pair_fits cfg) ads)"
| "command_fits cfg (ReadModifyWriteCommand t p a d m) =
     (fits_bytes (AddressBytes cfg) a \<and> fits_bytes (DataBytes cfg) d
       \<and> fits_bytes (DataBytes cfg) m)"

text \<open>
  The commands whose message, and for reads whose acknowledge, stays within the transport's
  limit and the range of the length type.
\<close>

fun command_limit ::
  "('a::len, 'd::len, 'l::len, 'c::len) cfg \<Rightarrow> serdes \<Rightarrow>
     ('a word, 'd word, 'l word) Command \<Rightarrow> bool"
where
  "command_limit cfg sd (ReadSeqCommand t a i n) =
     (msg_size cfg 0 (unat n) 1 \<le> max_message_size sd)"
| "command_limit cfg sd (WriteSeqCommand t p a i ds) =
     (msg_size cfg 1 (length ds) 2 \<le> max_message_size sd \<and> length ds < 2 ^ LENGTH('l))"
| "command_limit cfg sd (ReadCompCommand t as) =
     (msg_size cfg (length as) 0 1 \<le> max_message_size sd \<and>
      msg_size cfg 0 (length as) 1 \<le> max_message_size sd \<and> length as < 2 ^ LENGTH('l))"
| "command_limit cfg sd (WriteCompCommand t p ads) =
     (msg_size cfg (length ads) (length ads) 1 \<le> max_message_size sd
       \<and> length ads < 2 ^ LENGTH('l))"
| "command_limit cfg sd _ = True"

text \<open>The text of the exception of a command over its limit.\<close>

fun command_limit_error :: "('a, 'd, 'l) Command \<Rightarrow> exn" where
  "command_limit_error (ReadSeqCommand t a i n) =
     MessageSizeException ''ReadSeqCommand count exceeded transport-imposed limit''"
| "command_limit_error (WriteSeqCommand t p a i ds) =
     MessageSizeException ''WriteSeqCommand count exceeded transport-imposed limit''"
| "command_limit_error (ReadCompCommand t as) =
     MessageSizeException ''ReadCompCommand count exceeded transport-imposed limit''"
| "command_limit_error (WriteCompCommand t p ads) =
     MessageSizeException ''WriteCompCommand count exceeded transport-imposed limit''"
| "command_limit_error _ = AssertionFailed"

section \<open>Encoding produces the wire format\<close>

context wf_wire
begin

lemmas encode_simps = calcSize_fixed msg_size_def assert_size_def appendCrc_eq Let_def

lemma encode_ReadSingleCommand_eq:
  "serdes_ok sd \<Longrightarrow>
     encodeCommand cfg crcpp sd (ReadSingleCommand t a)
       = Inr (command_packet cfg crcpp (ReadSingleCommand t a))"
  by (simp add: encode_ReadSingleCommand_def command_packet_def encode_simps)

lemma encode_WriteSingleCommand_eq:
  "serdes_ok sd \<Longrightarrow>
     encodeCommand cfg crcpp sd (WriteSingleCommand t p a d)
       = Inr (command_packet cfg crcpp (WriteSingleCommand t p a d))"
  by (simp add: encode_WriteSingleCommand_def command_packet_def encode_simps)

lemma encode_ReadModifyWriteCommand_eq:
  "serdes_ok sd \<Longrightarrow>
     encodeCommand cfg crcpp sd (ReadModifyWriteCommand t p a d m)
       = Inr (command_packet cfg crcpp (ReadModifyWriteCommand t p a d m))"
  by (simp add: encode_ReadModifyWriteCommand_def command_packet_def encode_simps)

lemma encode_ReadSeqCommand_eq:
  assumes "serdes_ok sd"
  shows "encodeCommand cfg crcpp sd (ReadSeqCommand t a i n) =
     (if command_limit cfg sd (ReadSeqCommand t a i n)
      then Inr (command_packet cfg crcpp (ReadSeqCommand t a i n))
      else Inl (command_limit_error
             (ReadSeqCommand t a i n :: ('a word, 'd word, 'l word) Command)))"
proof -
  obtain m where m: "getMaxSeqReadCount cfg sd = Inr m"
    "\<And>k. k \<le> unat m \<longleftrightarrow> msg_size cfg 0 k 1 \<le> max_message_size sd \<and> k < 2 ^ LENGTH('l)"
    using getMaxSeqReadCount_spec [OF assms] by metis
  have "unat n < 2 ^ LENGTH('l)" by (rule unsigned_less)
  then have "m < n \<longleftrightarrow> \<not> command_limit cfg sd (ReadSeqCommand t a i n)"
    using m(2) [of "unat n"] by (simp add: word_less_nat_alt) linarith
  with m(1) show ?thesis
    by (simp add: encode_ReadSeqCommand_def command_packet_def encode_simps assms)
qed

lemma encode_WriteSeqCommand_eq:
  assumes "serdes_ok sd"
  shows "encodeCommand cfg crcpp sd (WriteSeqCommand t p a i ds) =
     (if command_limit cfg sd (WriteSeqCommand t p a i ds)
      then Inr (command_packet cfg crcpp (WriteSeqCommand t p a i ds))
      else Inl (command_limit_error (WriteSeqCommand t p a i ds)))"
proof -
  obtain m where m: "getMaxSeqWriteCount cfg sd = Inr m"
    "length ds \<le> unat m \<longleftrightarrow>
       msg_size cfg 1 (length ds) 2 \<le> max_message_size sd \<and> length ds < 2 ^ LENGTH('l)"
    using getMaxSeqWriteCount_spec [OF assms] by metis
  show ?thesis
    unfolding encodeCommand.simps command_limit.simps command_limit_error.simps encode_WriteSeqCommand_def
    by (rule limited_encode [OF m, where sz = "msg_size cfg 1 (length ds) 2"])
      (use length_type_max in \<open>simp_all add: calcSize_eq command_packet_def assert_size_def appendCrc_eq
        msg_size_def Let_def distrib_left\<close>)
qed

lemma encode_ReadCompCommand_eq:
  assumes "serdes_ok sd"
  shows "encodeCommand cfg crcpp sd (ReadCompCommand t as) =
     (if command_limit cfg sd (ReadCompCommand t as)
      then Inr (command_packet cfg crcpp (ReadCompCommand t as))
      else Inl (command_limit_error (ReadCompCommand t as :: ('a word, 'd word, 'l word) Command)))"
proof -
  obtain m where m: "getMaxCompReadCount cfg sd = Inr m"
    "length as \<le> unat m \<longleftrightarrow> msg_size cfg (length as) 0 1 \<le> max_message_size sd \<and>
       msg_size cfg 0 (length as) 1 \<le> max_message_size sd \<and> length as < 2 ^ LENGTH('l)"
    using getMaxCompReadCount_spec [OF assms] by metis
  show ?thesis
    unfolding encodeCommand.simps command_limit.simps command_limit_error.simps encode_ReadCompCommand_def
    by (rule limited_encode [OF m, where sz = "msg_size cfg (length as) 0 1"])
      (use length_type_max in \<open>simp_all add: calcSize_eq command_packet_def assert_size_def appendCrc_eq
        msg_size_def Let_def distrib_left\<close>)
qed

lemma encode_WriteCompCommand_eq:
  assumes "serdes_ok sd"
  shows "encodeCommand cfg crcpp sd (WriteCompCommand t p ads) =
     (if command_limit cfg sd (WriteCompCommand t p ads)
      then Inr (command_packet cfg crcpp (WriteCompCommand t p ads))
      else Inl (command_limit_error
             (WriteCompCommand t p ads :: ('a word, 'd word, 'l word) Command)))"
proof -
  obtain m where m: "getMaxCompWriteCount cfg sd = Inr m"
    "length ads \<le> unat m \<longleftrightarrow>
       msg_size cfg (length ads) (length ads) 1 \<le> max_message_size sd \<and> length ads < 2 ^ LENGTH('l)"
    using getMaxCompWriteCount_spec [OF assms] by metis
  show ?thesis
    unfolding encodeCommand.simps command_limit.simps command_limit_error.simps encode_WriteCompCommand_def
    by (rule limited_encode [OF m, where sz = "msg_size cfg (length ads) (length ads) 1"])
      (use length_type_max in \<open>simp_all add: calcSize_eq command_packet_def assert_size_def appendCrc_eq
        msg_size_def Let_def distrib_left\<close>)
qed

lemma encodeCommand_eq:
  assumes "serdes_ok sd"
  shows "encodeCommand cfg crcpp sd cmd =
     (if command_limit cfg sd cmd then Inr (command_packet cfg crcpp cmd)
      else Inl (command_limit_error cmd))"
  by (cases cmd)
     (simp_all only: encode_ReadSingleCommand_eq encode_WriteSingleCommand_eq
       encode_ReadSeqCommand_eq encode_WriteSeqCommand_eq encode_ReadCompCommand_eq
       encode_WriteCompCommand_eq encode_ReadModifyWriteCommand_eq assms
       command_limit.simps if_True)

text \<open>The packet of a command within the limit is within the limit.\<close>

lemma length_command_packet:
  assumes "serdes_ok sd" and "command_limit cfg sd cmd"
  shows "length (command_packet cfg crcpp cmd) \<le> max_message_size sd"
  using assms fixed_size_bound [of 1 0 0] fixed_size_bound [of 1 1 0] fixed_size_bound [of 1 2 0]
    fixed_size_bound [of 1 0 2]
  by (cases cmd) (simp_all add: command_packet_def msg_size_def serdes_ok_def distrib_left)

end

section \<open>Decoding accepts the wire format and nothing else\<close>

text \<open>What a decode routine has read when it returns a command.\<close>

definition decoded_from ::
  "('a::len, 'd::len, 'l::len, 'c::len) cfg \<Rightarrow> Buffer \<Rightarrow> byte \<Rightarrow> MessageType \<Rightarrow>
     ('a word, 'd word, 'l word) Command \<Rightarrow> bool"
where
  "decoded_from cfg body txn mt cmd \<longleftrightarrow>
     command_fits cfg cmd \<and> body = command_body cfg cmd \<and>
     txn = cmd_transaction_id cmd \<and> mt = command_type cmd"

context wf_wire
begin

lemmas decode_defs = decode_ReadSingleCommand_def decode_WriteSingleCommand_def
  decode_ReadSeqCommand_def decode_WriteSeqCommand_def decode_ReadCompCommand_def
  decode_WriteCompCommand_def decode_ReadModifyWriteCommand_def
  extractAddressArray_def extractDataArray_def extractAddressDataArray_def

lemma decodeCommand_command_packet:
  assumes "command_fits cfg cmd"
  shows "decodeCommand cfg crcpp (command_packet cfg crcpp cmd) = Inr cmd"
  using assms
  by (cases cmd)
     (simp_all add: decodeCommand_def command_packet_def openPacket_packet decode_defs
       extract_put unat_word_of_length fits_word_of_length)

text \<open>The other direction, one decode routine at a time.\<close>

lemma decode_inv:
  "decode_ReadSingleCommand cfg body txn eCmdSingleRead = Inr cmd \<Longrightarrow>
     decoded_from cfg body txn eCmdSingleRead cmd"
  "decode_WriteSingleCommand cfg body txn mt = Inr cmd \<Longrightarrow>
     mt \<in> {eCmdSingleWrite, eCmdSingleWritePosted} \<Longrightarrow> decoded_from cfg body txn mt cmd"
  "decode_ReadSeqCommand cfg body txn eCmdSeqRead = Inr cmd \<Longrightarrow>
     decoded_from cfg body txn eCmdSeqRead cmd"
  "decode_WriteSeqCommand cfg body txn mt = Inr cmd \<Longrightarrow>
     mt \<in> {eCmdSeqWrite, eCmdSeqWritePosted} \<Longrightarrow> decoded_from cfg body txn mt cmd"
  "decode_ReadCompCommand cfg body txn eCmdCompRead = Inr cmd \<Longrightarrow>
     decoded_from cfg body txn eCmdCompRead cmd"
  "decode_WriteCompCommand cfg body txn mt = Inr cmd \<Longrightarrow>
     mt \<in> {eCmdCompWrite, eCmdCompWritePosted} \<Longrightarrow> decoded_from cfg body txn mt cmd"
  "decode_ReadModifyWriteCommand cfg body txn mt = Inr cmd \<Longrightarrow>
     mt \<in> {eCmdSingleRmw, eCmdSingleRmwPosted} \<Longrightarrow> decoded_from cfg body txn mt cmd"
  by (auto simp: decode_defs decoded_from_def bindR_eq_Inr_conv fits_bytes_def
      split: if_splits dest!: extract_inv)

lemma decode_command_switch_inv:
  "decode_command_switch cfg (Some mt) body txn = Inr cmd \<Longrightarrow> decoded_from cfg body txn mt cmd"
  by (cases mt) (simp_all add: decode_inv)

lemma decodeCommand_inv:
  assumes "decodeCommand cfg crcpp buf = Inr cmd"
  shows "command_fits cfg cmd \<and> buf = command_packet cfg crcpp cmd"
proof -
  from assms obtain txn mto body where opened: "openPacket cfg crcpp buf = Inr (txn, mto, body)"
    and switch: "decode_command_switch cfg mto body txn = Inr cmd"
    by (auto simp: decodeCommand_def bindR_eq_Inr_conv)
  from switch obtain mt where mt: "mto = Some mt" by (cases mto) simp_all
  from opened obtain code where "buf = packet cfg crcpp txn code body"
    and "mto = message_type_of code" by (rule openPacket_inv)
  with mt have "buf = packet cfg crcpp txn (msg_code mt) body"
    by (metis message_type_of_Some)
  with decode_command_switch_inv [of mt body txn cmd] switch mt show ?thesis
    by (simp add: decoded_from_def command_packet_def)
qed

lemma decodeCommand_iff:
  "decodeCommand cfg crcpp buf = Inr cmd \<longleftrightarrow>
     command_fits cfg cmd \<and> buf = command_packet cfg crcpp cmd"
  using decodeCommand_inv decodeCommand_command_packet by blast

text \<open>The errors a decode routine can end in.\<close>

lemma decode_error:
  "decode_ReadSingleCommand cfg body txn mt = Inl e \<Longrightarrow> e = MalformedPacketException"
  "decode_WriteSingleCommand cfg body txn mt = Inl e \<Longrightarrow> e = MalformedPacketException"
  "decode_ReadSeqCommand cfg body txn mt = Inl e \<Longrightarrow> e = MalformedPacketException"
  "decode_WriteSeqCommand cfg body txn mt = Inl e \<Longrightarrow>
     e = MalformedPacketException \<or> e = Exception ''Buffer size error''"
  "decode_ReadCompCommand cfg body txn mt = Inl e \<Longrightarrow>
     e = MalformedPacketException \<or> e = Exception ''Buffer size error''"
  "decode_WriteCompCommand cfg body txn mt = Inl e \<Longrightarrow>
     e = MalformedPacketException \<or> e = Exception ''Buffer size error''"
  "decode_ReadModifyWriteCommand cfg body txn mt = Inl e \<Longrightarrow> e = MalformedPacketException"
  by (auto simp: decode_defs bindR_eq_Inl_conv extract_error split: if_splits)

lemma decode_command_switch_error:
  "decode_command_switch cfg mto body txn = Inl e \<Longrightarrow>
     e = MalformedPacketException \<or> e = UnexpectedMessageTypeException \<or>
     e = Exception ''Buffer size error''"
  by (cases "(cfg, mto, body, txn)" rule: decode_command_switch.cases)
     (auto dest: decode_error)

lemma decodeCommand_error:
  assumes "decodeCommand cfg crcpp buf = Inl e"
  shows "e = MalformedPacketException \<or> e = UnexpectedMessageTypeException \<or>
    e = Exception ''Buffer size error'' \<or> (\<exists>want got. e = CrcMismatchException want got)"
proof (cases "openPacket cfg crcpp buf")
  case (Inl e')
  with assms openPacket_error [OF Inl] show ?thesis by (auto simp: decodeCommand_def)
next
  case (Inr opened)
  with assms show ?thesis
    by (auto simp: decodeCommand_def split: prod.splits dest: decode_command_switch_error)
qed

end

declare encodeCommand.simps [simp del]

end

