(* ===== verification/Serdes_Responses.thy ===== *)
theory Serdes_Responses
  imports Serdes_Packet
begin

text \<open>
  The response half of the class \<open>Serdes\<close>: one encode and one decode routine per response
  struct, \<open>encodeResponse\<close> and \<open>decodeResponse\<close>, verified against the wire format of
  responses in the same way as the commands.
\<close>

section \<open>Encoding\<close>

definition encode_ReadSingleAckResponse ::
  "('a::len, 'd::len, 'l::len, 'c::len) cfg \<Rightarrow> 'c crc_function \<Rightarrow> serdes \<Rightarrow> byte \<Rightarrow> 'd word \<Rightarrow>
     Buffer result"
where
  "encode_ReadSingleAckResponse cfg crcpp sd transaction_id data =
     bindR (calcSize cfg sd 0 1 0) (\<lambda>sz.
     let buf = mkBuffer sz transaction_id eAckSingleRead;
         buf = appendData cfg buf data
     in bindR (appendCrc cfg crcpp buf) (\<lambda>buf. assert_size sz buf))"

definition encode_WriteSingleAckResponse ::
  "('a::len, 'd::len, 'l::len, 'c::len) cfg \<Rightarrow> 'c crc_function \<Rightarrow> serdes \<Rightarrow> byte \<Rightarrow> Buffer result"
where
  "encode_WriteSingleAckResponse cfg crcpp sd transaction_id =
     bindR (calcSize cfg sd 0 0 0) (\<lambda>sz.
     let buf = mkBuffer sz transaction_id eAckSingleWrite
     in bindR (appendCrc cfg crcpp buf) (\<lambda>buf. assert_size sz buf))"

definition encode_ReadSeqAckResponse ::
  "('a::len, 'd::len, 'l::len, 'c::len) cfg \<Rightarrow> 'c crc_function \<Rightarrow> serdes \<Rightarrow> byte \<Rightarrow> 'd word list \<Rightarrow>
     Buffer result"
where
  "encode_ReadSeqAckResponse cfg crcpp sd transaction_id data =
     bindR (getMaxSeqReadCount cfg sd) (\<lambda>max_count.
     if length data > unat max_count
     then throwR (MessageSizeException
       ''ReadSeqAckResponse count exceeded transport-imposed limit'')
     else
     bindR (calcSize cfg sd 0 (length data) 1) (\<lambda>sz.
     let buf = mkBuffer sz transaction_id eAckSeqRead;
         buf = appendLength cfg buf (word_of_nat (length data));
         buf = foldl (appendData cfg) buf data
     in bindR (appendCrc cfg crcpp buf) (\<lambda>buf. assert_size sz buf)))"

definition encode_WriteSeqAckResponse ::
  "('a::len, 'd::len, 'l::len, 'c::len) cfg \<Rightarrow> 'c crc_function \<Rightarrow> serdes \<Rightarrow> byte \<Rightarrow> Buffer result"
where
  "encode_WriteSeqAckResponse cfg crcpp sd transaction_id =
     bindR (calcSize cfg sd 0 0 0) (\<lambda>sz.
     let buf = mkBuffer sz transaction_id eAckSeqWrite
     in bindR (appendCrc cfg crcpp buf) (\<lambda>buf. assert_size sz buf))"

definition encode_ReadCompAckResponse ::
  "('a::len, 'd::len, 'l::len, 'c::len) cfg \<Rightarrow> 'c crc_function \<Rightarrow> serdes \<Rightarrow> byte \<Rightarrow> 'd word list \<Rightarrow>
     Buffer result"
where
  "encode_ReadCompAckResponse cfg crcpp sd transaction_id data =
     bindR (getMaxCompReadCount cfg sd) (\<lambda>max_count.
     if length data > unat max_count
     then throwR (MessageSizeException
       ''ReadCompAckResponse count exceeded transport-imposed limit'')
     else
     bindR (calcSize cfg sd 0 (length data) 1) (\<lambda>sz.
     let buf = mkBuffer sz transaction_id eAckCompRead;
         buf = appendLength cfg buf (word_of_nat (length data));
         buf = foldl (appendData cfg) buf data
     in bindR (appendCrc cfg crcpp buf) (\<lambda>buf. assert_size sz buf)))"

definition encode_WriteCompAckResponse ::
  "('a::len, 'd::len, 'l::len, 'c::len) cfg \<Rightarrow> 'c crc_function \<Rightarrow> serdes \<Rightarrow> byte \<Rightarrow> Buffer result"
where
  "encode_WriteCompAckResponse cfg crcpp sd transaction_id =
     bindR (calcSize cfg sd 0 0 0) (\<lambda>sz.
     let buf = mkBuffer sz transaction_id eAckCompWrite
     in bindR (appendCrc cfg crcpp buf) (\<lambda>buf. assert_size sz buf))"

definition encode_ReadSingleNakResponse ::
  "('a::len, 'd::len, 'l::len, 'c::len) cfg \<Rightarrow> 'c crc_function \<Rightarrow> serdes \<Rightarrow> byte \<Rightarrow> 'd word \<Rightarrow>
     Buffer result"
where
  "encode_ReadSingleNakResponse cfg crcpp sd transaction_id status =
     bindR (calcSize cfg sd 0 1 0) (\<lambda>sz.
     let buf = mkBuffer sz transaction_id eNakSingleRead;
         buf = appendData cfg buf status
     in bindR (appendCrc cfg crcpp buf) (\<lambda>buf. assert_size sz buf))"

definition encode_WriteSingleNakResponse ::
  "('a::len, 'd::len, 'l::len, 'c::len) cfg \<Rightarrow> 'c crc_function \<Rightarrow> serdes \<Rightarrow> byte \<Rightarrow> 'd word \<Rightarrow>
     Buffer result"
where
  "encode_WriteSingleNakResponse cfg crcpp sd transaction_id status =
     bindR (calcSize cfg sd 0 1 0) (\<lambda>sz.
     let buf = mkBuffer sz transaction_id eNakSingleWrite;
         buf = appendData cfg buf status
     in bindR (appendCrc cfg crcpp buf) (\<lambda>buf. assert_size sz buf))"

definition encode_ReadSeqNakResponse ::
  "('a::len, 'd::len, 'l::len, 'c::len) cfg \<Rightarrow> 'c crc_function \<Rightarrow> serdes \<Rightarrow> byte \<Rightarrow> 'd word \<Rightarrow>
     Buffer result"
where
  "encode_ReadSeqNakResponse cfg crcpp sd transaction_id status =
     bindR (calcSize cfg sd 0 1 0) (\<lambda>sz.
     let buf = mkBuffer sz transaction_id eNakSeqRead;
         buf = appendData cfg buf status
     in bindR (appendCrc cfg crcpp buf) (\<lambda>buf. assert_size sz buf))"

definition encode_WriteSeqNakResponse ::
  "('a::len, 'd::len, 'l::len, 'c::len) cfg \<Rightarrow> 'c crc_function \<Rightarrow> serdes \<Rightarrow> byte \<Rightarrow> 'd word \<Rightarrow>
     Buffer result"
where
  "encode_WriteSeqNakResponse cfg crcpp sd transaction_id status =
     bindR (calcSize cfg sd 0 1 0) (\<lambda>sz.
     let buf = mkBuffer sz transaction_id eNakSeqWrite;
         buf = appendData cfg buf status
     in bindR (appendCrc cfg crcpp buf) (\<lambda>buf. assert_size sz buf))"

definition encode_ReadCompNakResponse ::
  "('a::len, 'd::len, 'l::len, 'c::len) cfg \<Rightarrow> 'c crc_function \<Rightarrow> serdes \<Rightarrow> byte \<Rightarrow> 'd word \<Rightarrow>
     Buffer result"
where
  "encode_ReadCompNakResponse cfg crcpp sd transaction_id status =
     bindR (calcSize cfg sd 0 1 0) (\<lambda>sz.
     let buf = mkBuffer sz transaction_id eNakCompRead;
         buf = appendData cfg buf status
     in bindR (appendCrc cfg crcpp buf) (\<lambda>buf. assert_size sz buf))"

definition encode_WriteCompNakResponse ::
  "('a::len, 'd::len, 'l::len, 'c::len) cfg \<Rightarrow> 'c crc_function \<Rightarrow> serdes \<Rightarrow> byte \<Rightarrow> 'd word \<Rightarrow>
     Buffer result"
where
  "encode_WriteCompNakResponse cfg crcpp sd transaction_id status =
     bindR (calcSize cfg sd 0 1 0) (\<lambda>sz.
     let buf = mkBuffer sz transaction_id eNakCompWrite;
         buf = appendData cfg buf status
     in bindR (appendCrc cfg crcpp buf) (\<lambda>buf. assert_size sz buf))"

definition encode_ReadmodifywriteSingleAckResponse ::
  "('a::len, 'd::len, 'l::len, 'c::len) cfg \<Rightarrow> 'c crc_function \<Rightarrow> serdes \<Rightarrow> byte \<Rightarrow> Buffer result"
where
  "encode_ReadmodifywriteSingleAckResponse cfg crcpp sd transaction_id =
     bindR (calcSize cfg sd 0 0 0) (\<lambda>sz.
     let buf = mkBuffer sz transaction_id eAckSingleRmw
     in bindR (appendCrc cfg crcpp buf) (\<lambda>buf. assert_size sz buf))"

definition encode_ReadmodifywriteSingleNakResponse ::
  "('a::len, 'd::len, 'l::len, 'c::len) cfg \<Rightarrow> 'c crc_function \<Rightarrow> serdes \<Rightarrow> byte \<Rightarrow> 'd word \<Rightarrow>
     Buffer result"
where
  "encode_ReadmodifywriteSingleNakResponse cfg crcpp sd transaction_id status =
     bindR (calcSize cfg sd 0 1 0) (\<lambda>sz.
     let buf = mkBuffer sz transaction_id eNakSingleRmw;
         buf = appendData cfg buf status
     in bindR (appendCrc cfg crcpp buf) (\<lambda>buf. assert_size sz buf))"

definition encode_Interrupt ::
  "('a::len, 'd::len, 'l::len, 'c::len) cfg \<Rightarrow> 'c crc_function \<Rightarrow> serdes \<Rightarrow> byte \<Rightarrow> 'd word \<Rightarrow>
     Buffer result"
where
  "encode_Interrupt cfg crcpp sd transaction_id status =
     bindR (calcSize cfg sd 0 1 0) (\<lambda>sz.
     let buf = mkBuffer sz transaction_id eAckSingleInterrupt;
         buf = appendData cfg buf status
     in bindR (appendCrc cfg crcpp buf) (\<lambda>buf. assert_size sz buf))"

fun encodeResponse ::
  "('a::len, 'd::len, 'l::len, 'c::len) cfg \<Rightarrow> 'c crc_function \<Rightarrow> serdes \<Rightarrow> 'd word Response \<Rightarrow>
     Buffer result"
where
  "encodeResponse cfg crcpp sd (ReadSingleAckResponse t d) =
     encode_ReadSingleAckResponse cfg crcpp sd t d"
| "encodeResponse cfg crcpp sd (WriteSingleAckResponse t) =
     encode_WriteSingleAckResponse cfg crcpp sd t"
| "encodeResponse cfg crcpp sd (ReadSeqAckResponse t ds) =
     encode_ReadSeqAckResponse cfg crcpp sd t ds"
| "encodeResponse cfg crcpp sd (WriteSeqAckResponse t) =
     encode_WriteSeqAckResponse cfg crcpp sd t"
| "encodeResponse cfg crcpp sd (ReadCompAckResponse t ds) =
     encode_ReadCompAckResponse cfg crcpp sd t ds"
| "encodeResponse cfg crcpp sd (WriteCompAckResponse t) =
     encode_WriteCompAckResponse cfg crcpp sd t"
| "encodeResponse cfg crcpp sd (ReadSingleNakResponse t s) =
     encode_ReadSingleNakResponse cfg crcpp sd t s"
| "encodeResponse cfg crcpp sd (WriteSingleNakResponse t s) =
     encode_WriteSingleNakResponse cfg crcpp sd t s"
| "encodeResponse cfg crcpp sd (ReadSeqNakResponse t s) =
     encode_ReadSeqNakResponse cfg crcpp sd t s"
| "encodeResponse cfg crcpp sd (WriteSeqNakResponse t s) =
     encode_WriteSeqNakResponse cfg crcpp sd t s"
| "encodeResponse cfg crcpp sd (ReadCompNakResponse t s) =
     encode_ReadCompNakResponse cfg crcpp sd t s"
| "encodeResponse cfg crcpp sd (WriteCompNakResponse t s) =
     encode_WriteCompNakResponse cfg crcpp sd t s"
| "encodeResponse cfg crcpp sd (ReadmodifywriteSingleAckResponse t) =
     encode_ReadmodifywriteSingleAckResponse cfg crcpp sd t"
| "encodeResponse cfg crcpp sd (ReadmodifywriteSingleNakResponse t s) =
     encode_ReadmodifywriteSingleNakResponse cfg crcpp sd t s"
| "encodeResponse cfg crcpp sd (Interrupt t s) =
     encode_Interrupt cfg crcpp sd t s"

section \<open>Decoding\<close>

definition decode_ReadSingleAckResponse ::
  "('a::len, 'd::len, 'l::len, 'c::len) cfg \<Rightarrow> Buffer \<Rightarrow> byte \<Rightarrow> MessageType \<Rightarrow>
     'd word Response result"
where
  "decode_ReadSingleAckResponse cfg buf txn_id msg_type =
     bindR (extractData cfg buf) (\<lambda>(data, buf).
     if length buf \<noteq> 0 then throwR MalformedPacketException
     else Inr (ReadSingleAckResponse txn_id data))"

definition decode_WriteSingleAckResponse ::
  "('a::len, 'd::len, 'l::len, 'c::len) cfg \<Rightarrow> Buffer \<Rightarrow> byte \<Rightarrow> MessageType \<Rightarrow>
     'd word Response result"
where
  "decode_WriteSingleAckResponse cfg buf txn_id msg_type =
     (if length buf \<noteq> 0 then throwR MalformedPacketException
      else Inr (WriteSingleAckResponse txn_id))"

definition decode_ReadSeqAckResponse ::
  "('a::len, 'd::len, 'l::len, 'c::len) cfg \<Rightarrow> Buffer \<Rightarrow> byte \<Rightarrow> MessageType \<Rightarrow>
     'd word Response result"
where
  "decode_ReadSeqAckResponse cfg buf txn_id msg_type =
     bindR (extractLength cfg buf) (\<lambda>(cnt, buf).
     bindR (extractDataArray cfg buf (unat cnt)) (\<lambda>(data, buf).
     if length buf \<noteq> 0 then throwR MalformedPacketException
     else Inr (ReadSeqAckResponse txn_id data)))"

definition decode_WriteSeqAckResponse ::
  "('a::len, 'd::len, 'l::len, 'c::len) cfg \<Rightarrow> Buffer \<Rightarrow> byte \<Rightarrow> MessageType \<Rightarrow>
     'd word Response result"
where
  "decode_WriteSeqAckResponse cfg buf txn_id msg_type =
     (if length buf \<noteq> 0 then throwR MalformedPacketException
      else Inr (WriteSeqAckResponse txn_id))"

definition decode_ReadCompAckResponse ::
  "('a::len, 'd::len, 'l::len, 'c::len) cfg \<Rightarrow> Buffer \<Rightarrow> byte \<Rightarrow> MessageType \<Rightarrow>
     'd word Response result"
where
  "decode_ReadCompAckResponse cfg buf txn_id msg_type =
     bindR (extractLength cfg buf) (\<lambda>(cnt, buf).
     bindR (extractDataArray cfg buf (unat cnt)) (\<lambda>(data, buf).
     if length buf \<noteq> 0 then throwR MalformedPacketException
     else Inr (ReadCompAckResponse txn_id data)))"

definition decode_WriteCompAckResponse ::
  "('a::len, 'd::len, 'l::len, 'c::len) cfg \<Rightarrow> Buffer \<Rightarrow> byte \<Rightarrow> MessageType \<Rightarrow>
     'd word Response result"
where
  "decode_WriteCompAckResponse cfg buf txn_id msg_type =
     (if length buf \<noteq> 0 then throwR MalformedPacketException
      else Inr (WriteCompAckResponse txn_id))"

definition decode_ReadSingleNakResponse ::
  "('a::len, 'd::len, 'l::len, 'c::len) cfg \<Rightarrow> Buffer \<Rightarrow> byte \<Rightarrow> MessageType \<Rightarrow>
     'd word Response result"
where
  "decode_ReadSingleNakResponse cfg buf txn_id msg_type =
     bindR (extractData cfg buf) (\<lambda>(status, buf).
     if length buf \<noteq> 0 then throwR MalformedPacketException
     else Inr (ReadSingleNakResponse txn_id status))"

definition decode_WriteSingleNakResponse ::
  "('a::len, 'd::len, 'l::len, 'c::len) cfg \<Rightarrow> Buffer \<Rightarrow> byte \<Rightarrow> MessageType \<Rightarrow>
     'd word Response result"
where
  "decode_WriteSingleNakResponse cfg buf txn_id msg_type =
     bindR (extractData cfg buf) (\<lambda>(status, buf).
     if length buf \<noteq> 0 then throwR MalformedPacketException
     else Inr (WriteSingleNakResponse txn_id status))"

definition decode_ReadSeqNakResponse ::
  "('a::len, 'd::len, 'l::len, 'c::len) cfg \<Rightarrow> Buffer \<Rightarrow> byte \<Rightarrow> MessageType \<Rightarrow>
     'd word Response result"
where
  "decode_ReadSeqNakResponse cfg buf txn_id msg_type =
     bindR (extractData cfg buf) (\<lambda>(status, buf).
     if length buf \<noteq> 0 then throwR MalformedPacketException
     else Inr (ReadSeqNakResponse txn_id status))"

definition decode_WriteSeqNakResponse ::
  "('a::len, 'd::len, 'l::len, 'c::len) cfg \<Rightarrow> Buffer \<Rightarrow> byte \<Rightarrow> MessageType \<Rightarrow>
     'd word Response result"
where
  "decode_WriteSeqNakResponse cfg buf txn_id msg_type =
     bindR (extractData cfg buf) (\<lambda>(status, buf).
     if length buf \<noteq> 0 then throwR MalformedPacketException
     else Inr (WriteSeqNakResponse txn_id status))"

definition decode_ReadCompNakResponse ::
  "('a::len, 'd::len, 'l::len, 'c::len) cfg \<Rightarrow> Buffer \<Rightarrow> byte \<Rightarrow> MessageType \<Rightarrow>
     'd word Response result"
where
  "decode_ReadCompNakResponse cfg buf txn_id msg_type =
     bindR (extractData cfg buf) (\<lambda>(status, buf).
     if length buf \<noteq> 0 then throwR MalformedPacketException
     else Inr (ReadCompNakResponse txn_id status))"

definition decode_WriteCompNakResponse ::
  "('a::len, 'd::len, 'l::len, 'c::len) cfg \<Rightarrow> Buffer \<Rightarrow> byte \<Rightarrow> MessageType \<Rightarrow>
     'd word Response result"
where
  "decode_WriteCompNakResponse cfg buf txn_id msg_type =
     bindR (extractData cfg buf) (\<lambda>(status, buf).
     if length buf \<noteq> 0 then throwR MalformedPacketException
     else Inr (WriteCompNakResponse txn_id status))"

definition decode_ReadmodifywriteSingleAckResponse ::
  "('a::len, 'd::len, 'l::len, 'c::len) cfg \<Rightarrow> Buffer \<Rightarrow> byte \<Rightarrow> MessageType \<Rightarrow>
     'd word Response result"
where
  "decode_ReadmodifywriteSingleAckResponse cfg buf txn_id msg_type =
     (if length buf \<noteq> 0 then throwR MalformedPacketException
      else Inr (ReadmodifywriteSingleAckResponse txn_id))"

definition decode_ReadmodifywriteSingleNakResponse ::
  "('a::len, 'd::len, 'l::len, 'c::len) cfg \<Rightarrow> Buffer \<Rightarrow> byte \<Rightarrow> MessageType \<Rightarrow>
     'd word Response result"
where
  "decode_ReadmodifywriteSingleNakResponse cfg buf txn_id msg_type =
     bindR (extractData cfg buf) (\<lambda>(status, buf).
     if length buf \<noteq> 0 then throwR MalformedPacketException
     else Inr (ReadmodifywriteSingleNakResponse txn_id status))"

definition decode_Interrupt ::
  "('a::len, 'd::len, 'l::len, 'c::len) cfg \<Rightarrow> Buffer \<Rightarrow> byte \<Rightarrow> MessageType \<Rightarrow>
     'd word Response result"
where
  "decode_Interrupt cfg buf txn_id msg_type =
     bindR (extractData cfg buf) (\<lambda>(status, buf).
     if length buf \<noteq> 0 then throwR MalformedPacketException
     else Inr (Interrupt txn_id status))"

text \<open>The \<open>switch\<close> of \<open>decodeResponse\<close>.\<close>

fun decode_response_switch ::
  "('a::len, 'd::len, 'l::len, 'c::len) cfg \<Rightarrow> MessageType option \<Rightarrow> Buffer \<Rightarrow> byte \<Rightarrow>
     'd word Response result"
where
  "decode_response_switch cfg (Some eAckSingleRead) buff transaction_id =
     decode_ReadSingleAckResponse cfg buff transaction_id eAckSingleRead"
| "decode_response_switch cfg (Some eAckSingleWrite) buff transaction_id =
     decode_WriteSingleAckResponse cfg buff transaction_id eAckSingleWrite"
| "decode_response_switch cfg (Some eAckSeqRead) buff transaction_id =
     decode_ReadSeqAckResponse cfg buff transaction_id eAckSeqRead"
| "decode_response_switch cfg (Some eAckSeqWrite) buff transaction_id =
     decode_WriteSeqAckResponse cfg buff transaction_id eAckSeqWrite"
| "decode_response_switch cfg (Some eAckCompRead) buff transaction_id =
     decode_ReadCompAckResponse cfg buff transaction_id eAckCompRead"
| "decode_response_switch cfg (Some eAckCompWrite) buff transaction_id =
     decode_WriteCompAckResponse cfg buff transaction_id eAckCompWrite"
| "decode_response_switch cfg (Some eNakSingleRead) buff transaction_id =
     decode_ReadSingleNakResponse cfg buff transaction_id eNakSingleRead"
| "decode_response_switch cfg (Some eNakSingleWrite) buff transaction_id =
     decode_WriteSingleNakResponse cfg buff transaction_id eNakSingleWrite"
| "decode_response_switch cfg (Some eNakSeqRead) buff transaction_id =
     decode_ReadSeqNakResponse cfg buff transaction_id eNakSeqRead"
| "decode_response_switch cfg (Some eNakSeqWrite) buff transaction_id =
     decode_WriteSeqNakResponse cfg buff transaction_id eNakSeqWrite"
| "decode_response_switch cfg (Some eNakCompRead) buff transaction_id =
     decode_ReadCompNakResponse cfg buff transaction_id eNakCompRead"
| "decode_response_switch cfg (Some eNakCompWrite) buff transaction_id =
     decode_WriteCompNakResponse cfg buff transaction_id eNakCompWrite"
| "decode_response_switch cfg (Some eAckSingleRmw) buff transaction_id =
     decode_ReadmodifywriteSingleAckResponse cfg buff transaction_id eAckSingleRmw"
| "decode_response_switch cfg (Some eNakSingleRmw) buff transaction_id =
     decode_ReadmodifywriteSingleNakResponse cfg buff transaction_id eNakSingleRmw"
| "decode_response_switch cfg (Some eAckSingleInterrupt) buff transaction_id =
     decode_Interrupt cfg buff transaction_id eAckSingleInterrupt"
| "decode_response_switch cfg _ buff transaction_id = throwR UnexpectedMessageTypeException"

definition decodeResponse ::
  "('a::len, 'd::len, 'l::len, 'c::len) cfg \<Rightarrow> 'c crc_function \<Rightarrow> Buffer \<Rightarrow>
     'd word Response result"
where
  "decodeResponse cfg crcpp buff =
     bindR (openPacket cfg crcpp buff) (\<lambda>(transaction_id, msg_type, buff).
     decode_response_switch cfg msg_type buff transaction_id)"

section \<open>The wire format of responses\<close>

fun response_type :: "'d Response \<Rightarrow> MessageType" where
  "response_type (ReadSingleAckResponse t d) = eAckSingleRead"
| "response_type (WriteSingleAckResponse t) = eAckSingleWrite"
| "response_type (ReadSeqAckResponse t ds) = eAckSeqRead"
| "response_type (WriteSeqAckResponse t) = eAckSeqWrite"
| "response_type (ReadCompAckResponse t ds) = eAckCompRead"
| "response_type (WriteCompAckResponse t) = eAckCompWrite"
| "response_type (ReadSingleNakResponse t d) = eNakSingleRead"
| "response_type (WriteSingleNakResponse t d) = eNakSingleWrite"
| "response_type (ReadSeqNakResponse t d) = eNakSeqRead"
| "response_type (WriteSeqNakResponse t d) = eNakSeqWrite"
| "response_type (ReadCompNakResponse t d) = eNakCompRead"
| "response_type (WriteCompNakResponse t d) = eNakCompWrite"
| "response_type (ReadmodifywriteSingleAckResponse t) = eAckSingleRmw"
| "response_type (ReadmodifywriteSingleNakResponse t d) = eNakSingleRmw"
| "response_type (Interrupt t d) = eAckSingleInterrupt"

fun response_body :: "('a::len, 'd::len, 'l::len, 'c::len) cfg \<Rightarrow> 'd word Response \<Rightarrow> Buffer" where
  "response_body cfg (ReadSeqAckResponse t ds) =
     le_bytes (LengthBytes cfg) (word_of_nat (length ds) :: 'l word)
       @ concat (map (le_bytes (DataBytes cfg)) ds)"
| "response_body cfg (ReadCompAckResponse t ds) =
     le_bytes (LengthBytes cfg) (word_of_nat (length ds) :: 'l word)
       @ concat (map (le_bytes (DataBytes cfg)) ds)"
| "response_body cfg (ReadSingleAckResponse t d) = le_bytes (DataBytes cfg) d"
| "response_body cfg (WriteSingleAckResponse t) = []"
| "response_body cfg (WriteSeqAckResponse t) = []"
| "response_body cfg (WriteCompAckResponse t) = []"
| "response_body cfg (ReadSingleNakResponse t d) = le_bytes (DataBytes cfg) d"
| "response_body cfg (WriteSingleNakResponse t d) = le_bytes (DataBytes cfg) d"
| "response_body cfg (ReadSeqNakResponse t d) = le_bytes (DataBytes cfg) d"
| "response_body cfg (WriteSeqNakResponse t d) = le_bytes (DataBytes cfg) d"
| "response_body cfg (ReadCompNakResponse t d) = le_bytes (DataBytes cfg) d"
| "response_body cfg (WriteCompNakResponse t d) = le_bytes (DataBytes cfg) d"
| "response_body cfg (ReadmodifywriteSingleAckResponse t) = []"
| "response_body cfg (ReadmodifywriteSingleNakResponse t d) = le_bytes (DataBytes cfg) d"
| "response_body cfg (Interrupt t d) = le_bytes (DataBytes cfg) d"

definition response_packet ::
  "('a::len, 'd::len, 'l::len, 'c::len) cfg \<Rightarrow> 'c crc_function \<Rightarrow> 'd word Response \<Rightarrow> Buffer"
where
  "response_packet cfg crcpp resp =
     packet cfg crcpp (resp_transaction_id resp) (msg_code (response_type resp))
       (response_body cfg resp)"

fun response_fits :: "('a::len, 'd::len, 'l::len, 'c::len) cfg \<Rightarrow> 'd word Response \<Rightarrow> bool" where
  "response_fits cfg (ReadSeqAckResponse t ds) =
     (length ds < 2 ^ (8 * LengthBytes cfg) \<and> list_all (fits_bytes (DataBytes cfg)) ds)"
| "response_fits cfg (ReadCompAckResponse t ds) =
     (length ds < 2 ^ (8 * LengthBytes cfg) \<and> list_all (fits_bytes (DataBytes cfg)) ds)"
| "response_fits cfg (ReadSingleAckResponse t d) = fits_bytes (DataBytes cfg) d"
| "response_fits cfg (WriteSingleAckResponse t) = True"
| "response_fits cfg (WriteSeqAckResponse t) = True"
| "response_fits cfg (WriteCompAckResponse t) = True"
| "response_fits cfg (ReadSingleNakResponse t d) = fits_bytes (DataBytes cfg) d"
| "response_fits cfg (WriteSingleNakResponse t d) = fits_bytes (DataBytes cfg) d"
| "response_fits cfg (ReadSeqNakResponse t d) = fits_bytes (DataBytes cfg) d"
| "response_fits cfg (WriteSeqNakResponse t d) = fits_bytes (DataBytes cfg) d"
| "response_fits cfg (ReadCompNakResponse t d) = fits_bytes (DataBytes cfg) d"
| "response_fits cfg (WriteCompNakResponse t d) = fits_bytes (DataBytes cfg) d"
| "response_fits cfg (ReadmodifywriteSingleAckResponse t) = True"
| "response_fits cfg (ReadmodifywriteSingleNakResponse t d) = fits_bytes (DataBytes cfg) d"
| "response_fits cfg (Interrupt t d) = fits_bytes (DataBytes cfg) d"

fun response_limit :: "('a::len, 'd::len, 'l::len, 'c::len) cfg \<Rightarrow> serdes \<Rightarrow> 'd word Response \<Rightarrow> bool"
where
  "response_limit cfg sd (ReadSeqAckResponse t ds) =
     (msg_size cfg 0 (length ds) 1 \<le> max_message_size sd \<and> length ds < 2 ^ LENGTH('l))"
| "response_limit cfg sd (ReadCompAckResponse t ds) =
     (msg_size cfg (length ds) 0 1 \<le> max_message_size sd \<and>
      msg_size cfg 0 (length ds) 1 \<le> max_message_size sd \<and> length ds < 2 ^ LENGTH('l))"
| "response_limit cfg sd _ = True"

fun response_limit_error :: "'d Response \<Rightarrow> exn" where
  "response_limit_error (ReadSeqAckResponse t ds) =
     MessageSizeException ''ReadSeqAckResponse count exceeded transport-imposed limit''"
| "response_limit_error (ReadCompAckResponse t ds) =
     MessageSizeException ''ReadCompAckResponse count exceeded transport-imposed limit''"
| "response_limit_error _ = AssertionFailed"

section \<open>Encoding produces the wire format\<close>

lemmas encode_response_defs =
  encode_ReadSingleAckResponse_def encode_WriteSingleAckResponse_def
  encode_ReadSeqAckResponse_def encode_WriteSeqAckResponse_def
  encode_ReadCompAckResponse_def encode_WriteCompAckResponse_def
  encode_ReadSingleNakResponse_def encode_WriteSingleNakResponse_def
  encode_ReadSeqNakResponse_def encode_WriteSeqNakResponse_def
  encode_ReadCompNakResponse_def encode_WriteCompNakResponse_def
  encode_ReadmodifywriteSingleAckResponse_def
  encode_ReadmodifywriteSingleNakResponse_def encode_Interrupt_def

lemmas decode_response_defs =
  decode_ReadSingleAckResponse_def decode_WriteSingleAckResponse_def
  decode_ReadSeqAckResponse_def decode_WriteSeqAckResponse_def
  decode_ReadCompAckResponse_def decode_WriteCompAckResponse_def
  decode_ReadSingleNakResponse_def decode_WriteSingleNakResponse_def
  decode_ReadSeqNakResponse_def decode_WriteSeqNakResponse_def
  decode_ReadCompNakResponse_def decode_WriteCompNakResponse_def
  decode_ReadmodifywriteSingleAckResponse_def
  decode_ReadmodifywriteSingleNakResponse_def decode_Interrupt_def

context wf_wire
begin

lemma encode_ReadSeqAckResponse_eq:
  assumes "serdes_ok sd"
  shows "encodeResponse cfg crcpp sd (ReadSeqAckResponse t ds) =
     (if response_limit cfg sd (ReadSeqAckResponse t ds)
      then Inr (response_packet cfg crcpp (ReadSeqAckResponse t ds))
      else Inl (response_limit_error (ReadSeqAckResponse t ds)))"
proof -
  obtain m where m: "getMaxSeqReadCount cfg sd = Inr m"
    "length ds \<le> unat m \<longleftrightarrow>
       msg_size cfg 0 (length ds) 1 \<le> max_message_size sd \<and> length ds < 2 ^ LENGTH('l)"
    using getMaxSeqReadCount_spec [OF assms] by metis
  show ?thesis
    unfolding encodeResponse.simps response_limit.simps response_limit_error.simps encode_ReadSeqAckResponse_def
    by (rule limited_encode [OF m, where sz = "msg_size cfg 0 (length ds) 1"])
      (use length_type_max in \<open>simp_all add: calcSize_eq response_packet_def assert_size_def appendCrc_eq
        msg_size_def Let_def distrib_left\<close>)
qed

lemma encode_ReadCompAckResponse_eq:
  assumes "serdes_ok sd"
  shows "encodeResponse cfg crcpp sd (ReadCompAckResponse t ds) =
     (if response_limit cfg sd (ReadCompAckResponse t ds)
      then Inr (response_packet cfg crcpp (ReadCompAckResponse t ds))
      else Inl (response_limit_error (ReadCompAckResponse t ds)))"
proof -
  obtain m where m: "getMaxCompReadCount cfg sd = Inr m"
    "length ds \<le> unat m \<longleftrightarrow> msg_size cfg (length ds) 0 1 \<le> max_message_size sd \<and>
       msg_size cfg 0 (length ds) 1 \<le> max_message_size sd \<and> length ds < 2 ^ LENGTH('l)"
    using getMaxCompReadCount_spec [OF assms] by metis
  show ?thesis
    unfolding encodeResponse.simps response_limit.simps response_limit_error.simps encode_ReadCompAckResponse_def
    by (rule limited_encode [OF m, where sz = "msg_size cfg 0 (length ds) 1"])
      (use length_type_max in \<open>simp_all add: calcSize_eq response_packet_def assert_size_def appendCrc_eq
        msg_size_def Let_def distrib_left\<close>)
qed

lemma encodeResponse_eq:
  assumes "serdes_ok sd"
  shows "encodeResponse cfg crcpp sd resp =
     (if response_limit cfg sd resp then Inr (response_packet cfg crcpp resp)
      else Inl (response_limit_error resp))"
proof (cases "(\<exists>t ds. resp = ReadSeqAckResponse t ds) \<or> (\<exists>t ds. resp = ReadCompAckResponse t ds)")
  case True
  then show ?thesis
    using encode_ReadSeqAckResponse_eq [OF assms] encode_ReadCompAckResponse_eq [OF assms] by auto
next
  case False
  then show ?thesis
    by (cases resp)
       (simp_all add: encode_response_defs response_packet_def calcSize_fixed assms
         msg_size_def assert_size_def appendCrc_eq)
qed

lemma length_response_packet:
  assumes "serdes_ok sd" and "response_limit cfg sd resp"
  shows "length (response_packet cfg crcpp resp) \<le> max_message_size sd"
  using assms fixed_size_bound [of 0 0 0] fixed_size_bound [of 0 1 0]
  by (cases resp) (simp_all add: response_packet_def msg_size_def serdes_ok_def)

end

section \<open>Decoding accepts the wire format and nothing else\<close>

definition response_from ::
  "('a::len, 'd::len, 'l::len, 'c::len) cfg \<Rightarrow> Buffer \<Rightarrow> byte \<Rightarrow> MessageType \<Rightarrow>
     'd word Response \<Rightarrow> bool"
where
  "response_from cfg body txn mt resp \<longleftrightarrow>
     response_fits cfg resp \<and> body = response_body cfg resp \<and>
     txn = resp_transaction_id resp \<and> mt = response_type resp"

context wf_wire
begin

lemma decode_response_inv:
  "decode_ReadSingleAckResponse cfg body txn eAckSingleRead = Inr resp \<Longrightarrow>
     response_from cfg body txn eAckSingleRead resp"
  "decode_WriteSingleAckResponse cfg body txn eAckSingleWrite = Inr resp \<Longrightarrow>
     response_from cfg body txn eAckSingleWrite resp"
  "decode_ReadSeqAckResponse cfg body txn eAckSeqRead = Inr resp \<Longrightarrow>
     response_from cfg body txn eAckSeqRead resp"
  "decode_WriteSeqAckResponse cfg body txn eAckSeqWrite = Inr resp \<Longrightarrow>
     response_from cfg body txn eAckSeqWrite resp"
  "decode_ReadCompAckResponse cfg body txn eAckCompRead = Inr resp \<Longrightarrow>
     response_from cfg body txn eAckCompRead resp"
  "decode_WriteCompAckResponse cfg body txn eAckCompWrite = Inr resp \<Longrightarrow>
     response_from cfg body txn eAckCompWrite resp"
  "decode_ReadSingleNakResponse cfg body txn eNakSingleRead = Inr resp \<Longrightarrow>
     response_from cfg body txn eNakSingleRead resp"
  "decode_WriteSingleNakResponse cfg body txn eNakSingleWrite = Inr resp \<Longrightarrow>
     response_from cfg body txn eNakSingleWrite resp"
  "decode_ReadSeqNakResponse cfg body txn eNakSeqRead = Inr resp \<Longrightarrow>
     response_from cfg body txn eNakSeqRead resp"
  "decode_WriteSeqNakResponse cfg body txn eNakSeqWrite = Inr resp \<Longrightarrow>
     response_from cfg body txn eNakSeqWrite resp"
  "decode_ReadCompNakResponse cfg body txn eNakCompRead = Inr resp \<Longrightarrow>
     response_from cfg body txn eNakCompRead resp"
  "decode_WriteCompNakResponse cfg body txn eNakCompWrite = Inr resp \<Longrightarrow>
     response_from cfg body txn eNakCompWrite resp"
  "decode_ReadmodifywriteSingleAckResponse cfg body txn eAckSingleRmw = Inr resp \<Longrightarrow>
     response_from cfg body txn eAckSingleRmw resp"
  "decode_ReadmodifywriteSingleNakResponse cfg body txn eNakSingleRmw = Inr resp \<Longrightarrow>
     response_from cfg body txn eNakSingleRmw resp"
  "decode_Interrupt cfg body txn eAckSingleInterrupt = Inr resp \<Longrightarrow>
     response_from cfg body txn eAckSingleInterrupt resp"
  by (auto simp: decode_response_defs extractDataArray_def response_from_def bindR_eq_Inr_conv
      fits_bytes_def split: if_splits dest!: extract_inv)

lemma decode_response_switch_inv:
  "decode_response_switch cfg (Some mt) body txn = Inr resp \<Longrightarrow>
     response_from cfg body txn mt resp"
  by (cases mt) (simp_all add: decode_response_inv)

lemma decodeResponse_response_packet:
  assumes "response_fits cfg resp"
  shows "decodeResponse cfg crcpp (response_packet cfg crcpp resp) = Inr resp"
  using assms
  by (cases resp)
     (simp_all add: decodeResponse_def response_packet_def openPacket_packet decode_response_defs
       extractDataArray_def extract_put unat_word_of_length fits_word_of_length)

lemma decodeResponse_inv:
  assumes "decodeResponse cfg crcpp buf = Inr resp"
  shows "response_fits cfg resp \<and> buf = response_packet cfg crcpp resp"
proof -
  from assms obtain txn mto body where opened: "openPacket cfg crcpp buf = Inr (txn, mto, body)"
    and switch: "decode_response_switch cfg mto body txn = Inr resp"
    by (auto simp: decodeResponse_def bindR_eq_Inr_conv)
  from switch obtain mt where mt: "mto = Some mt" by (cases mto) simp_all
  from opened obtain code where "buf = packet cfg crcpp txn code body"
    and "mto = message_type_of code" by (rule openPacket_inv)
  with mt have "buf = packet cfg crcpp txn (msg_code mt) body"
    by (metis message_type_of_Some)
  with decode_response_switch_inv [of mt body txn resp] switch mt show ?thesis
    by (simp add: response_from_def response_packet_def)
qed

lemma decodeResponse_iff:
  "decodeResponse cfg crcpp buf = Inr resp \<longleftrightarrow>
     response_fits cfg resp \<and> buf = response_packet cfg crcpp resp"
  using decodeResponse_inv decodeResponse_response_packet by blast

lemma decode_response_error:
  "decode_ReadSingleAckResponse cfg body txn mt = Inl e \<Longrightarrow> e = MalformedPacketException"
  "decode_WriteSingleAckResponse cfg body txn mt = Inl e \<Longrightarrow> e = MalformedPacketException"
  "decode_ReadSeqAckResponse cfg body txn mt = Inl e \<Longrightarrow> e = MalformedPacketException"
  "decode_WriteSeqAckResponse cfg body txn mt = Inl e \<Longrightarrow> e = MalformedPacketException"
  "decode_ReadCompAckResponse cfg body txn mt = Inl e \<Longrightarrow> e = MalformedPacketException"
  "decode_WriteCompAckResponse cfg body txn mt = Inl e \<Longrightarrow> e = MalformedPacketException"
  "decode_ReadSingleNakResponse cfg body txn mt = Inl e \<Longrightarrow> e = MalformedPacketException"
  "decode_WriteSingleNakResponse cfg body txn mt = Inl e \<Longrightarrow> e = MalformedPacketException"
  "decode_ReadSeqNakResponse cfg body txn mt = Inl e \<Longrightarrow> e = MalformedPacketException"
  "decode_WriteSeqNakResponse cfg body txn mt = Inl e \<Longrightarrow> e = MalformedPacketException"
  "decode_ReadCompNakResponse cfg body txn mt = Inl e \<Longrightarrow> e = MalformedPacketException"
  "decode_WriteCompNakResponse cfg body txn mt = Inl e \<Longrightarrow> e = MalformedPacketException"
  "decode_ReadmodifywriteSingleAckResponse cfg body txn mt = Inl e \<Longrightarrow> e = MalformedPacketException"
  "decode_ReadmodifywriteSingleNakResponse cfg body txn mt = Inl e \<Longrightarrow> e = MalformedPacketException"
  "decode_Interrupt cfg body txn mt = Inl e \<Longrightarrow> e = MalformedPacketException"
  by (auto simp: decode_response_defs extractDataArray_def bindR_eq_Inl_conv extract_error
      split: if_splits)

lemma decode_response_switch_error:
  "decode_response_switch cfg mto body txn = Inl e \<Longrightarrow>
     e = MalformedPacketException \<or> e = UnexpectedMessageTypeException"
  by (cases "(cfg, mto, body, txn)" rule: decode_response_switch.cases)
     (auto dest: decode_response_error)

lemma decodeResponse_error:
  assumes "decodeResponse cfg crcpp buf = Inl e"
  shows "e = MalformedPacketException \<or> e = UnexpectedMessageTypeException \<or>
    (\<exists>want got. e = CrcMismatchException want got)"
proof (cases "openPacket cfg crcpp buf")
  case (Inl e')
  with assms openPacket_error [OF Inl] show ?thesis by (auto simp: decodeResponse_def)
next
  case (Inr opened)
  with assms show ?thesis
    by (auto simp: decodeResponse_def split: prod.splits dest: decode_response_switch_error)
qed

end

declare encodeResponse.simps [simp del]

end
