(* ===== verification/Serdes.thy ===== *)
theory Serdes
  imports Serdes_Commands Serdes_Responses
begin

text \<open>
  The class \<open>Serdes\<close> as its users see it. The locale \<open>message_codec\<close> is the contract of one
  direction (what a client or a server relies on when it encodes and decodes); the pair
  \<open>encodeCommand\<close>/\<open>decodeCommand\<close> and the pair \<open>encodeResponse\<close>/\<open>decodeResponse\<close> are
  interpreted in it for every sound configuration and every object the constructor makes
  (\<open>wf_serdes\<close>). The properties of the class follow, written out over its member functions.
\<close>

locale message_codec =
  fixes enc :: "'m \<Rightarrow> Buffer result"
    and dec :: "Buffer \<Rightarrow> 'm result"
    and carried :: "'m \<Rightarrow> bool"
    and size_limit :: nat
  assumes dec_enc: "enc m = Inr b \<Longrightarrow> carried m \<Longrightarrow> dec b = Inr m"
    and enc_dec: "dec b = Inr m \<Longrightarrow>
      carried m \<and> (enc m = Inr b \<or> (\<exists>msg. enc m = Inl (MessageSizeException msg)))"
    and dec_unique: "dec b = Inr m \<Longrightarrow> dec b' = Inr m \<Longrightarrow> b = b'"
    and enc_size: "enc m = Inr b \<Longrightarrow> length b \<le> size_limit"
    and enc_error: "enc m = Inl e \<Longrightarrow> \<exists>msg. e = MessageSizeException msg"
begin

lemma enc_inject: "enc m = Inr b \<Longrightarrow> enc m' = Inr b \<Longrightarrow> carried m \<Longrightarrow> carried m' \<Longrightarrow> m = m'"
  using dec_enc [of m b] dec_enc [of m' b] by simp

lemma enc_iff_dec:
  "enc m = Inr b' \<Longrightarrow> carried m \<Longrightarrow> dec b = Inr m \<longleftrightarrow> b = b'"
  using dec_enc dec_unique by blast

text \<open>A list of messages sent one by one arrives as the same list.\<close>

lemma dec_enc_list:
  "list_all2 (\<lambda>m b. enc m = Inr b) ms bs \<Longrightarrow> list_all carried ms \<Longrightarrow> map dec bs = map Inr ms"
  by (induction rule: list_all2_induct) (simp_all add: dec_enc)

end

locale wf_serdes = wf_wire cfg crcpp
  for cfg :: "('a::len, 'd::len, 'l::len, 'c::len) cfg" and crcpp :: "'c crc_function" +
  fixes sd :: serdes
  assumes sd_ok: "serdes_ok sd"

lemma command_limit_error_cases:
  "\<not> command_limit cfg sd cmd \<Longrightarrow> \<exists>msg. command_limit_error cmd = MessageSizeException msg"
  by (cases cmd) simp_all

lemma response_limit_error_cases:
  "\<not> response_limit cfg sd resp \<Longrightarrow> \<exists>msg. response_limit_error resp = MessageSizeException msg"
  by (cases resp) simp_all

sublocale wf_serdes \<subseteq> cmd: message_codec "encodeCommand cfg crcpp sd"
  "decodeCommand cfg crcpp" "command_fits cfg" "max_message_size sd"
  by unfold_locales
     (auto simp: encodeCommand_eq [OF sd_ok] decodeCommand_iff length_command_packet [OF sd_ok]
       command_limit_error_cases split: if_splits)

sublocale wf_serdes \<subseteq> rsp: message_codec "encodeResponse cfg crcpp sd"
  "decodeResponse cfg crcpp" "response_fits cfg" "max_message_size sd"
  by unfold_locales
     (auto simp: encodeResponse_eq [OF sd_ok] decodeResponse_iff length_response_packet [OF sd_ok]
       response_limit_error_cases split: if_splits)

interpretation example_serdes: wf_serdes ExampleRapCfg bit_serial_crc
  "\<lparr> max_message_size = 512 \<rparr>"
  by unfold_locales (simp add: serdes_ok_def)

lemma wf_serdesI:
  "cfg_wf cfg \<Longrightarrow> crc_width_respected crcpp \<Longrightarrow> serdes_ok sd \<Longrightarrow> wf_serdes cfg crcpp sd"
  by (simp add: wf_serdes_def wf_serdes_axioms_def wf_wire_def wf_wire_axioms_def wf_config_def)

lemma wf_wireI: "cfg_wf cfg \<Longrightarrow> crc_width_respected crcpp \<Longrightarrow> wf_wire cfg crcpp"
  by (simp add: wf_wire_def wf_wire_axioms_def wf_config_def)

text \<open>The contract's facts under names of their own, for use outside the locale.\<close>

context wf_serdes
begin

lemmas cmd_dec_enc = cmd.dec_enc
  and cmd_enc_dec = cmd.enc_dec
  and cmd_dec_unique = cmd.dec_unique
  and cmd_enc_size = cmd.enc_size
  and cmd_enc_inject = cmd.enc_inject
  and rsp_dec_enc = rsp.dec_enc
  and rsp_enc_dec = rsp.enc_dec
  and rsp_dec_unique = rsp.dec_unique
  and rsp_enc_size = rsp.enc_size
  and rsp_enc_inject = rsp.enc_inject

end

section \<open>Round trips\<close>

text \<open>
  C10. A command whose fields fit the configured byte counts and that \<open>encodeCommand\<close> accepts
  is returned unchanged by \<open>decodeCommand\<close>, for every sound configuration and CRC library. A field
  that does not fit is cut (\<open>narrow_length_field\<close>), so the condition is needed.
\<close>

theorem command_roundtrip:
  assumes "cfg_wf cfg" and "crc_width_respected crcpp" and "serdes_ok sd"
    and "command_fits cfg cmd" and "encodeCommand cfg crcpp sd cmd = Inr buf"
  shows "decodeCommand cfg crcpp buf = Inr cmd"
  using wf_serdes.cmd_dec_enc [OF wf_serdesI [OF assms(1-3)] assms(5,4)] .

abbreviation (input) sd512 :: serdes where
  "sd512 \<equiv> \<lparr> max_message_size = 512 \<rparr>"

lemma sd512_ok [simp]: "serdes_ok sd512"
  by (simp add: serdes_ok_def)

theorem command_roundtrip_witness:
  "let cmd = WriteSeqCommand 7 False 0x123456 4 [0xDEADBEEF, 1];
       buf = command_packet ExampleRapCfg bit_serial_crc cmd
   in encodeCommand ExampleRapCfg bit_serial_crc sd512 cmd = Inr buf \<and>
      decodeCommand ExampleRapCfg bit_serial_crc buf = Inr cmd"
proof -
  let ?cmd = "WriteSeqCommand 7 False 0x123456 4 [0xDEADBEEF, 1] :: (32 word, 32 word, 16 word) Command"
  have enc: "encodeCommand ExampleRapCfg bit_serial_crc sd512 ?cmd
      = Inr (command_packet ExampleRapCfg bit_serial_crc ?cmd)"
    by (simp add: example_wire.encodeCommand_eq msg_size_def)
  have "command_fits ExampleRapCfg ?cmd"
    by (simp add: fits_bytes_def)
  then show ?thesis
    using command_roundtrip [OF _ _ _ _ enc] enc by (simp add: Let_def)
qed

text \<open>
  C11. A response whose fields fit and that \<open>encodeResponse\<close> accepts is returned unchanged by
  \<open>decodeResponse\<close>.
\<close>

theorem response_roundtrip:
  assumes "cfg_wf cfg" and "crc_width_respected crcpp" and "serdes_ok sd"
    and "response_fits cfg resp" and "encodeResponse cfg crcpp sd resp = Inr buf"
  shows "decodeResponse cfg crcpp buf = Inr resp"
  using wf_serdes.rsp_dec_enc [OF wf_serdesI [OF assms(1-3)] assms(5,4)] .

theorem response_roundtrip_witness:
  "let resp = ReadSeqAckResponse 9 [0xCAFE, 2, 3];
       buf = response_packet ExampleRapCfg bit_serial_crc resp
   in encodeResponse ExampleRapCfg bit_serial_crc sd512 resp = Inr buf \<and>
      decodeResponse ExampleRapCfg bit_serial_crc buf = Inr resp"
proof -
  let ?r = "ReadSeqAckResponse 9 [0xCAFE, 2, 3] :: 32 word Response"
  have enc: "encodeResponse ExampleRapCfg bit_serial_crc sd512 ?r
      = Inr (response_packet ExampleRapCfg bit_serial_crc ?r)"
    by (simp add: example_wire.encodeResponse_eq msg_size_def)
  have "response_fits ExampleRapCfg ?r"
    by (simp add: fits_bytes_def)
  then show ?thesis
    using response_roundtrip [OF _ _ _ _ enc] enc by (simp add: Let_def)
qed

section \<open>The wire format\<close>

text \<open>
  C12. The decoders accept exactly the canonical packets: each returns a message if and only if the
  buffer is that message's packet and the message's fields fit. In particular two different buffers
  never decode to the same message.
\<close>

theorem decoders_canonical:
  fixes cfg :: "('a::len, 'd::len, 'l::len, 'c::len) cfg"
  assumes "cfg_wf cfg" and "crc_width_respected crcpp"
  shows "(decodeCommand cfg crcpp buf = Inr cmd \<longleftrightarrow>
      command_fits cfg cmd \<and> buf = command_packet cfg crcpp cmd) \<and>
    (decodeResponse cfg crcpp buf = Inr resp \<longleftrightarrow>
      response_fits cfg resp \<and> buf = response_packet cfg crcpp resp)"
  by (simp add: wf_wire.decodeCommand_iff [OF wf_wireI [OF assms]]
      wf_wire.decodeResponse_iff [OF wf_wireI [OF assms]])

theorem decoders_canonical_witness:
  "decodeCommand ExampleRapCfg bit_serial_crc
     (command_packet ExampleRapCfg bit_serial_crc (ReadSingleCommand 3 0x0A0B0C))
   = Inr (ReadSingleCommand 3 0x0A0B0C) \<and>
   decodeResponse ExampleRapCfg bit_serial_crc
     (response_packet ExampleRapCfg bit_serial_crc (ReadSingleNakResponse 3 0xFD))
   = Inr (ReadSingleNakResponse 3 0xFD)"
  by (simp only: decoders_canonical [OF cfg_wf_ExampleRapCfg bit_serial_crc_width, THEN conjunct1]
      decoders_canonical [OF cfg_wf_ExampleRapCfg bit_serial_crc_width, THEN conjunct2])
     (simp add: fits_bytes_def)

text \<open>
  C14. \<open>encodeCommand\<close> is the wire format with one guard: within the limits it returns the
  packet of the command, over them it throws the \<open>MessageSizeException\<close> of its kind. The
  \<open>assert\<close> on the buffer size never fails and \<open>calcSize\<close> never throws on its own.
\<close>

theorem encodeCommand_format:
  assumes "cfg_wf cfg" and "crc_width_respected crcpp" and "serdes_ok sd"
  shows "encodeCommand cfg crcpp sd cmd =
    (if command_limit cfg sd cmd then Inr (command_packet cfg crcpp cmd)
     else Inl (command_limit_error cmd))"
  by (rule wf_wire.encodeCommand_eq [OF wf_wireI [OF assms(1,2)] assms(3)])

theorem encodeCommand_format_witness:
  "encodeCommand ExampleRapCfg bit_serial_crc \<lparr> max_message_size = 32 \<rparr>
     (WriteSeqCommand 1 True 0 0 (replicate 6 0))
   = Inl (MessageSizeException ''WriteSeqCommand count exceeded transport-imposed limit'')"
  by (subst encodeCommand_format)
     (simp_all add: serdes_ok_def msg_size_def)

text \<open>
  C15. \<open>encodeResponse\<close> is the wire format of responses with the guards of the two list
  responses.
\<close>

theorem encodeResponse_format:
  assumes "cfg_wf cfg" and "crc_width_respected crcpp" and "serdes_ok sd"
  shows "encodeResponse cfg crcpp sd resp =
    (if response_limit cfg sd resp then Inr (response_packet cfg crcpp resp)
     else Inl (response_limit_error resp))"
  by (rule wf_wire.encodeResponse_eq [OF wf_wireI [OF assms(1,2)] assms(3)])

theorem encodeResponse_format_witness:
  "encodeResponse ExampleRapCfg bit_serial_crc \<lparr> max_message_size = 32 \<rparr>
     (ReadSeqAckResponse 1 (replicate 7 0))
   = Inl (MessageSizeException ''ReadSeqAckResponse count exceeded transport-imposed limit'')"
  by (subst encodeResponse_format)
     (simp_all add: serdes_ok_def msg_size_def)

section \<open>Sizes\<close>



text \<open>
  The minimum of 32 bytes that the constructor demands is enough: with any object it
  returns, every command without a list and every response without a list is encoded, in at
  most 32 bytes, for every sound configuration.
\<close>

fun has_list :: "('a, 'd, 'l) Command \<Rightarrow> bool" where
  "has_list (ReadSingleCommand t a) = False"
| "has_list (WriteSingleCommand t p a d) = False"
| "has_list (ReadModifyWriteCommand t p a d m) = False"
| "has_list _ = True"

fun resp_has_list :: "'d Response \<Rightarrow> bool" where
  "resp_has_list (ReadSeqAckResponse t ds) = True"
| "resp_has_list (ReadCompAckResponse t ds) = True"
| "resp_has_list _ = False"

lemma minimum_size_suffices:
  assumes "cfg_wf cfg" and "crc_width_respected crcpp" and "Serdes_constructor n = Inr sd"
  shows "(\<forall>cmd. \<not> has_list cmd \<longrightarrow>
       (\<exists>buf. encodeCommand cfg crcpp sd cmd = Inr buf \<and> length buf \<le> 32)) \<and>
    (\<forall>resp. \<not> resp_has_list resp \<longrightarrow>
       (\<exists>buf. encodeResponse cfg crcpp sd resp = Inr buf \<and> length buf \<le> 32))"
proof -
  have ok: "serdes_ok sd" using Serdes_constructor_ok [OF assms(3)] by simp
  note w = wf_wireI [OF assms(1,2)]
  let ?min = "\<lparr> max_message_size = 32 \<rparr>"
  have min: "serdes_ok ?min" by (simp add: serdes_ok_def)
  have "command_limit cfg sd cmd \<and> command_limit cfg ?min cmd" if "\<not> has_list cmd" for cmd
    using that by (cases cmd) simp_all
  moreover have "response_limit cfg sd resp \<and> response_limit cfg ?min resp"
    if "\<not> resp_has_list resp" for resp
    using that by (cases resp) simp_all
  ultimately show ?thesis
    using wf_wire.length_command_packet [OF w min] wf_wire.length_response_packet [OF w min]
    by (auto simp: wf_wire.encodeCommand_eq [OF w ok] wf_wire.encodeResponse_eq [OF w ok])
qed

lemma minimum_size_suffices_example:
  "\<exists>buf. encodeCommand ExampleRapCfg bit_serial_crc \<lparr> max_message_size = 32 \<rparr>
     (ReadModifyWriteCommand 1 False 0 1 2) = Inr buf \<and> length buf \<le> 32"
proof -
  have "Serdes_constructor 32 = Inr \<lparr> max_message_size = 32 \<rparr>"
    by (simp add: Serdes_constructor_def minimum_max_message_size_def)
  from minimum_size_suffices [OF cfg_wf_ExampleRapCfg bit_serial_crc_width this]
  show ?thesis by simp
qed

text \<open>
  A read that \<open>encodeCommand\<close> accepts can be answered: every acknowledge with as many
  values as were asked for is accepted by \<open>encodeResponse\<close> of an object with the same limit.
\<close>

lemma read_reply_fits:
  fixes cfg :: "('a::len, 'd::len, 'l::len, 'c::len) cfg" and as :: "'a word list"
  assumes "cfg_wf cfg" and "crc_width_respected crcpp" and "serdes_ok sd"
  shows
    "(\<forall>t a i n ds buf. encodeCommand cfg crcpp sd (ReadSeqCommand t a i n) = Inr buf \<and>
       length ds = unat n \<longrightarrow> (\<exists>rbuf. encodeResponse cfg crcpp sd (ReadSeqAckResponse t ds) = Inr rbuf)) \<and>
     (\<forall>t as ds buf. encodeCommand cfg crcpp sd (ReadCompCommand t as) = Inr buf \<and>
       length ds = length as \<longrightarrow>
         (\<exists>rbuf. encodeResponse cfg crcpp sd (ReadCompAckResponse t ds) = Inr rbuf))"
proof -
  note w = wf_wireI [OF assms(1,2)]
  have "unat n < 2 ^ LENGTH('l)" for n :: "'l word" by (rule unsigned_less)
  then show ?thesis
    by (auto simp: wf_wire.encodeCommand_eq [OF w assms(3)]
        wf_wire.encodeResponse_eq [OF w assms(3)] split: if_splits)
qed

lemma read_reply_fits_example:
  "\<exists>rbuf. encodeResponse ExampleRapCfg bit_serial_crc sd512
     (ReadSeqAckResponse 5 (replicate 100 (7 :: 32 word))) = Inr rbuf"
proof -
  have "encodeCommand ExampleRapCfg bit_serial_crc sd512 (ReadSeqCommand 5 0 4 100)
    = Inr (command_packet ExampleRapCfg bit_serial_crc (ReadSeqCommand 5 0 4 100))"
    by (subst example_wire.encodeCommand_eq) (simp_all add: msg_size_def)
  moreover have "length (replicate 100 (7 :: 32 word)) = unat (100 :: 16 word)" by simp
  moreover note conjunct1 [OF read_reply_fits
      [OF cfg_wf_ExampleRapCfg bit_serial_crc_width sd512_ok]]
  ultimately show ?thesis by blast
qed

section \<open>Rejected packets\<close>

text \<open>
  C36. What a decoder makes of any buffer. One too short for a header and a checksum is malformed.
  In a longer one the checksum comes before everything else: when it is not that of the rest, both
  decoders throw a \<open>CrcMismatchException\<close> with the computed and the received one, whatever the
  type and the body are; when it is, neither throws that exception, and what a decoder ends in is a
  message or one of a few documented exceptions, never a failed assertion or undefined behaviour
  (\<open>decodeCommand\<close> has one exception more, for a count that does not fit the rest of the packet).
\<close>

definition decode_error :: "exn \<Rightarrow> bool" where
  "decode_error e \<longleftrightarrow> e = MalformedPacketException \<or> e = UnexpectedMessageTypeException"

theorem decoder_errors:
  fixes cfg :: "('a::len, 'd::len, 'l::len, 'c::len) cfg" and buf :: Buffer
  assumes "cfg_wf cfg" and "crc_width_respected crcpp"
  defines "rest \<equiv> take (length buf - CrcBytes cfg) buf"
    and "received \<equiv> (le_word (drop (length buf - CrcBytes cfg) buf) :: 'c word)"
  defines "mismatch \<equiv> CrcMismatchException (ucast (packet_crc cfg crcpp rest)) (ucast received)"
  shows "(length buf < 2 + CrcBytes cfg \<longrightarrow>
      decodeCommand cfg crcpp buf = Inl MalformedPacketException \<and>
      decodeResponse cfg crcpp buf = Inl MalformedPacketException) \<and>
    (2 + CrcBytes cfg \<le> length buf \<and> received \<noteq> packet_crc cfg crcpp rest \<longrightarrow>
      decodeCommand cfg crcpp buf = Inl mismatch \<and> decodeResponse cfg crcpp buf = Inl mismatch) \<and>
    (2 + CrcBytes cfg \<le> length buf \<and> received = packet_crc cfg crcpp rest \<longrightarrow>
      (\<forall>e. decodeCommand cfg crcpp buf = Inl e \<longrightarrow> decode_error e \<or> e = Exception ''Buffer size error'') \<and>
      (\<forall>e. decodeResponse cfg crcpp buf = Inl e \<longrightarrow> decode_error e))"
proof -
  note w = wf_wireI [OF assms(1,2)]
  have short: "decodeCommand cfg crcpp buf = Inl MalformedPacketException"
    "decodeResponse cfg crcpp buf = Inl MalformedPacketException" if "length buf < 2 + CrcBytes cfg"
    using that by (simp_all add: decodeCommand_def decodeResponse_def openPacket_def)
  have long: "openPacket cfg crcpp buf =
      (if received = packet_crc cfg crcpp rest then Inr (txn, message_type_of code, body) else Inl mismatch)"
    if "buf = txn # code # body @ le_bytes (CrcBytes cfg) crc" "fits_bytes (CrcBytes cfg) crc"
    for txn code body and crc :: "'c word"
    using that wf_wire.openPacket_append [OF w, of txn code body crc]
    by (simp add: rest_def received_def mismatch_def le_word_le_bytes fits_bytes_take_bit)
  show ?thesis
  proof (cases "length buf < 2 + CrcBytes cfg")
    case True
    with short show ?thesis by simp
  next
    case False
    then obtain txn code body crc where "buf = txn # code # body @ le_bytes (CrcBytes cfg) (crc :: 'c word)"
      "fits_bytes (CrcBytes cfg) crc"
      using wf_wire.split_buffer [OF w, of buf] by (metis not_less)
    from long [OF this] False show ?thesis
      by (auto simp: decodeCommand_def decodeResponse_def decode_error_def
          dest: wf_wire.decode_command_switch_error [OF w] wf_wire.decode_response_switch_error [OF w])
  qed
qed

theorem decoder_errors_witness:
  "decodeCommand ExampleRapCfg bit_serial_crc [1, 0x80, 3] = Inl MalformedPacketException \<and>
   decodeResponse ExampleRapCfg bit_serial_crc [1, 0x80, 3] = Inl MalformedPacketException"
  using decoder_errors [OF cfg_wf_ExampleRapCfg bit_serial_crc_width, of "[1, 0x80, 3]"] by simp

text \<open>
  The two directions are disjoint: the packet of a command is an unexpected message type
  for \<open>decodeResponse\<close>, and the packet of a response for \<open>decodeCommand\<close>.
\<close>

lemma command_type_not_response: "decode_response_switch cfg (Some (command_type cmd)) buf txn =
    Inl UnexpectedMessageTypeException"
  by (cases cmd) simp_all

lemma response_type_not_command: "decode_command_switch cfg (Some (response_type resp)) buf txn =
    Inl UnexpectedMessageTypeException"
  by (cases resp) simp_all

lemma directions_disjoint:
  assumes "cfg_wf cfg" and "crc_width_respected crcpp" and "serdes_ok sd"
  shows "(\<forall>cmd buf. encodeCommand cfg crcpp sd cmd = Inr buf \<longrightarrow>
       decodeResponse cfg crcpp buf = Inl UnexpectedMessageTypeException) \<and>
    (\<forall>resp buf. encodeResponse cfg crcpp sd resp = Inr buf \<longrightarrow>
       decodeCommand cfg crcpp buf = Inl UnexpectedMessageTypeException)"
proof -
  note w = wf_wireI [OF assms(1,2)]
  show ?thesis
    by (auto simp: wf_wire.encodeCommand_eq [OF w assms(3)] wf_wire.encodeResponse_eq [OF w assms(3)]
        command_packet_def response_packet_def decodeCommand_def decodeResponse_def
        wf_wire.openPacket_packet [OF w] command_type_not_response response_type_not_command
        split: if_splits)
qed

lemma directions_disjoint_example:
  "decodeResponse ExampleRapCfg bit_serial_crc
     (command_packet ExampleRapCfg bit_serial_crc (ReadSingleCommand 1 2))
   = Inl UnexpectedMessageTypeException"
proof -
  have "encodeCommand ExampleRapCfg bit_serial_crc sd512 (ReadSingleCommand 1 2)
    = Inr (command_packet ExampleRapCfg bit_serial_crc (ReadSingleCommand 1 2))"
    by (subst example_wire.encodeCommand_eq) simp_all
  then show ?thesis
    using directions_disjoint [OF cfg_wf_ExampleRapCfg bit_serial_crc_width sd512_ok] by blast
qed

lemma zero_digit: "digit 0 = CHR ''0''"
  by code_simp

text \<open>The checksum of an example packet, for the witnesses of the next two properties.\<close>

lemma packet_crc_example:
  "packet_crc ExampleRapCfg bit_serial_crc [1, 1, 0x10, 0x20, 0x30]
     = bit_serial_crc crc16_xmodem [1, 1, 0x10, 0x20, 0x30]"
  by (simp add: packet_crc_def calculateCrc_def)

lemma unat_ucast_32:
  assumes "LENGTH('c::len) \<le> 32"
  shows "unat (ucast (v :: 'c word) :: 32 word) = unat v"
proof -
  have "unat v < 2 ^ LENGTH('c)" by (rule unsigned_less)
  also have "(2 :: nat) ^ LENGTH('c) \<le> 2 ^ 32" using assms by (intro power_increasing) simp_all
  finally show ?thesis
    by (simp add: unsigned_ucast_eq take_bit_nat_eq_self)
qed

lemma zero_checksum_wrong:
  "[0, 0] \<noteq> le_bytes 2 (bit_serial_crc crc16_xmodem [1, 1, 0x10, 0x20, 0x30] :: 16 word)"
  by code_simp

text \<open>
  A packet whose checksum bytes are not the computed ones is refused by both decoders with a
  \<open>CrcMismatchException\<close> that holds the computed and the received checksum, whatever the header
  and the body are.
\<close>

lemma wrong_checksum_rejected:
  fixes cfg :: "('a::len, 'd::len, 'l::len, 'c::len) cfg"
  assumes "cfg_wf cfg" and "crc_width_respected crcpp" and "length tail = CrcBytes cfg"
    and "tail \<noteq> le_bytes (CrcBytes cfg) (packet_crc cfg crcpp (txn # code # body))"
  shows "let e = CrcMismatchException (ucast (packet_crc cfg crcpp (txn # code # body)))
             (ucast (le_word tail :: 'c word))
    in decodeCommand cfg crcpp (txn # code # body @ tail) = Inl e \<and>
       decodeResponse cfg crcpp (txn # code # body @ tail) = Inl e"
  unfolding decodeCommand_def decodeResponse_def
  by (simp add: Let_def wf_wire.openPacket_bad_crc [OF wf_wireI [OF assms(1,2)] assms(3,4)])

lemma wrong_checksum_rejected_example:
  "decodeCommand ExampleRapCfg bit_serial_crc [1, 1, 0x10, 0x20, 0x30, 0, 0] =
     Inl (CrcMismatchException (ucast (bit_serial_crc crc16_xmodem [1, 1, 0x10, 0x20, 0x30] :: 16 word)) 0)"
  using wrong_checksum_rejected [OF cfg_wf_ExampleRapCfg bit_serial_crc_width,
      of "[0, 0]" 1 1 "[0x10, 0x20, 0x30]"] zero_checksum_wrong packet_crc_example
  by (simp add: Let_def)

text \<open>
  The text of the exception for a wrong checksum has its two numbers exchanged, and in
  decimal behind a hexadecimal prefix: what follows \<^verbatim>\<open>got\<close> is the checksum the
  receiver computed, what follows \<^verbatim>\<open>want\<close> is the one it received.
\<close>

lemma crc_mismatch_report:
  fixes cfg :: "('a::len, 'd::len, 'l::len, 'c::len) cfg"
  assumes "cfg_wf cfg" and "crc_width_respected crcpp" and "length tail = CrcBytes cfg"
    and "tail \<noteq> le_bytes (CrcBytes cfg) (packet_crc cfg crcpp (txn # code # body))"
  shows "\<exists>e. decodeCommand cfg crcpp (txn # code # body @ tail) = Inl e \<and>
    what e = ''CRC mismatch on packet. got:0x''
        @ decimal (unat (packet_crc cfg crcpp (txn # code # body)))
        @ '' want:0x'' @ decimal (unat (le_word tail :: 'c word))"
proof -
  have "LENGTH('c) \<le> 32"
    using wf_config.type_widths(4) [OF wf_config.intro, OF assms(1)] by auto
  note unat32 = unat_ucast_32 [OF this]
  then show ?thesis
    by (simp add: decodeCommand_def unat32 what_crc_mismatch_swapped
        wf_wire.openPacket_bad_crc [OF wf_wireI [OF assms(1,2)] assms(3,4)])
qed

lemma crc_mismatch_report_example:
  "\<exists>e. decodeCommand ExampleRapCfg bit_serial_crc [1, 1, 0x10, 0x20, 0x30, 0, 0] = Inl e \<and>
     what e = ''CRC mismatch on packet. got:0x''
        @ decimal (unat (bit_serial_crc crc16_xmodem [1, 1, 0x10, 0x20, 0x30] :: 16 word))
        @ '' want:0x0''"
  using crc_mismatch_report [OF cfg_wf_ExampleRapCfg bit_serial_crc_width,
      of "[0, 0]" 1 1 "[0x10, 0x20, 0x30]"] zero_checksum_wrong packet_crc_example
  by (simp add: zero_digit)

text \<open>
  No two message types are one bit apart: a packet whose type byte had a single bit flipped
  before the checksum was computed is an unexpected message type for both decoders, never
  another message.
\<close>

lemma type_bit_error_rejected:
  assumes "cfg_wf cfg" and "crc_width_respected crcpp" and "i < 8"
  shows "let buf = packet cfg crcpp txn (flip_bit_of i (msg_code mt)) body
    in decodeCommand cfg crcpp buf = Inl UnexpectedMessageTypeException \<and>
       decodeResponse cfg crcpp buf = Inl UnexpectedMessageTypeException"
  unfolding decodeCommand_def decodeResponse_def
  by (simp add: Let_def wf_wire.openPacket_packet [OF wf_wireI [OF assms(1,2)]]
      message_type_of_flip [OF assms(3)])

lemma type_bit_error_rejected_example:
  "decodeCommand ExampleRapCfg bit_serial_crc
     (packet ExampleRapCfg bit_serial_crc 1 (flip_bit_of 6 (msg_code eCmdSingleRmw)) [])
   = Inl UnexpectedMessageTypeException"
  using type_bit_error_rejected [OF cfg_wf_ExampleRapCfg bit_serial_crc_width, of 6]
  by (simp add: Let_def)

text \<open>
  Where the length field has fewer bytes on the wire than its type, the limits are those of
  the type: a sequential write of too many values for the field is encoded without an error,
  its count is cut to the field, and the receiver refuses the packet.
\<close>

lemma narrow_length_field:
  fixes cfg :: "('a::len, 'd::len, 'l::len, 'c::len) cfg" and a :: "'a word"
  assumes "cfg_wf cfg" and "crc_width_respected crcpp" and "serdes_ok sd"
    and "8 * LengthBytes cfg < LENGTH('l)"
    and "2 ^ (8 * LengthBytes cfg) \<le> length ds" and "length ds < 2 ^ LENGTH('l)"
    and "msg_size cfg 1 (length ds) 2 \<le> max_message_size sd"
    and "fits_bytes (AddressBytes cfg) a" and "fits_bytes (LengthBytes cfg) i"
  shows "\<exists>buf. encodeCommand cfg crcpp sd (WriteSeqCommand t p a i ds) = Inr buf \<and>
    decodeCommand cfg crcpp buf = Inl (Exception ''Buffer size error'')"
proof -
  note w = wf_wireI [OF assms(1,2)]
  let ?n = "word_of_nat (length ds) :: 'l word"
  let ?k = "8 * LengthBytes cfg"
  have "unat (take_bit ?k ?n) = length ds mod 2 ^ ?k"
    using assms(6) by (simp only: unsigned_take_bit_eq) (simp add: unat_of_nat take_bit_eq_mod)
  moreover have "length ds mod 2 ^ ?k < 2 ^ ?k" by simp
  ultimately have less: "unat (take_bit ?k ?n) < length ds"
    using assms(5) by linarith
  have "0 < DataBytes cfg" using assms(1) by (simp add: cfg_wf_def)
  with less have "length ds * DataBytes cfg \<noteq> unat (take_bit ?k ?n) * DataBytes cfg" by simp
  with assms(8,9) have "decode_WriteSeqCommand cfg (command_body cfg (WriteSeqCommand t p a i ds))
      t mt = Inl (Exception ''Buffer size error'')" for mt
    by (simp add: decode_WriteSeqCommand_def wf_wire.extract_put [OF w]
        wf_wire.extractLength_bytes [OF w])
  then have "decodeCommand cfg crcpp (command_packet cfg crcpp (WriteSeqCommand t p a i ds))
      = Inl (Exception ''Buffer size error'')"
    by (cases p) (simp_all add: decodeCommand_def command_packet_def
        wf_wire.openPacket_packet [OF w] del: command_body.simps)
  then show ?thesis
    using assms(6,7) by (simp add: wf_wire.encodeCommand_eq [OF w assms(3)])
qed

definition narrow_cfg :: "(8, 8, 16, 8) cfg" where
  "narrow_cfg =
     \<lparr> AddressType = TYPE(8), AddressBits = 8, AddressBytes = 1,
       DataType = TYPE(8), DataBits = 8, DataBytes = 1,
       LengthType = TYPE(16), LengthBytes = 1,
       CrcType = TYPE(8), CrcBytes = 1,
       FeatureSequential = True, FeatureFifo = True, FeatureIncrement = False,
       FeatureCompressed = True, FeatureInterrupt = False,
       FeatureReadModifyWrite = False \<rparr>"

lemma narrow_length_field_example:
  "configuration_as_documented (traits_of narrow_cfg) \<and>
   (\<exists>buf. encodeCommand narrow_cfg bit_serial_crc sd512
       (WriteSeqCommand 1 False 2 1 (replicate 300 0)) = Inr buf \<and>
     decodeCommand narrow_cfg bit_serial_crc buf = Inl (Exception ''Buffer size error''))"
proof -
  have wf: "cfg_wf narrow_cfg" by (simp add: cfg_wf_def narrow_cfg_def)
  moreover have "configuration_as_documented (traits_of narrow_cfg)"
    using wf by (simp add: cfg_wf_iff_documented)
  ultimately show ?thesis
    using narrow_length_field [OF wf bit_serial_crc_width sd512_ok, of "replicate 300 0" 2 1 1 False]
    by (simp add: narrow_cfg_def msg_size_def fits_bytes_def)
qed

end
