(* ===== verification/Transports.thy ===== *)
theory Transports
  imports Rap_Types
begin

text \<open>
  The interface \<open>ISyncWireTransport\<close> (\<open>Transports.h\<close>) and the in-process transport of
  \<open>SyncPairedIpcTransports.cpp\<close>.

  A blocking call is a function of what happens while it blocks. The waiting thread holds the
  mutex of its queue except while it sleeps, so what it can observe is a sequence of
  \<open>wait_event\<close>s: another thread pushes a buffer, time passes, a stop is requested, or the
  condition variable wakes up for no reason. \<open>wait_for\<close> reads such a sequence; its result is
  \<open>None\<close> when the sequence ends and the thread is still asleep.

  The two ends of a pair share two queues by \<open>shared_ptr\<close>; \<open>ipc_world\<close> is the heap those
  pointers point into, and the log.
\<close>

section \<open>The transport interface\<close>

text \<open>
  The virtual functions of \<open>ISyncWireTransport\<close> as operations on the state \<open>'w\<close> of an
  implementation and its surroundings. A call of \<open>wt_recv\<close> that does not return has no place
  in this type: a client of the interface is modelled up to a call that returns.
  \<open>wt_stop_requested\<close> is the stop token that \<open>recv(std::stop_token)\<close> is given.
\<close>

record 'w wire_transport =
  wt_send :: "Buffer \<Rightarrow> ('w, unit) action"
  wt_recv :: "('w, Buffer) action"
  wt_recv_stoken :: "('w, Buffer) action"
  wt_getMaxMessageSize :: "'w \<Rightarrow> 16 word"
  wt_setTimeout :: "int \<Rightarrow> 'w \<Rightarrow> 'w"
  wt_stop_requested :: "'w \<Rightarrow> bool"

section \<open>The queue\<close>

record ipc_queue =
  queue :: "Buffer list"

datatype wait_event =
    Pushed Buffer
  | TimePasses nat
  | StopRequested
  | SpuriousWakeup

definition push :: "Buffer \<Rightarrow> ipc_queue \<Rightarrow> ipc_queue" where
  "push buffer q = q\<lparr> queue := queue q @ [buffer] \<rparr>"

text \<open>
  \<open>cv.wait_for(lk, timeout, pred)\<close>: returns at once when the predicate holds, else sleeps
  until it holds or the timeout (in microseconds) is over.
\<close>

fun wait_for :: "int \<Rightarrow> wait_event list \<Rightarrow> ipc_queue \<Rightarrow> ipc_queue option" where
  "wait_for timeout events q =
     (if queue q \<noteq> [] \<or> timeout \<le> 0 then Some q
      else case events of
        [] \<Rightarrow> None
      | Pushed b # events' \<Rightarrow> wait_for timeout events' (push b q)
      | TimePasses n # events' \<Rightarrow> wait_for (timeout - int n) events' q
      | StopRequested # events' \<Rightarrow> wait_for timeout events' q
      | SpuriousWakeup # events' \<Rightarrow> wait_for timeout events' q)"

text \<open>
  \<open>cv.wait_for(lk, stoken, timeout, pred)\<close>: as above, and a stop request ends the wait. The
  result also holds whether a stop was requested by then.
\<close>

fun wait_for_stoken ::
  "int \<Rightarrow> bool \<Rightarrow> wait_event list \<Rightarrow> ipc_queue \<Rightarrow> (bool \<times> ipc_queue) option" where
  "wait_for_stoken timeout stopped events q =
     (if stopped \<or> queue q \<noteq> [] \<or> timeout \<le> 0 then Some (stopped, q)
      else case events of
        [] \<Rightarrow> None
      | Pushed b # events' \<Rightarrow> wait_for_stoken timeout stopped events' (push b q)
      | TimePasses n # events' \<Rightarrow> wait_for_stoken (timeout - int n) stopped events' q
      | StopRequested # events' \<Rightarrow> wait_for_stoken timeout True events' q
      | SpuriousWakeup # events' \<Rightarrow> wait_for_stoken timeout stopped events' q)"

declare wait_for.simps [simp del] wait_for_stoken.simps [simp del]

text \<open>What \<open>pop\<close> does once it holds the mutex again.\<close>

definition take_front :: "ipc_queue \<Rightarrow> Buffer result \<times> ipc_queue" where
  "take_front q =
     (case queue q of
        [] \<Rightarrow> (throwR TransportTimeoutException, q)
      | buffer # rest \<Rightarrow> (Inr buffer, q\<lparr> queue := rest \<rparr>))"

definition pop ::
  "int \<Rightarrow> wait_event list \<Rightarrow> ipc_queue \<Rightarrow> (Buffer result \<times> ipc_queue) option" where
  "pop timeout events q = map_option take_front (wait_for timeout events q)"

text \<open>
  \<open>pop(timeout, stoken)\<close>. The stop token is read again after the wait, and a request that
  arrives in between (\<open>late_stop\<close>) counts.
\<close>

definition pop_stoken ::
  "int \<Rightarrow> bool \<Rightarrow> wait_event list \<Rightarrow> bool \<Rightarrow> ipc_queue \<Rightarrow> (Buffer result \<times> ipc_queue) option" where
  "pop_stoken timeout stopped events late_stop q =
     map_option (\<lambda>(stop, q'). if stop \<or> late_stop then (Inr [], q') else take_front q')
       (wait_for_stoken timeout stopped events q)"

section \<open>The paired transport\<close>

type_synonym queue_ptr = nat

record ipc_world =
  queues :: "queue_ptr \<Rightarrow> ipc_queue"
  next_queue :: queue_ptr
  log_lines :: "string list"

record paired_transport =
  tx_queue :: queue_ptr
  rx_queue :: queue_ptr
  ipc_max_message_size :: nat
  timeout :: int
  log :: bool

definition one_year_us :: int where
  "one_year_us = 31556952 * 1000000"

definition PairedIpcTransport :: "queue_ptr \<Rightarrow> queue_ptr \<Rightarrow> nat \<Rightarrow> bool \<Rightarrow> paired_transport" where
  "PairedIpcTransport tx rx max_size lg =
     \<lparr> tx_queue = tx, rx_queue = rx, ipc_max_message_size = max_size,
       timeout = one_year_us, log = lg \<rparr>"

definition hex_digit :: "nat \<Rightarrow> char" where
  "hex_digit n = char_of (if n < 10 then 48 + n else 87 + n)"

text \<open>The format \<open>{:02x} \<close> of one byte, and the two log lines.\<close>

definition hex_byte :: "byte \<Rightarrow> string" where
  "hex_byte b = [hex_digit (unat b div 16), hex_digit (unat b mod 16), CHR '' '']"

definition noise_line :: "string \<Rightarrow> Buffer \<Rightarrow> string" where
  "noise_line prefix buffer = prefix @ concat (map hex_byte buffer) @ '']''"

definition noise :: "paired_transport \<Rightarrow> string \<Rightarrow> Buffer \<Rightarrow> ipc_world \<Rightarrow> ipc_world" where
  "noise t prefix buffer w =
     (if log t
      then w\<lparr> log_lines := log_lines w @ [noise_line prefix buffer] \<rparr>
      else w)"

definition send :: "paired_transport \<Rightarrow> Buffer \<Rightarrow> ipc_world \<Rightarrow> ipc_world" where
  "send t buffer w =
     (let w = noise t ''send >>> [ '' buffer w
      in w\<lparr> queues := (queues w)(tx_queue t := push buffer (queues w (tx_queue t))) \<rparr>)"

definition recv ::
  "paired_transport \<Rightarrow> wait_event list \<Rightarrow> ipc_world \<Rightarrow> (Buffer result \<times> ipc_world) option" where
  "recv t events w =
     map_option
       (\<lambda>(r, q). let w' = w\<lparr> queues := (queues w)(rx_queue t := q) \<rparr>
          in case r of
               Inl e \<Rightarrow> (Inl e, w')
             | Inr buffer \<Rightarrow> (Inr buffer, noise t ''recv <<< [ '' buffer w'))
       (pop (timeout t) events (queues w (rx_queue t)))"

definition recv_stoken ::
  "paired_transport \<Rightarrow> bool \<Rightarrow> wait_event list \<Rightarrow> bool \<Rightarrow> ipc_world \<Rightarrow>
   (Buffer result \<times> ipc_world) option" where
  "recv_stoken t stopped events late_stop w =
     map_option (\<lambda>(r, q). (r, w\<lparr> queues := (queues w)(rx_queue t := q) \<rparr>))
       (pop_stoken (timeout t) stopped events late_stop (queues w (rx_queue t)))"

definition getMaxMessageSize :: "paired_transport \<Rightarrow> 16 word" where
  "getMaxMessageSize t = word_of_nat (ipc_max_message_size t)"

definition setTimeout :: "int \<Rightarrow> paired_transport \<Rightarrow> paired_transport" where
  "setTimeout new_timeout t = t\<lparr> timeout := new_timeout \<rparr>"

text \<open>\<open>std::make_shared<IpcTransportQueue>()\<close>: a fresh pointer to an empty queue.\<close>

definition make_shared_queue :: "ipc_world \<Rightarrow> queue_ptr \<times> ipc_world" where
  "make_shared_queue w =
     (next_queue w,
      w\<lparr> queues := (queues w)(next_queue w := \<lparr> queue = [] \<rparr>), next_queue := Suc (next_queue w) \<rparr>)"

definition makeSyncPairedIpcTransport ::
  "nat \<Rightarrow> ipc_world \<Rightarrow> (paired_transport \<times> paired_transport) \<times> ipc_world" where
  "makeSyncPairedIpcTransport max_size w =
     (let (q1, w) = make_shared_queue w;
          (q2, w) = make_shared_queue w
      in ((PairedIpcTransport q1 q2 max_size True, PairedIpcTransport q2 q1 max_size False), w))"

section \<open>Waiting\<close>

lemma wait_for_ready: "queue q \<noteq> [] \<Longrightarrow> wait_for t events q = Some q"
  by (simp add: wait_for.simps)

text \<open>The time that passes in a sequence of events, and the first buffer pushed in it.\<close>

definition time_in :: "wait_event list \<Rightarrow> nat" where
  "time_in events = sum_list (map (\<lambda>ev. case ev of TimePasses n \<Rightarrow> n | _ \<Rightarrow> 0) events)"

fun first_push :: "wait_event list \<Rightarrow> Buffer option" where
  "first_push [] = None"
| "first_push (Pushed b # events) = Some b"
| "first_push (_ # events) = first_push events"

lemma time_in_simps [simp]:
  "time_in [] = 0"
  "time_in (TimePasses n # events) = n + time_in events"
  "time_in (Pushed b # events) = time_in events"
  "time_in (StopRequested # events) = time_in events"
  "time_in (SpuriousWakeup # events) = time_in events"
  by (simp_all add: time_in_def)

text \<open>While nothing is pushed, a wait on an empty queue only uses up its timeout.\<close>

lemma wait_for_idle:
  "queue q = [] \<Longrightarrow> first_push idle = None \<Longrightarrow>
     wait_for t (idle @ events) q =
       (if t \<le> int (time_in idle) then Some q else wait_for (t - int (time_in idle)) events q)"
proof (induction idle arbitrary: t)
  case Nil
  then show ?case by (simp add: wait_for.simps)
next
  case (Cons ev idle)
  then show ?case
    by (subst wait_for.simps) (auto split: wait_event.split simp: algebra_simps)
qed

lemma wait_for_stoken_keeps:
  "wait_for_stoken t stopped events q = Some (stop, q') \<Longrightarrow>
     \<exists>arrived. queue q' = queue q @ arrived"
proof (induction events arbitrary: t q stopped)
  case Nil
  then show ?case by (auto simp: wait_for_stoken.simps split: if_splits)
next
  case (Cons ev events)
  from Cons.prems show ?case
    by (subst (asm) wait_for_stoken.simps)
       (auto split: if_splits wait_event.splits dest!: Cons.IH simp: push_def)
qed

text \<open>A thread that is asleep wakes up on a stop request, with the queue as it was.\<close>

lemma wait_for_stoken_ready: "queue q \<noteq> [] \<Longrightarrow> wait_for_stoken t s events q = Some (s, q)"
  by (simp add: wait_for_stoken.simps)

lemma wait_for_stoken_woken:
  "wait_for_stoken t s events q = None \<Longrightarrow>
     wait_for_stoken t s (events @ StopRequested # later) q = Some (True, q)"
proof (induction events arbitrary: t s)
  case Nil
  then show ?case by (auto simp: wait_for_stoken.simps split: if_splits)
next
  case (Cons ev events)
  have pushed: "wait_for_stoken t s events (push b q) = Some (s, push b q)" for b s
    by (simp add: push_def wait_for_stoken_ready)
  from Cons.prems show ?case
    by (subst wait_for_stoken.simps, subst (asm) wait_for_stoken.simps)
       (auto split: if_splits wait_event.splits dest: Cons.IH simp: pushed)
qed

lemma wait_for_stoken_no_stop:
  "StopRequested \<notin> set events \<Longrightarrow>
     wait_for_stoken t False events q = map_option (Pair False) (wait_for t events q)"
proof (induction events arbitrary: t q)
  case Nil
  then show ?case by (simp add: wait_for_stoken.simps wait_for.simps)
next
  case (Cons ev events)
  then show ?case
    by (subst wait_for_stoken.simps, subst wait_for.simps) (auto split: wait_event.splits)
qed

section \<open>First in, first out\<close>

text \<open>
  The contract of a channel, for a sender that puts and a receiver that waits a given time: the
  receiver gets the oldest buffer, or times out on an empty channel and leaves it alone.
  \<open>Other\<close> stands for what else happens around the channel.
\<close>

datatype 's channel_op = Put Buffer | Get nat | Other "'s \<Rightarrow> 's"

fun puts :: "'s channel_op list \<Rightarrow> Buffer list" where
  "puts [] = []"
| "puts (Put b # ops) = b # puts ops"
| "puts (_ # ops) = puts ops"

fun channel_run ::
  "(Buffer \<Rightarrow> 's \<Rightarrow> 's) \<Rightarrow> (nat \<Rightarrow> 's \<Rightarrow> (Buffer result \<times> 's) option) \<Rightarrow> 's channel_op list \<Rightarrow> 's \<Rightarrow>
   Buffer list \<times> 's" where
  "channel_run put get [] s = ([], s)"
| "channel_run put get (Put b # ops) s = channel_run put get ops (put b s)"
| "channel_run put get (Other f # ops) s = channel_run put get ops (f s)"
| "channel_run put get (Get n # ops) s =
     (case get n s of
        None \<Rightarrow> channel_run put get ops s
      | Some (Inl e, s') \<Rightarrow> channel_run put get ops s'
      | Some (Inr b, s') \<Rightarrow> (let (bs, s'') = channel_run put get ops s' in (b # bs, s'')))"

locale fifo_channel =
  fixes put :: "Buffer \<Rightarrow> 's \<Rightarrow> 's"
    and get :: "nat \<Rightarrow> 's \<Rightarrow> (Buffer result \<times> 's) option"
    and pending :: "'s \<Rightarrow> Buffer list"
  assumes pending_put: "pending (put b s) = pending s @ [b]"
    and get_front: "pending s = b # bs \<Longrightarrow> \<exists>s'. get n s = Some (Inr b, s') \<and> pending s' = bs"
    and get_empty: "pending s = [] \<Longrightarrow>
      get n s = None \<or> get n s = Some (Inl TransportTimeoutException, s)"
begin

lemma get_pending:
  "get n s = Some (Inr b, s') \<Longrightarrow> pending s = b # pending s'"
  using get_front [of s _ _ n] get_empty [of s n] by (cases "pending s") fastforce+

lemma get_timeout:
  "get n s = Some (Inl e, s') \<Longrightarrow> e = TransportTimeoutException \<and> s' = s \<and> pending s = []"
  using get_front [of s _ _ n] get_empty [of s n] by (cases "pending s") fastforce+

lemma delivered_in_order:
  assumes "\<And>f s. Other f \<in> set ops \<Longrightarrow> pending (f s) = pending s"
    and "channel_run put get ops s = (got, s')"
  shows "got @ pending s' = pending s @ puts ops"
  using assms
proof (induction ops arbitrary: s got)
  case (Cons op ops)
  show ?case
  proof (cases op)
    case (Get n)
    consider "get n s = None" | "get n s = Some (Inl TransportTimeoutException, s)"
      | b r where "get n s = Some (Inr b, r)" "pending s = b # pending r"
      using get_empty [of s n] get_front [of s _ _ n] by (cases "pending s") fastforce+
    then show ?thesis
      using Cons Get by cases (auto split: prod.splits)
  qed (use Cons in \<open>simp_all add: pending_put\<close>)
qed simp

end

lemma take_front_simps [simp]:
  "queue q = [] \<Longrightarrow> take_front q = (Inl TransportTimeoutException, q)"
  "queue q = b # bs \<Longrightarrow> take_front q = (Inr b, q\<lparr> queue := bs \<rparr>)"
  by (simp_all add: take_front_def)

lemma pop_front: "queue q = b # bs \<Longrightarrow> pop t events q = Some (Inr b, q\<lparr> queue := bs \<rparr>)"
  by (simp add: pop_def wait_for_ready)

lemma pop_empty:
  "queue q = [] \<Longrightarrow> first_push events = None \<Longrightarrow>
     pop t events q = None \<or> pop t events q = Some (Inl TransportTimeoutException, q)"
  using wait_for_idle [of q events t "[]"]
  by (auto simp: pop_def wait_for.simps [of _ "[]"])

interpretation queue_channel: fifo_channel push "\<lambda>n. pop t [TimePasses n]" queue for t :: int
  by unfold_locales (auto simp: push_def pop_front pop_empty)

section \<open>Both ends of a pair\<close>

lemma queues_noise [simp]: "queues (noise t pre b w) = queues w"
  by (simp add: noise_def)

locale channel_ends =
  fixes tx_end rx_end :: paired_transport
  assumes joined: "tx_queue tx_end = rx_queue rx_end"

sublocale channel_ends \<subseteq> fifo_channel "send tx_end" "\<lambda>n. recv rx_end [TimePasses n]"
  "\<lambda>w. queue (queues w (rx_queue rx_end))"
proof
  fix b bs n w
  show "queue (queues (send tx_end b w) (rx_queue rx_end)) =
      queue (queues w (rx_queue rx_end)) @ [b]"
    by (simp add: send_def Let_def joined push_def)
  show "\<exists>w'. recv rx_end [TimePasses n] w = Some (Inr b, w') \<and>
      queue (queues w' (rx_queue rx_end)) = bs"
    if "queue (queues w (rx_queue rx_end)) = b # bs"
    using that by (simp add: recv_def pop_front Let_def)
  show "recv rx_end [TimePasses n] w = None \<or>
      recv rx_end [TimePasses n] w = Some (Inl TransportTimeoutException, w)"
    if "queue (queues w (rx_queue rx_end)) = []"
    using pop_empty [OF that, of "[TimePasses n]" "timeout rx_end"]
    by (auto simp: recv_def Let_def)
qed

context channel_ends begin

lemmas in_order = delivered_in_order
lemmas received = get_pending
lemmas timed_out = get_timeout

end

text \<open>The two transports the factory returns, and what the two ends can do with them.\<close>

definition client_end :: "nat \<Rightarrow> ipc_world \<Rightarrow> paired_transport" where
  "client_end n w = fst (fst (makeSyncPairedIpcTransport n w))"

definition server_end :: "nat \<Rightarrow> ipc_world \<Rightarrow> paired_transport" where
  "server_end n w = snd (fst (makeSyncPairedIpcTransport n w))"

definition paired_world :: "nat \<Rightarrow> ipc_world \<Rightarrow> ipc_world" where
  "paired_world n w = snd (makeSyncPairedIpcTransport n w)"

lemmas pair_defs = client_end_def server_end_def paired_world_def
  makeSyncPairedIpcTransport_def make_shared_queue_def PairedIpcTransport_def Let_def

lemma pair_queues [simp]:
  "tx_queue (client_end n w) = next_queue w" "rx_queue (server_end n w) = next_queue w"
  "tx_queue (server_end n w) = Suc (next_queue w)" "rx_queue (client_end n w) = Suc (next_queue w)"
  "queue (queues (paired_world n w) (next_queue w)) = []"
  "queue (queues (paired_world n w) (Suc (next_queue w))) = []"
  by (simp_all add: pair_defs)

interpretation to_server: channel_ends "client_end n w" "server_end n w"
  for n :: nat and w :: ipc_world
  by unfold_locales simp

interpretation to_client: channel_ends "server_end n w" "client_end n w"
  for n :: nat and w :: ipc_world
  by unfold_locales simp

datatype pair_op =
    ClientSend Buffer | ServerSend Buffer | ClientRecv nat | ServerRecv nat

fun client_sends :: "pair_op list \<Rightarrow> Buffer list" where
  "client_sends [] = []"
| "client_sends (ClientSend b # ops) = b # client_sends ops"
| "client_sends (_ # ops) = client_sends ops"

fun server_sends :: "pair_op list \<Rightarrow> Buffer list" where
  "server_sends [] = []"
| "server_sends (ServerSend b # ops) = b # server_sends ops"
| "server_sends (_ # ops) = server_sends ops"

text \<open>
  Running operations of both ends in a given order; a receive that is still asleep after its
  time has no effect. The result holds what each end received.
\<close>

fun pair_run ::
  "paired_transport \<Rightarrow> paired_transport \<Rightarrow> pair_op list \<Rightarrow> ipc_world \<Rightarrow>
   Buffer list \<times> Buffer list \<times> ipc_world" where
  "pair_run c s [] w = ([], [], w)"
| "pair_run c s (ClientSend b # ops) w = pair_run c s ops (send c b w)"
| "pair_run c s (ServerSend b # ops) w = pair_run c s ops (send s b w)"
| "pair_run c s (ClientRecv n # ops) w =
     (case recv c [TimePasses n] w of
        Some (Inr b, w') \<Rightarrow> (let (cs, ss, w'') = pair_run c s ops w' in (b # cs, ss, w''))
      | Some (Inl e, w') \<Rightarrow> pair_run c s ops w'
      | None \<Rightarrow> pair_run c s ops w)"
| "pair_run c s (ServerRecv n # ops) w =
     (case recv s [TimePasses n] w of
        Some (Inr b, w') \<Rightarrow> (let (cs, ss, w'') = pair_run c s ops w' in (cs, b # ss, w''))
      | Some (Inl e, w') \<Rightarrow> pair_run c s ops w'
      | None \<Rightarrow> pair_run c s ops w)"

text \<open>The same run seen from one direction: the operations of the other one are \<open>Other\<close>.\<close>

definition after_recv :: "paired_transport \<Rightarrow> nat \<Rightarrow> ipc_world \<Rightarrow> ipc_world" where
  "after_recv t n w = (case recv t [TimePasses n] w of None \<Rightarrow> w | Some (r, w') \<Rightarrow> w')"

fun to_server_op :: "paired_transport \<Rightarrow> paired_transport \<Rightarrow> pair_op \<Rightarrow> ipc_world channel_op" where
  "to_server_op c s (ClientSend b) = Put b"
| "to_server_op c s (ServerRecv n) = Get n"
| "to_server_op c s (ServerSend b) = Other (send s b)"
| "to_server_op c s (ClientRecv n) = Other (after_recv c n)"

fun to_client_op :: "paired_transport \<Rightarrow> paired_transport \<Rightarrow> pair_op \<Rightarrow> ipc_world channel_op" where
  "to_client_op c s (ServerSend b) = Put b"
| "to_client_op c s (ClientRecv n) = Get n"
| "to_client_op c s (ClientSend b) = Other (send c b)"
| "to_client_op c s (ServerRecv n) = Other (after_recv s n)"

lemma pair_run_to_server:
  "channel_run (send c) (\<lambda>n. recv s [TimePasses n]) (map (to_server_op c s) ops) w =
     (let (cs, ss, w') = pair_run c s ops w in (ss, w'))"
  by (induction c s ops w rule: pair_run.induct)
     (auto simp: Let_def after_recv_def split: prod.splits option.splits sum.splits)

lemma pair_run_to_client:
  "channel_run (send s) (\<lambda>n. recv c [TimePasses n]) (map (to_client_op c s) ops) w =
     (let (cs, ss, w') = pair_run c s ops w in (cs, w'))"
  by (induction c s ops w rule: pair_run.induct)
     (auto simp: Let_def after_recv_def split: prod.splits option.splits sum.splits)

lemma puts_to_server [simp]: "puts (map (to_server_op c s) ops) = client_sends ops"
  by (induction ops rule: client_sends.induct) simp_all

lemma puts_to_client [simp]: "puts (map (to_client_op c s) ops) = server_sends ops"
  by (induction ops rule: server_sends.induct) simp_all

text \<open>An operation of one direction leaves the queue of the other one alone.\<close>

lemma send_other [simp]: "tx_queue t \<noteq> p \<Longrightarrow> queues (send t b w) p = queues w p"
  by (simp add: send_def Let_def)

lemma recv_other: "recv t events w = Some (r, w') \<Longrightarrow> rx_queue t \<noteq> p \<Longrightarrow> queues w' p = queues w p"
  by (auto simp: recv_def Let_def) (auto split: sum.split_asm)

lemma after_recv_other [simp]: "rx_queue t \<noteq> p \<Longrightarrow> queues (after_recv t n w) p = queues w p"
  by (auto simp: after_recv_def recv_other split: option.split)

lemma to_server_op_frame:
  assumes "Other f \<in> set (map (to_server_op c s) ops)"
    and "tx_queue s \<noteq> p" and "rx_queue c \<noteq> p"
  shows "queue (queues (f w) p) = queue (queues w p)"
proof -
  obtain op where "to_server_op c s op = Other f" using assms(1) by auto
  with assms(2,3) show ?thesis by (cases op) auto
qed

lemma to_client_op_frame:
  assumes "Other f \<in> set (map (to_client_op c s) ops)"
    and "tx_queue c \<noteq> p" and "rx_queue s \<noteq> p"
  shows "queue (queues (f w) p) = queue (queues w p)"
proof -
  obtain op where "to_client_op c s op = Other f" using assms(1) by auto
  with assms(2,3) show ?thesis by (cases op) auto
qed

text \<open>A receive during which nothing is pushed.\<close>

lemma pop_quiet:
  assumes "pop t events q = Some (r, q')" and "first_push events = None"
  shows "(\<exists>b. r = Inr b \<and> queue q = b # queue q') \<or>
    r = Inl TransportTimeoutException \<and> q' = q \<and> queue q = []"
proof (cases "queue q")
  case Nil
  with assms pop_empty [OF Nil assms(2), of t] show ?thesis by auto
next
  case (Cons b bs)
  with assms(1) show ?thesis by (auto simp: pop_front)
qed

lemma recv_popD:
  assumes "recv t events w = Some (r, w')"
  shows "\<exists>q'. pop (timeout t) events (queues w (rx_queue t)) = Some (r, q') \<and>
    queues w' = (queues w)(rx_queue t := q') \<and>
    (\<forall>e. r = Inl e \<longrightarrow> w' = w\<lparr> queues := (queues w)(rx_queue t := q') \<rparr>)"
  using assms by (auto simp: recv_def Let_def) (auto split: sum.split_asm)

lemma recv_quiet_Inr:
  assumes "recv t events w = Some (Inr b, w')" and "first_push events = None"
  shows "queue (queues w (rx_queue t)) = b # queue (queues w' (rx_queue t)) \<and>
    (\<forall>p. p \<noteq> rx_queue t \<longrightarrow> queues w' p = queues w p)"
  using recv_popD [OF assms(1)] pop_quiet [OF _ assms(2)] by fastforce

lemma recv_quiet_Inl:
  assumes "recv t events w = Some (Inl e, w')" and "first_push events = None"
  shows "e = TransportTimeoutException \<and> w' = w \<and> queue (queues w (rx_queue t)) = []"
  using recv_popD [OF assms(1)] pop_quiet [OF _ assms(2)] by fastforce

lemma recv_stoken_plain:
  assumes "StopRequested \<notin> set events"
  shows "recv_stoken t False events False w = recv (t\<lparr> log := False \<rparr>) events w"
proof -
  have quiet: "noise (t\<lparr> log := False \<rparr>) pre b w' = w'" for pre b w'
    by (simp add: noise_def)
  show ?thesis
    using assms
    by (simp add: recv_stoken_def recv_def pop_stoken_def pop_def wait_for_stoken_no_stop
        option.map_comp o_def Let_def split_def)
      (auto intro!: option.map_cong simp: quiet split: sum.split)
qed

lemma recv_front:
  assumes "queue (queues w (rx_queue t)) = b # bs"
  shows "\<exists>w'. recv t events w = Some (Inr b, w')"
  using assms by (simp add: recv_def pop_front Let_def)

section \<open>The paired transport behind the interface\<close>

text \<open>
  An end and the world its pointers point into, as an \<open>ISyncWireTransport\<close>: each of its waits
  is one during which its timeout passes and nothing else happens, and no stop is requested.
\<close>

definition patient_recv :: "(paired_transport \<times> ipc_world, Buffer) action" where
  "patient_recv = (\<lambda>(t, w).
     case recv t [TimePasses (nat (timeout t))] w of
        None \<Rightarrow> (Inl TransportTimeoutException, t, w)
      | Some (r, w') \<Rightarrow> (r, t, w'))"

definition patient_recv_stoken :: "(paired_transport \<times> ipc_world, Buffer) action" where
  "patient_recv_stoken = (\<lambda>(t, w).
     case recv_stoken t False [TimePasses (nat (timeout t))] False w of
        None \<Rightarrow> (Inl TransportTimeoutException, t, w)
      | Some (r, w') \<Rightarrow> (r, t, w'))"

definition ipc_transport :: "(paired_transport \<times> ipc_world) wire_transport" where
  "ipc_transport =
     \<lparr> wt_send = (\<lambda>buf (t, w). (Inr (), t, send t buf w)), wt_recv = patient_recv,
       wt_recv_stoken = patient_recv_stoken,
       wt_getMaxMessageSize = (\<lambda>(t, w). getMaxMessageSize t),
       wt_setTimeout = (\<lambda>us (t, w). (setTimeout us t, w)), wt_stop_requested = (\<lambda>_. False) \<rparr>"

lemma ipc_transport_send [simp]: "wt_send ipc_transport buf (t, w) = (Inr (), t, send t buf w)"
  by (simp add: ipc_transport_def)

section \<open>A scripted transport\<close>

text \<open>
  A transport for the witnesses: it records what is sent, and its receives return a prepared
  list of buffers, then time out.
\<close>

fun scripted_recv :: "(Buffer list \<times> Buffer list, Buffer) action" where
  "scripted_recv (sent, []) = (Inl TransportTimeoutException, sent, [])"
| "scripted_recv (sent, b # bs) = (Inr b, sent, bs)"

definition scripted_transport :: "(Buffer list \<times> Buffer list) wire_transport" where
  "scripted_transport =
     \<lparr> wt_send = (\<lambda>buf (sent, bs). (Inr (), sent @ [buf], bs)), wt_recv = scripted_recv,
       wt_recv_stoken = scripted_recv, wt_getMaxMessageSize = (\<lambda>w. 512),
       wt_setTimeout = (\<lambda>t w. w), wt_stop_requested = (\<lambda>w. False) \<rparr>"

lemma scripted_transport_simps [simp]:
  "wt_send scripted_transport buf (sent, bs) = (Inr (), sent @ [buf], bs)"
  "wt_recv scripted_transport = scripted_recv"
  "wt_recv_stoken scripted_transport = scripted_recv"
  "wt_getMaxMessageSize scripted_transport w = 512"
  "wt_stop_requested scripted_transport w = False"
  by (simp_all add: scripted_transport_def)

section \<open>Properties\<close>

definition ipc_empty :: ipc_world where
  "ipc_empty = \<lparr> queues = \<lambda>p. \<lparr> queue = [] \<rparr>, next_queue = 0, log_lines = [] \<rparr>"

text \<open>
  C27. The two ends of \<open>makeSyncPairedIpcTransport\<close> carry messages both ways and keep their
  order: after any sequence of sends and receives by both, what the server end received,
  followed by what still waits for it, is exactly what the client end sent; and the same for
  the other direction. No message is lost, made up, repeated or delivered to its sender.
\<close>

theorem paired_transport_fifo:
  assumes "pair_run (client_end n w) (server_end n w) ops (paired_world n w) = (cs, ss, w')"
  shows "ss @ queue (queues w' (rx_queue (server_end n w))) = client_sends ops \<and>
    cs @ queue (queues w' (rx_queue (client_end n w))) = server_sends ops"
proof
  let ?c = "client_end n w" and ?s = "server_end n w"
  have "channel_run (send ?c) (\<lambda>n. recv ?s [TimePasses n]) (map (to_server_op ?c ?s) ops)
      (paired_world n w) = (ss, w')"
    by (simp add: pair_run_to_server assms)
  from to_server.in_order [OF _ this]
  show "ss @ queue (queues w' (rx_queue ?s)) = client_sends ops"
    using to_server_op_frame [of _ ?c ?s ops "next_queue w"] by simp
  have "channel_run (send ?s) (\<lambda>n. recv ?c [TimePasses n]) (map (to_client_op ?c ?s) ops)
      (paired_world n w) = (cs, w')"
    by (simp add: pair_run_to_client assms)
  from to_client.in_order [OF _ this]
  show "cs @ queue (queues w' (rx_queue ?c)) = server_sends ops"
    using to_client_op_frame [of _ ?c ?s ops "Suc (next_queue w)"] by simp
qed

theorem paired_transport_fifo_witness:
  "fst (snd (pair_run (client_end 512 ipc_empty) (server_end 512 ipc_empty)
     [ClientSend [1], ServerSend [9], ClientSend [2], ServerRecv 5, ServerRecv 5]
     (paired_world 512 ipc_empty))) = [[1], [2]]"
proof -
  let ?ops = "[ClientSend [1], ServerSend [9], ClientSend [2], ServerRecv 5, ServerRecv 5]"
  obtain cs ss w' where run: "pair_run (client_end 512 ipc_empty) (server_end 512 ipc_empty)
      ?ops (paired_world 512 ipc_empty) = (cs, ss, w')" by (metis prod_cases3)
  have "queue (queues w' 0) = []"
    using run by (auto simp: recv_def send_def Let_def pop_front push_def pair_defs noise_def
        ipc_empty_def split: if_splits)
  with paired_transport_fifo [OF run] run show ?thesis
    by (simp add: ipc_empty_def)
qed

text \<open>
  C28. A receive on a queue that holds a message returns the oldest one without waiting. On an
  empty queue it sleeps while nothing is pushed and its timeout is not over, and no longer: a
  push wakes it up and is its result, and when the timeout is over first the result is
  \<open>TransportTimeoutException\<close> and nothing has changed.
\<close>

theorem recv_outcome:
  "let p = rx_queue t; q = queue (queues w p); asleep = int (time_in idle) < timeout t in
   (\<forall>bs. q = b # bs \<longrightarrow> (\<exists>w'. recv t events w = Some (Inr b, w') \<and> queue (queues w' p) = bs)) \<and>
   (q = [] \<and> first_push idle = None \<and> \<not> asleep \<longrightarrow>
      recv t (idle @ events) w = Some (Inl TransportTimeoutException, w)) \<and>
   (q = [] \<and> first_push idle = None \<and> asleep \<longrightarrow>
      recv t idle w = None \<and>
      (\<exists>w'. recv t (idle @ Pushed b # events) w = Some (Inr b, w') \<and> queue (queues w' p) = []))"
proof -
  let ?q = "queues w (rx_queue t)"
  have "wait_for (timeout t) idle ?q = None" and
    "wait_for (timeout t) (idle @ Pushed b # events) ?q = Some (push b ?q)"
    if "queue ?q = []" and "first_push idle = None" and "int (time_in idle) < timeout t"
    using that wait_for_idle [of ?q idle "timeout t" "[]"]
      wait_for_idle [of ?q idle "timeout t" "Pushed b # events"]
    by (simp_all add: wait_for.simps [of _ "[]"] wait_for.simps [of _ "Pushed b # events"]
        wait_for_ready push_def)
  moreover have "wait_for (timeout t) (idle @ events) ?q = Some ?q"
    if "queue ?q = []" and "first_push idle = None" and "\<not> int (time_in idle) < timeout t"
    using that by (simp add: wait_for_idle)
  ultimately show ?thesis
    by (auto simp: Let_def recv_def pop_def wait_for_ready push_def)
qed

theorem recv_outcome_witness:
  "recv (client_end 512 ipc_empty) [TimePasses (nat one_year_us)] ipc_empty
     = Some (Inl TransportTimeoutException, ipc_empty)"
  using recv_outcome [of "client_end 512 ipc_empty" ipc_empty "[TimePasses (nat one_year_us)]"
      "[]" "[]"]
  by (simp add: Let_def pair_defs ipc_empty_def one_year_us_def)

text \<open>
  C29. A stop request wins over everything else that can end the receive of the server: one that
  is there before the call, one that arrives while the call sleeps and one that arrives just
  after it woke up all make it return an empty buffer, and no message is taken from the queue.
  Without a stop request the call is the plain receive, but for the log.
\<close>

theorem stop_wins:
  "recv_stoken t True events late w = Some (Inr [], w) \<and>
   (recv_stoken t False events late w = None \<longrightarrow>
      recv_stoken t False (events @ StopRequested # later) late w = Some (Inr [], w)) \<and>
   (\<forall>r w'. recv_stoken t False events True w = Some (r, w') \<longrightarrow>
      r = Inr [] \<and> (\<exists>arrived. queue (queues w' (rx_queue t)) =
        queue (queues w (rx_queue t)) @ arrived)) \<and>
   (StopRequested \<notin> set events \<longrightarrow>
      recv_stoken t False events False w = recv (t\<lparr> log := False \<rparr>) events w)"
proof (intro conjI allI impI)
  show "recv_stoken t True events late w = Some (Inr [], w)"
    by (simp add: recv_stoken_def pop_stoken_def wait_for_stoken.simps)
  show "recv_stoken t False (events @ StopRequested # later) late w = Some (Inr [], w)"
    if "recv_stoken t False events late w = None"
    using that wait_for_stoken_woken [of "timeout t" False events "queues w (rx_queue t)"]
    by (simp add: recv_stoken_def pop_stoken_def)
next
  fix r w' assume "recv_stoken t False events True w = Some (r, w')"
  then show "r = Inr []" and "\<exists>arrived. queue (queues w' (rx_queue t)) =
      queue (queues w (rx_queue t)) @ arrived"
    by (auto simp: recv_stoken_def pop_stoken_def dest: wait_for_stoken_keeps)
next
  assume "StopRequested \<notin> set events"
  then show "recv_stoken t False events False w = recv (t\<lparr> log := False \<rparr>) events w"
    by (rule recv_stoken_plain)
qed

theorem stop_wins_witness:
  "recv_stoken (server_end 512 ipc_empty) False [TimePasses 3, StopRequested] False ipc_empty
     = Some (Inr [], ipc_empty)"
  using stop_wins [of "server_end 512 ipc_empty" "[TimePasses 3]" False ipc_empty "[]"]
  by (simp add: recv_stoken_def pop_stoken_def wait_for_stoken.simps pair_defs ipc_empty_def
      one_year_us_def)

end
