(* ===== verification/Rtf_Interface.thy ===== *)
theory Rtf_Interface
  imports Rap_Types
begin

text \<open>
  The class \<open>RTF::IRegisterTarget\<close> of the Register Target Framework, whose source is not in the
  repository: only the virtual functions that this code overrides or calls, as a record of
  operations over the state \<open>'s\<close> of an implementation. A \<open>std::span\<close> that a read fills in is
  part of the state the operation runs on; it keeps what was written to it when the operation
  throws. That an operation cannot change the number of elements of a span it is given is a
  property of \<open>std::span\<close>, stated as \<open>spans_kept\<close>.
\<close>

type_synonym ('s, 'd, 'r) span_action = "('s \<times> 'd list, 'r) action"

record ('s, 'a, 'd) register_target =
  rt_write :: "'a \<Rightarrow> 'd \<Rightarrow> ('s, unit) action"
  rt_read :: "'a \<Rightarrow> ('s, 'd) action"
  rt_readModifyWrite :: "'a \<Rightarrow> 'd \<Rightarrow> 'd \<Rightarrow> ('s, unit) action"
  rt_seqWrite :: "'a \<Rightarrow> 'd list \<Rightarrow> nat \<Rightarrow> ('s, unit) action"
  rt_seqRead :: "'a \<Rightarrow> nat \<Rightarrow> ('s, 'd, unit) span_action"
  rt_fifoWrite :: "'a \<Rightarrow> 'd list \<Rightarrow> ('s, unit) action"
  rt_fifoRead :: "'a \<Rightarrow> ('s, 'd, unit) span_action"
  rt_compWrite :: "('a \<times> 'd) list \<Rightarrow> ('s, unit) action"
  rt_compRead :: "'a list \<Rightarrow> ('s, 'd, unit) span_action"

definition span_kept :: "('s, 'd, 'r) span_action \<Rightarrow> bool" where
  "span_kept m \<longleftrightarrow> (\<forall>s out r s' out'. m (s, out) = (r, s', out') \<longrightarrow> length out' = length out)"

definition spans_kept :: "('s, 'a, 'd) register_target \<Rightarrow> bool" where
  "spans_kept t \<longleftrightarrow> (\<forall>a i. span_kept (rt_seqRead t a i)) \<and> (\<forall>a. span_kept (rt_fifoRead t a)) \<and>
     (\<forall>as. span_kept (rt_compRead t as))"

text \<open>
  The contract between a target and the code that hands it spans: \<open>rtf_target\<close> is what the server
  relies on, and what the client object is shown to provide in its turn.
\<close>

locale rtf_target =
  fixes target :: "('s, 'a::len word, 'd::len word) register_target"
  assumes spans: "spans_kept target"
begin

lemma seqRead_kept: "span_kept (rt_seqRead target a i)"
  and fifoRead_kept: "span_kept (rt_fifoRead target a)"
  and compRead_kept: "span_kept (rt_compRead target as)"
  using spans by (simp_all add: spans_kept_def)

lemma seqRead_length: "rt_seqRead target a i (s, out) = (r, s', out') \<Longrightarrow> length out' = length out"
  and compRead_length: "rt_compRead target as (s, out) = (r, s', out') \<Longrightarrow> length out' = length out"
  using seqRead_kept compRead_kept by (simp_all add: span_kept_def)

end

section \<open>A concrete target\<close>

text \<open>
  A register file for the witnesses and interpretations: a function from addresses to values;
  address zero is out of order and throws.
\<close>

definition broken :: exn where
  "broken = ForeignException ''register out of order''"

definition file_read :: "'a::len word \<Rightarrow> ('a word \<Rightarrow> 'd, 'd) action" where
  "file_read a f = (if a = 0 then (Inl broken, f) else (Inr (f a), f))"

definition file_write :: "'a::len word \<Rightarrow> 'd \<Rightarrow> ('a word \<Rightarrow> 'd, unit) action" where
  "file_write a d f = (if a = 0 then (Inl broken, f) else (Inr (), f(a := d)))"

fun file_read_list :: "'a::len word list \<Rightarrow> ('a word \<Rightarrow> 'd, 'd list) action" where
  "file_read_list [] f = (Inr [], f)"
| "file_read_list (a # as) f =
     bindA (file_read a) (\<lambda>d. bindA (file_read_list as) (\<lambda>ds. liftA (Inr (d # ds)))) f"

fun file_write_list :: "('a::len word \<times> 'd) list \<Rightarrow> ('a word \<Rightarrow> 'd, unit) action" where
  "file_write_list [] f = (Inr (), f)"
| "file_write_list ((a, d) # ads) f = bindA (file_write a d) (\<lambda>_. file_write_list ads) f"

definition addresses_from :: "'a::len word \<Rightarrow> nat \<Rightarrow> nat \<Rightarrow> 'a word list" where
  "addresses_from a inc n = map (\<lambda>i. a + word_of_nat (i * inc)) [0..<n]"

definition fill_span :: "('s, 'd list) action \<Rightarrow> ('s, 'd, unit) span_action" where
  "fill_span m = (\<lambda>(s, out). case m s of
       (Inl e, s') \<Rightarrow> (Inl e, s', out)
     | (Inr ds, s') \<Rightarrow> (Inr (), s', take (length out) ds @ drop (length ds) out))"

definition register_file ::
  "('a::len word \<Rightarrow> 'd::len word, 'a word, 'd word) register_target" where
  "register_file =
     \<lparr> rt_write = file_write,
       rt_read = file_read,
       rt_readModifyWrite = (\<lambda>a d m.
         bindA (file_read a) (\<lambda>old. file_write a (old AND NOT m OR d AND m))),
       rt_seqWrite = (\<lambda>a ds inc. file_write_list (zip (addresses_from a inc (length ds)) ds)),
       rt_seqRead = (\<lambda>a inc (f, out).
         fill_span (file_read_list (addresses_from a inc (length out))) (f, out)),
       rt_fifoWrite = (\<lambda>a ds. file_write_list (map (Pair a) ds)),
       rt_fifoRead = (\<lambda>a (f, out). fill_span (file_read_list (replicate (length out) a)) (f, out)),
       rt_compWrite = file_write_list,
       rt_compRead = (\<lambda>as. fill_span (file_read_list as)) \<rparr>"

text \<open>A base class whose operations all throw, and are never reached by the witnesses.\<close>

definition unsupported :: "('s, 'a, 'd) register_target" where
  "unsupported =
     \<lparr> rt_write = (\<lambda>a d s. (Inl broken, s)), rt_read = (\<lambda>a s. (Inl broken, s)),
       rt_readModifyWrite = (\<lambda>a d m s. (Inl broken, s)),
       rt_seqWrite = (\<lambda>a ds i s. (Inl broken, s)), rt_seqRead = (\<lambda>a i s. (Inl broken, s)),
       rt_fifoWrite = (\<lambda>a ds s. (Inl broken, s)), rt_fifoRead = (\<lambda>a s. (Inl broken, s)),
       rt_compWrite = (\<lambda>ads s. (Inl broken, s)), rt_compRead = (\<lambda>as s. (Inl broken, s)) \<rparr>"

lemma span_kept_fill_span [simp]: "span_kept (fill_span m)"
  by (auto simp: span_kept_def fill_span_def split: sum.splits prod.splits)

lemma spans_kept_register_file [simp]: "spans_kept register_file"
  using span_kept_fill_span by (fastforce simp: spans_kept_def register_file_def span_kept_def)

interpretation file_target: rtf_target register_file
  by unfold_locales simp

lemma guarded_file [simp, intro]:
  "guarded (file_read a)" "guarded (file_write a d)" "guarded (file_read_list as)"
  "guarded (file_write_list ads)"
proof -
  show read: "guarded (file_read a)" and wr: "guarded (file_write a d)" for a d
    by (simp_all add: guarded_def file_read_def file_write_def broken_def)
  show "guarded (file_read_list as)"
  proof (induction as)
    case (Cons a as)
    have "file_read_list (a # as) =
        bindA (file_read a) (\<lambda>d. bindA (file_read_list as) (\<lambda>ds. liftA (Inr (d # ds))))"
      by (rule ext) simp
    with read Cons show ?case by (auto intro!: guarded_intros)
  qed (simp add: guarded_def)
  show "guarded (file_write_list ads)"
  proof (induction ads)
    case (Cons ad ads)
    have "file_write_list ((a, d) # ads) = bindA (file_write a d) (\<lambda>_. file_write_list ads)" for a d
      by (rule ext) simp
    with wr Cons show ?case by (cases ad) (auto intro!: guarded_intros)
  qed (simp add: guarded_def)
qed

lemma guarded_fill_span:
  assumes "\<And>n. guarded (g n)"
  shows "guarded (fill_span (g k))"
    and "guarded (\<lambda>(f, out). fill_span (g (length out)) (f, out))"
proof -
  have "handled (fst (fill_span (g n) (f, out)))" for n f out
  proof -
    have "handled (fst (g n f))" using assms by (simp add: guarded_def)
    then show ?thesis
      by (cases "g n f"; cases "fst (g n f)") (simp_all add: fill_span_def)
  qed
  then show "guarded (fill_span (g k))"
    and "guarded (\<lambda>(f, out). fill_span (g (length out)) (f, out))"
    by (simp_all add: guarded_def)
qed

end
