(* ===== verification/Register_Target.thy ===== *)
theory Register_Target
  imports Serdes Transports Rtf_Interface
begin

text \<open>
  \<open>RegisterTarget.h\<close>: the client side. A \<open>RapRegisterTarget\<close> is an \<open>IRegisterTarget\<close> whose
  operations are commands sent over a transport. Its state is the transport, the \<open>Serdes\<close>
  object and the counter of transaction ids; the transport (\<open>wire\<close>) and the operations of the
  base class (\<open>base\<close>) are parameters. Each operation of the class is a definition, and
  \<open>rap_register_target\<close> is the object: the record of all of them.

  \<open>call\<close> names the calls of the interface, so that the properties can speak of any of them, and
  of sequences of them.
\<close>

section \<open>The object\<close>

record 'w rap_target =
  transport :: 'w
  rap_serdes :: serdes
  next_txn_id :: byte

definition RapRegisterTarget :: "'w wire_transport \<Rightarrow> 'w \<Rightarrow> 'w rap_target result" where
  "RapRegisterTarget wire w =
     bindR (Serdes_constructor (unat (wt_getMaxMessageSize wire w))) (\<lambda>sd.
     Inr \<lparr> transport = w, rap_serdes = sd, next_txn_id = 0 \<rparr>)"

definition send_on :: "'w wire_transport \<Rightarrow> Buffer \<Rightarrow> ('w rap_target, unit) action" where
  "send_on wire buf s =
     (let (r, w) = wt_send wire buf (transport s) in (r, s\<lparr> transport := w \<rparr>))"

definition recv_on :: "'w wire_transport \<Rightarrow> ('w rap_target, Buffer) action" where
  "recv_on wire s = (let (r, w) = wt_recv wire (transport s) in (r, s\<lparr> transport := w \<rparr>))"

text \<open>\<open>next_txn_id.fetch_add(1)\<close> on a \<open>uint8_t\<close>.\<close>

definition getNextTxnId :: "('w rap_target, byte) action" where
  "getNextTxnId s = (Inr (next_txn_id s), s\<lparr> next_txn_id := next_txn_id s + 1 \<rparr>)"

text \<open>The visitor of \<open>doCmdResp\<close>. The exception stores the status as \<open>uint32_t\<close>.\<close>

definition match_response ::
  "('a word, 'd::len word, 'l word) Command \<Rightarrow> 'd word Response \<Rightarrow> 'd word Response result" where
  "match_response cmd resp =
     (if cmd_transaction_id cmd \<noteq> resp_transaction_id resp then throwR RapProtocolException
      else if AckResponseType cmd resp then Inr resp
      else if NakResponseType cmd resp then throwR (OperationNakException (ucast (resp_status resp)))
      else throwR UnexpectedMessageTypeException)"

definition doCmdResp ::
  "('a::len, 'd::len, 'l::len, 'c::len) cfg \<Rightarrow> 'c crc_function \<Rightarrow> 'w wire_transport \<Rightarrow>
     ('a word, 'd word, 'l word) Command \<Rightarrow> ('w rap_target, 'd word Response) action" where
  "doCmdResp cfg crcpp wire cmd s =
     bindA (liftA (encodeCommand cfg crcpp (rap_serdes s) cmd)) (\<lambda>buf.
     bindA (send_on wire buf) (\<lambda>_.
     bindA (recv_on wire) (\<lambda>reply.
     liftA (bindR (decodeResponse cfg crcpp reply) (match_response cmd))))) s"

definition checkIFS :: "('a::len, 'd::len, 'l::len, 'c::len) cfg \<Rightarrow> nat \<Rightarrow> bool" where
  "checkIFS cfg increment \<longleftrightarrow>
     FeatureIncrement cfg \<or> (increment = 0 \<and> FeatureFifo cfg) \<or>
     (increment = LENGTH('d) div 8 \<and> FeatureSequential cfg)"

section \<open>The operations\<close>

definition rap_write ::
  "('a::len, 'd::len, 'l::len, 'c::len) cfg \<Rightarrow> 'c crc_function \<Rightarrow> 'w wire_transport \<Rightarrow>
     'a word \<Rightarrow> 'd word \<Rightarrow> ('w rap_target, unit) action" where
  "rap_write cfg crcpp wire addr data =
     bindA getNextTxnId (\<lambda>t.
     bindA (doCmdResp cfg crcpp wire (WriteSingleCommand t False addr data)) (\<lambda>_.
     liftA (Inr ())))"

definition rap_read ::
  "('a::len, 'd::len, 'l::len, 'c::len) cfg \<Rightarrow> 'c crc_function \<Rightarrow> 'w wire_transport \<Rightarrow>
     'a word \<Rightarrow> ('w rap_target, 'd word) action" where
  "rap_read cfg crcpp wire addr =
     bindA getNextTxnId (\<lambda>t.
     bindA (doCmdResp cfg crcpp wire (ReadSingleCommand t addr)) (\<lambda>resp.
     liftA (Inr (resp_data resp))))"

definition rap_readModifyWrite ::
  "('a::len, 'd::len, 'l::len, 'c::len) cfg \<Rightarrow> 'c crc_function \<Rightarrow> 'w wire_transport \<Rightarrow>
     ('w rap_target, 'a word, 'd word) register_target \<Rightarrow>
     'a word \<Rightarrow> 'd word \<Rightarrow> 'd word \<Rightarrow> ('w rap_target, unit) action" where
  "rap_readModifyWrite cfg crcpp wire base addr new_data bits =
     (if \<not> FeatureReadModifyWrite cfg then rt_readModifyWrite base addr new_data bits
      else bindA getNextTxnId (\<lambda>t.
           bindA (doCmdResp cfg crcpp wire (ReadModifyWriteCommand t False addr new_data bits)) (\<lambda>_.
           liftA (Inr ()))))"

definition rap_seqWrite ::
  "('a::len, 'd::len, 'l::len, 'c::len) cfg \<Rightarrow> 'c crc_function \<Rightarrow> 'w wire_transport \<Rightarrow>
     ('w rap_target, 'a word, 'd word) register_target \<Rightarrow>
     'a word \<Rightarrow> 'd word list \<Rightarrow> nat \<Rightarrow> ('w rap_target, unit) action" where
  "rap_seqWrite cfg crcpp wire base start_addr data increment =
     (if \<not> checkIFS cfg increment then rt_seqWrite base start_addr data increment
      else bindA getNextTxnId (\<lambda>t.
           bindA (doCmdResp cfg crcpp wire
             (WriteSeqCommand t False start_addr (word_of_nat increment) data)) (\<lambda>_.
           liftA (Inr ()))))"

text \<open>
  An action on the object inside an operation with a span, and \<open>std::copy\<close> of a reply into the
  span: a reply that is longer fills the span and is then written past its end, which is undefined.
\<close>

definition on_target :: "('s, 'r) action \<Rightarrow> ('s, 'd, 'r) span_action" where
  "on_target m = (\<lambda>(s, out). let (r, s') = m s in (r, s', out))"

definition copy_into :: "'d list \<Rightarrow> ('s, 'd, unit) span_action" where
  "copy_into xs = (\<lambda>(s, out).
     if length xs \<le> length out then (Inr (), s, xs @ drop (length xs) out)
     else (throwR UndefinedBehaviour, s, take (length out) xs))"

definition rap_seqRead ::
  "('a::len, 'd::len, 'l::len, 'c::len) cfg \<Rightarrow> 'c crc_function \<Rightarrow> 'w wire_transport \<Rightarrow>
     ('w rap_target, 'a word, 'd word) register_target \<Rightarrow>
     'a word \<Rightarrow> nat \<Rightarrow> ('w rap_target, 'd word, unit) span_action" where
  "rap_seqRead cfg crcpp wire base start_addr increment = (\<lambda>(s, out).
     if \<not> checkIFS cfg increment then rt_seqRead base start_addr increment (s, out)
     else bindA (on_target (bindA getNextTxnId (\<lambda>t.
            doCmdResp cfg crcpp wire (ReadSeqCommand t start_addr (word_of_nat increment)
              (word_of_nat (length out)))))) (\<lambda>resp.
          copy_into (resp_seq_data resp)) (s, out))"

definition rap_fifoWrite ::
  "('a::len, 'd::len, 'l::len, 'c::len) cfg \<Rightarrow> 'c crc_function \<Rightarrow> 'w wire_transport \<Rightarrow>
     ('w rap_target, 'a word, 'd word) register_target \<Rightarrow>
     'a word \<Rightarrow> 'd word list \<Rightarrow> ('w rap_target, unit) action" where
  "rap_fifoWrite cfg crcpp wire base fifo_addr data =
     (if \<not> FeatureFifo cfg then rt_fifoWrite base fifo_addr data
      else bindA getNextTxnId (\<lambda>t.
           bindA (doCmdResp cfg crcpp wire (WriteSeqCommand t False fifo_addr 0 data)) (\<lambda>_.
           liftA (Inr ()))))"

definition rap_fifoRead ::
  "('a::len, 'd::len, 'l::len, 'c::len) cfg \<Rightarrow> 'c crc_function \<Rightarrow> 'w wire_transport \<Rightarrow>
     'a word \<Rightarrow> ('w rap_target, 'd word, unit) span_action" where
  "rap_fifoRead cfg crcpp wire fifo_addr = (\<lambda>(s, out).
     bindA (on_target (bindA getNextTxnId (\<lambda>t.
       doCmdResp cfg crcpp wire (ReadSeqCommand t fifo_addr 0 (word_of_nat (length out)))))) (\<lambda>resp.
     copy_into (resp_seq_data resp)) (s, out))"

definition rap_compWrite ::
  "('a::len, 'd::len, 'l::len, 'c::len) cfg \<Rightarrow> 'c crc_function \<Rightarrow> 'w wire_transport \<Rightarrow>
     ('w rap_target, 'a word, 'd word) register_target \<Rightarrow>
     ('a word \<times> 'd word) list \<Rightarrow> ('w rap_target, unit) action" where
  "rap_compWrite cfg crcpp wire base addr_data =
     (if \<not> FeatureCompressed cfg then rt_compWrite base addr_data
      else bindA getNextTxnId (\<lambda>t.
           bindA (doCmdResp cfg crcpp wire (WriteCompCommand t False addr_data)) (\<lambda>_.
           liftA (Inr ()))))"

definition rap_compRead ::
  "('a::len, 'd::len, 'l::len, 'c::len) cfg \<Rightarrow> 'c crc_function \<Rightarrow> 'w wire_transport \<Rightarrow>
     ('w rap_target, 'a word, 'd word) register_target \<Rightarrow>
     'a word list \<Rightarrow> ('w rap_target, 'd word, unit) span_action" where
  "rap_compRead cfg crcpp wire base addresses = (\<lambda>(s, out).
     if length addresses \<noteq> length out then (throwR AssertionFailed, s, out)
     else if \<not> FeatureCompressed cfg then rt_compRead base addresses (s, out)
     else bindA (on_target (bindA getNextTxnId (\<lambda>t.
            doCmdResp cfg crcpp wire (ReadCompCommand t addresses)))) (\<lambda>resp.
          copy_into (resp_seq_data resp)) (s, out))"

text \<open>The object as an implementation of \<open>IRegisterTarget\<close>.\<close>

definition rap_register_target ::
  "('a::len, 'd::len, 'l::len, 'c::len) cfg \<Rightarrow> 'c crc_function \<Rightarrow> 'w wire_transport \<Rightarrow>
     ('w rap_target, 'a word, 'd word) register_target \<Rightarrow>
     ('w rap_target, 'a word, 'd word) register_target" where
  "rap_register_target cfg crcpp wire base =
     \<lparr> rt_write = rap_write cfg crcpp wire,
       rt_read = rap_read cfg crcpp wire,
       rt_readModifyWrite = rap_readModifyWrite cfg crcpp wire base,
       rt_seqWrite = rap_seqWrite cfg crcpp wire base,
       rt_seqRead = rap_seqRead cfg crcpp wire base,
       rt_fifoWrite = rap_fifoWrite cfg crcpp wire base,
       rt_fifoRead = rap_fifoRead cfg crcpp wire,
       rt_compWrite = rap_compWrite cfg crcpp wire base,
       rt_compRead = rap_compRead cfg crcpp wire base \<rparr>"

section \<open>Calls\<close>

text \<open>
  A call of the interface as a value. \<open>run_call\<close> calls the operation of a target; its result is
  the value \<open>read\<close> returns, and \<open>None\<close> for the other operations.
\<close>

datatype ('a, 'd) call =
    CallWrite 'a 'd
  | CallRead 'a
  | CallReadModifyWrite 'a 'd 'd
  | CallSeqWrite 'a "'d list" nat
  | CallSeqRead 'a nat
  | CallFifoWrite 'a "'d list"
  | CallFifoRead 'a
  | CallCompWrite "('a \<times> 'd) list"
  | CallCompRead "'a list"

definition no_value :: "('s, unit) action \<Rightarrow> ('s, 'd option) action" where
  "no_value m = bindA m (\<lambda>_. liftA (Inr None))"

fun run_call :: "('s, 'a, 'd) register_target \<Rightarrow> ('a, 'd) call \<Rightarrow> ('s, 'd, 'd option) span_action" where
  "run_call t (CallWrite a d) = on_target (no_value (rt_write t a d))"
| "run_call t (CallRead a) = on_target (bindA (rt_read t a) (\<lambda>d. liftA (Inr (Some d))))"
| "run_call t (CallReadModifyWrite a d m) = on_target (no_value (rt_readModifyWrite t a d m))"
| "run_call t (CallSeqWrite a ds i) = on_target (no_value (rt_seqWrite t a ds i))"
| "run_call t (CallSeqRead a i) = no_value (rt_seqRead t a i)"
| "run_call t (CallFifoWrite a ds) = on_target (no_value (rt_fifoWrite t a ds))"
| "run_call t (CallFifoRead a) = no_value (rt_fifoRead t a)"
| "run_call t (CallCompWrite ads) = on_target (no_value (rt_compWrite t ads))"
| "run_call t (CallCompRead as) = no_value (rt_compRead t as)"

text \<open>
  The command a call is turned into, for a span of \<open>n\<close> elements and transaction id \<open>t\<close>;
  \<open>None\<close> when the call is left to the base class. And what is done with the acknowledge.
\<close>

fun call_command ::
  "('a::len, 'd::len, 'l::len, 'c::len) cfg \<Rightarrow> nat \<Rightarrow> byte \<Rightarrow> ('a word, 'd word) call \<Rightarrow>
     ('a word, 'd word, 'l word) Command option" where
  "call_command cfg n t (CallWrite a d) = Some (WriteSingleCommand t False a d)"
| "call_command cfg n t (CallRead a) = Some (ReadSingleCommand t a)"
| "call_command cfg n t (CallReadModifyWrite a d m) =
     (if FeatureReadModifyWrite cfg then Some (ReadModifyWriteCommand t False a d m) else None)"
| "call_command cfg n t (CallSeqWrite a ds i) =
     (if checkIFS cfg i then Some (WriteSeqCommand t False a (word_of_nat i) ds) else None)"
| "call_command cfg n t (CallSeqRead a i) =
     (if checkIFS cfg i then Some (ReadSeqCommand t a (word_of_nat i) (word_of_nat n)) else None)"
| "call_command cfg n t (CallFifoWrite a ds) =
     (if FeatureFifo cfg then Some (WriteSeqCommand t False a 0 ds) else None)"
| "call_command cfg n t (CallFifoRead a) = Some (ReadSeqCommand t a 0 (word_of_nat n))"
| "call_command cfg n t (CallCompWrite ads) =
     (if FeatureCompressed cfg then Some (WriteCompCommand t False ads) else None)"
| "call_command cfg n t (CallCompRead as) =
     (if FeatureCompressed cfg then Some (ReadCompCommand t as) else None)"

fun asserts :: "nat \<Rightarrow> ('a, 'd) call \<Rightarrow> bool" where
  "asserts n (CallCompRead as) \<longleftrightarrow> length as = n"
| "asserts n _ \<longleftrightarrow> True"

fun deliver :: "('a, 'd) call \<Rightarrow> 'd Response \<Rightarrow> ('s, 'd, 'd option) span_action" where
  "deliver (CallRead a) resp = liftA (Inr (Some (resp_data resp)))"
| "deliver (CallSeqRead a i) resp = no_value (copy_into (resp_seq_data resp))"
| "deliver (CallFifoRead a) resp = no_value (copy_into (resp_seq_data resp))"
| "deliver (CallCompRead as) resp = no_value (copy_into (resp_seq_data resp))"
| "deliver _ resp = liftA (Inr None)"

lemmas operation_defs = rap_register_target_def rap_write_def rap_read_def rap_readModifyWrite_def
  rap_seqWrite_def rap_seqRead_def rap_fifoWrite_def rap_fifoRead_def rap_compWrite_def
  rap_compRead_def

lemma on_target_simp [simp]: "on_target m (s, out) = (fst (m s), snd (m s), out)"
  by (simp add: on_target_def split_def Let_def)

lemma bindA_getNextTxnId [simp]:
  "bindA getNextTxnId f s = f (next_txn_id s) (s\<lparr> next_txn_id := next_txn_id s + 1 \<rparr>)"
  by (simp add: getNextTxnId_def bindA_def)

lemma bindA_on_target_getNextTxnId:
  "bindA (on_target (bindA getNextTxnId f)) g (s, out) =
     bindA (on_target (f (next_txn_id s))) g (s\<lparr> next_txn_id := next_txn_id s + 1 \<rparr>, out)"
  by (simp add: bindA_def getNextTxnId_def)

lemma bindA_eq_Inr_conv:
  "bindA m f s = (Inr y, s') \<longleftrightarrow> (\<exists>x s1. m s = (Inr x, s1) \<and> f x s1 = (Inr y, s'))"
  by (auto simp: bindA_def split: prod.splits sum.splits)

lemma bindA_split: "bindA m f s =
    (case fst (m s) of Inl e \<Rightarrow> (Inl e, snd (m s)) | Inr x \<Rightarrow> f x (snd (m s)))"
  by (simp add: bindA_def split: prod.splits sum.splits)

text \<open>Every call that the object does not leave to its base class is one exchange.\<close>

lemma run_call_exchange:
  assumes "call_command cfg (length out) (next_txn_id s) call = Some cmd"
    and "asserts (length out) call"
  shows "run_call (rap_register_target cfg crcpp wire base) call (s, out) =
    bindA (on_target (doCmdResp cfg crcpp wire cmd)) (deliver call)
      (s\<lparr> next_txn_id := next_txn_id s + 1 \<rparr>, out)"
  using assms
  by (cases call)
     (auto simp: operation_defs no_value_def bindA_split getNextTxnId_def split: if_splits sum.splits)

lemma run_call_base:
  assumes "call_command cfg (length out) (next_txn_id s) call = None"
    and "asserts (length out) call"
  shows "run_call (rap_register_target cfg crcpp wire base) call (s, out) =
    run_call base call (s, out)"
  using assms
  by (cases call)
     (auto simp: operation_defs no_value_def bindA_split getNextTxnId_def split: if_splits sum.splits)

lemma run_call_assert:
  "\<not> asserts (length out) call \<Longrightarrow>
    run_call (rap_register_target cfg crcpp wire base) call (s, out) = (Inl AssertionFailed, s, out)"
  by (cases call)
     (auto simp: operation_defs no_value_def bindA_split split: if_splits sum.splits)

section \<open>One exchange\<close>

lemma send_on_Inr_iff: "send_on wire buf s = (Inr u, s') \<longleftrightarrow>
    (\<exists>w. wt_send wire buf (transport s) = (Inr (), w) \<and> s' = s\<lparr> transport := w \<rparr>)"
  by (auto simp: send_on_def split: prod.splits)

lemma recv_on_Inr_iff: "recv_on wire s = (Inr reply, s') \<longleftrightarrow>
    (\<exists>w. wt_recv wire (transport s) = (Inr reply, w) \<and> s' = s\<lparr> transport := w \<rparr>)"
  by (auto simp: recv_on_def split: prod.splits)

lemma match_response_iff:
  "match_response cmd r = Inr q \<longleftrightarrow>
     q = r \<and> cmd_transaction_id cmd = resp_transaction_id r \<and> AckResponseType cmd r"
  by (auto simp: match_response_def)

lemma doCmdResp_Inr_iff:
  "doCmdResp cfg crcpp wire cmd s = (Inr r, s') \<longleftrightarrow>
     (\<exists>buf w reply w'. encodeCommand cfg crcpp (rap_serdes s) cmd = Inr buf \<and>
        wt_send wire buf (transport s) = (Inr (), w) \<and> wt_recv wire w = (Inr reply, w') \<and>
        decodeResponse cfg crcpp reply = Inr r \<and> s' = s\<lparr> transport := w' \<rparr>) \<and>
     cmd_transaction_id cmd = resp_transaction_id r \<and> AckResponseType cmd r"
  by (auto simp: doCmdResp_def bindA_eq_Inr_conv send_on_Inr_iff recv_on_Inr_iff
      bindR_eq_Inr_conv match_response_iff)

text \<open>After the exchange of messages, the result is what the reply says.\<close>

lemma doCmdResp_reply:
  assumes "encodeCommand cfg crcpp (rap_serdes s) cmd = Inr buf"
    and "wt_send wire buf (transport s) = (Inr (), w)" and "wt_recv wire w = (Inr reply, w')"
  shows "doCmdResp cfg crcpp wire cmd s =
    (bindR (decodeResponse cfg crcpp reply) (match_response cmd), s\<lparr> transport := w' \<rparr>)"
  using assms by (simp add: doCmdResp_def bindA_split send_on_def recv_on_def)

lemma doCmdResp_too_large:
  "encodeCommand cfg crcpp (rap_serdes s) cmd = Inl e \<Longrightarrow>
    doCmdResp cfg crcpp wire cmd s = (Inl e, s)"
  by (simp add: doCmdResp_def bindA_split)

lemma doCmdResp_keeps:
  "next_txn_id (snd (doCmdResp cfg crcpp wire cmd s)) = next_txn_id s"
  "rap_serdes (snd (doCmdResp cfg crcpp wire cmd s)) = rap_serdes s"
  by (simp_all add: doCmdResp_def bindA_split send_on_def recv_on_def split_def Let_def
      split: sum.splits)

lemma doCmdResp_success:
  assumes "cfg_wf cfg" and "crc_width_respected crcpp" and "serdes_ok (rap_serdes s)"
    and "command_limit cfg (rap_serdes s) cmd" and "response_fits cfg r"
    and "wt_send wire (command_packet cfg crcpp cmd) (transport s) = (Inr (), w)"
    and "wt_recv wire w = (Inr (response_packet cfg crcpp r), w')"
    and "AckResponseType cmd r" and "resp_transaction_id r = cmd_transaction_id cmd"
  shows "doCmdResp cfg crcpp wire cmd s = (Inr r, s\<lparr> transport := w' \<rparr>)"
proof -
  note w = wf_wireI [OF assms(1,2)]
  have "encodeCommand cfg crcpp (rap_serdes s) cmd = Inr (command_packet cfg crcpp cmd)"
    by (simp add: wf_wire.encodeCommand_eq [OF w assms(3)] assms(4))
  from doCmdResp_reply [OF this assms(6,7)] assms(8,9)
  show ?thesis
    by (simp add: wf_wire.decodeResponse_response_packet [OF w assms(5)] match_response_def)
qed

definition scripted_target :: "Buffer list \<Rightarrow> (Buffer list \<times> Buffer list) rap_target" where
  "scripted_target bs = \<lparr> transport = ([], bs), rap_serdes = sd512, next_txn_id = 0 \<rparr>"

lemma scripted_target_simps [simp]:
  "transport (scripted_target bs) = ([], bs)"
  "rap_serdes (scripted_target bs) = sd512"
  "next_txn_id (scripted_target bs) = 0"
  by (simp_all add: scripted_target_def)

section \<open>Sequences of calls\<close>

text \<open>Each call comes with the span it is given; the result holds the span afterwards.\<close>

fun run_calls ::
  "('s, 'a, 'd) register_target \<Rightarrow> (('a, 'd) call \<times> 'd list) list \<Rightarrow> 's \<Rightarrow>
     ('d option result \<times> 'd list) list \<times> 's" where
  "run_calls t [] s = ([], s)"
| "run_calls t ((call, out) # calls) s =
     (let (r, s', out') = run_call t call (s, out); (rs, s'') = run_calls t calls s'
      in ((r, out') # rs, s''))"

lemma byte_of_nat_inject:
  assumes "(word_of_nat j :: byte) = word_of_nat k" and "i \<le> j" "j < i + 256" "i \<le> k" "k < i + 256"
  shows "j = k"
proof -
  have "j mod 256 = k mod 256"
    using assms(1) by (simp add: word_of_nat_eq_iff take_bit_eq_mod)
  moreover have "j = 256 * (j div 256) + j mod 256" and "k = 256 * (k div 256) + k mod 256"
    by simp_all
  moreover have "j div 256 \<noteq> k div 256 \<Longrightarrow> j div 256 + 1 \<le> k div 256 \<or> k div 256 + 1 \<le> j div 256"
    by linarith
  ultimately show ?thesis using assms(2-) by linarith
qed

lemma deliver_fst_snd: "fst (snd (deliver call resp (s, out))) = s"
  by (cases call) (simp_all add: no_value_def bindA_split copy_into_def)

lemma run_call_next_txn_id:
  assumes "call_command cfg (length out) (next_txn_id s) call = Some cmd"
    and "asserts (length out) call"
  shows "next_txn_id (fst (snd (run_call (rap_register_target cfg crcpp wire base) call (s, out))))
      = next_txn_id s + 1"
  by (simp add: run_call_exchange [OF assms] bindA_split deliver_fst_snd doCmdResp_keeps
      split: sum.splits)

lemma call_command_txn:
  "call_command cfg n t call = Some cmd \<Longrightarrow> cmd_transaction_id cmd = t"
  by (cases call) (auto split: if_splits)

lemma call_command_any_txn:
  "call_command cfg n t call \<noteq> None \<Longrightarrow> call_command cfg n t' call \<noteq> None"
  by (cases call) (auto split: if_splits)

definition exchanged ::
  "('a::len, 'd::len, 'l::len, 'c::len) cfg \<Rightarrow> ('a word, 'd word) call \<times> 'd word list \<Rightarrow> bool" where
  "exchanged cfg = (\<lambda>(call, out). asserts (length out) call \<and> call_command cfg (length out) 0 call \<noteq> None)"

lemma exchangedD:
  "exchanged cfg (call, out) \<Longrightarrow> asserts (length out) call \<and>
     (\<exists>cmd. call_command cfg (length out) t call = Some cmd)"
  using call_command_any_txn by (fastforce simp: exchanged_def)

lemma run_calls_next_txn_id:
  "list_all (exchanged cfg) calls \<Longrightarrow>
    next_txn_id (snd (run_calls (rap_register_target cfg crcpp wire base) calls s)) =
      next_txn_id s + word_of_nat (length calls)"
proof (induction calls arbitrary: s)
  case (Cons c calls)
  obtain call out where c: "c = (call, out)" by (cases c)
  with Cons.prems obtain cmd where
    "asserts (length out) call" "call_command cfg (length out) (next_txn_id s) call = Some cmd"
    using exchangedD by (fastforce simp: list_all_iff)
  then have "next_txn_id (fst (snd (run_call (rap_register_target cfg crcpp wire base) call (s, out))))
      = next_txn_id s + 1"
    by (intro run_call_next_txn_id)
  with Cons c show ?case
    by (simp add: split_def Let_def)
qed simp

text \<open>
  The status of a negative acknowledge is reported in 32 bits: with a 64-bit \<open>DataType\<close> its
  upper half is lost.
\<close>

lemma nak_status_truncated:
  assumes "LENGTH('d::len) = 64" and "resp_transaction_id resp = cmd_transaction_id cmd"
    and "NakResponseType (cmd :: ('a word, 'd word, 'l word) Command) resp"
  shows "match_response cmd resp =
      Inl (OperationNakException (word_of_nat (unat (resp_status resp) mod 2 ^ 32)))"
proof -
  have "\<not> AckResponseType cmd resp" using assms(3) ack_not_nak by blast
  moreover have "ucast v = (word_of_nat (unat v mod 2 ^ 32) :: 32 word)" for v :: "'d word"
    by (rule word_unat_eq_iff [THEN iffD2])
      (simp add: unsigned_ucast_eq unsigned_of_nat take_bit_eq_mod)
  ultimately show ?thesis
    using assms(2,3) by (simp add: match_response_def)
qed

section \<open>The client object is a target\<close>

text \<open>
  The object keeps the contract of the interface it implements, if its base class does: it can
  be served to others in its turn.
\<close>

lemma length_copy_into: "copy_into xs (s, out) = (r, s', out') \<Longrightarrow> length out' = length out"
  by (auto simp: copy_into_def split: if_splits)

lemma span_kept_copy_into: "span_kept (copy_into xs)"
  by (auto simp: span_kept_def dest: length_copy_into)

lemma span_kept_pointwise:
  assumes "\<And>s out. \<exists>f. span_kept f \<and> g (s, out) = f (s, out)"
  shows "span_kept g"
  unfolding span_kept_def by (metis assms span_kept_def)

lemma span_kept_on_target: "span_kept (on_target m)"
  by (auto simp: span_kept_def on_target_def split: prod.splits)

lemma span_kept_bindA:
  assumes "span_kept m" and "\<And>x. span_kept (f x)"
  shows "span_kept (bindA m f)"
  unfolding span_kept_def
proof (intro allI impI)
  fix s out r s' out' assume run: "bindA m f (s, out) = (r, s', out')"
  obtain q u ms where m: "m (s, out) = (q, u, ms)" by (cases "m (s, out)") auto
  then have "length ms = length out" using assms(1) by (auto simp: span_kept_def)
  moreover have "length out' = length ms"
    using run m assms(2) by (cases q) (auto simp: span_kept_def bindA_def)
  ultimately show "length out' = length out" by simp
qed

text \<open>The shape of the three reads: a command, then a copy.\<close>

lemma span_kept_exchange: "span_kept (bindA (on_target m) (\<lambda>x. copy_into (f x)))"
  by (intro span_kept_bindA span_kept_on_target span_kept_copy_into)

lemma span_kept_throw: "span_kept (\<lambda>s. (throwR e, s))"
  by (simp add: span_kept_def)

context rtf_target
begin

lemma run_call_kept: "span_kept (run_call target call)"
proof -
  have lifted: "span_kept (no_value m)" if "span_kept m" for m :: "('s, 'b word, unit) span_action"
    unfolding no_value_def by (rule span_kept_bindA [OF that]) (simp add: span_kept_def)
  show ?thesis
    by (cases call) (simp_all add: span_kept_on_target lifted seqRead_kept fifoRead_kept compRead_kept)
qed

end

locale rap_object = rtf_target base
  for base :: "('w rap_target, 'a::len word, 'd::len word) register_target" +
  fixes cfg :: "('a, 'd, 'l::len, 'c::len) cfg" and crcpp :: "'c crc_function"
    and wire :: "'w wire_transport"

sublocale rap_object \<subseteq> rap: rtf_target "rap_register_target cfg crcpp wire base"
proof
  have "span_kept (rap_seqRead cfg crcpp wire base a i)" for a i
    by (rule span_kept_pointwise)
      (use seqRead_kept span_kept_exchange in \<open>force simp: rap_seqRead_def\<close>)
  moreover have "span_kept (rap_fifoRead cfg crcpp wire a)" for a
    by (rule span_kept_pointwise) (use span_kept_exchange in \<open>force simp: rap_fifoRead_def\<close>)
  moreover have "span_kept (rap_compRead cfg crcpp wire base as)" for as
    by (rule span_kept_pointwise)
      (use compRead_kept span_kept_exchange span_kept_throw in \<open>force simp: rap_compRead_def\<close>)
  ultimately show "spans_kept (rap_register_target cfg crcpp wire base)"
    by (simp add: spans_kept_def rap_register_target_def)
qed

context rap_object
begin

lemma object_call_kept: "span_kept (run_call (rap_register_target cfg crcpp wire base) call)"
  by (rule rap.run_call_kept)

end

lemma spans_kept_unsupported: "spans_kept unsupported"
  by (simp add: spans_kept_def span_kept_def unsupported_def)

interpretation example_object: rap_object unsupported ExampleRapCfg bit_serial_crc scripted_transport
  by unfold_locales (rule spans_kept_unsupported)

section \<open>Properties\<close>

text \<open>
  C16. A call succeeds for one reason only: the packet of its command was sent, and the next
  thing received was, byte for byte, the packet of an acknowledge of its type with its
  transaction id. The response that is returned is the one that packet was made from.
\<close>

theorem success_means_matching_ack:
  assumes "cfg_wf cfg" and "crc_width_respected crcpp" and "serdes_ok (rap_serdes s)"
  shows "doCmdResp cfg crcpp wire cmd s = (Inr r, s') \<longleftrightarrow>
    command_limit cfg (rap_serdes s) cmd \<and>
    (\<exists>w w'. wt_send wire (command_packet cfg crcpp cmd) (transport s) = (Inr (), w) \<and>
       wt_recv wire w = (Inr (response_packet cfg crcpp r), w') \<and> s' = s\<lparr> transport := w' \<rparr>) \<and>
    response_fits cfg r \<and> AckResponseType cmd r \<and>
    resp_transaction_id r = cmd_transaction_id cmd"
  unfolding doCmdResp_Inr_iff wf_wire.encodeCommand_eq [OF wf_wireI [OF assms(1,2)] assms(3)]
    wf_wire.decodeResponse_iff [OF wf_wireI [OF assms(1,2)]]
  by auto

theorem success_means_matching_ack_witness:
  "let ack = ReadSingleAckResponse 9 0xCAFE
   in \<exists>s'. doCmdResp ExampleRapCfg bit_serial_crc scripted_transport (ReadSingleCommand 9 4)
     (scripted_target [response_packet ExampleRapCfg bit_serial_crc ack]) = (Inr ack, s')"
  using success_means_matching_ack [OF cfg_wf_ExampleRapCfg bit_serial_crc_width,
      of "scripted_target [response_packet ExampleRapCfg bit_serial_crc
        (ReadSingleAckResponse 9 0xCAFE)]" scripted_transport "ReadSingleCommand 9 4"
        "ReadSingleAckResponse 9 0xCAFE"]
  by (simp add: fits_bytes_def)

text \<open>
  C17. What a call makes of a reply that is not its acknowledge: a reply of another transaction
  is a protocol error whatever it says, a negative acknowledge included; the matching negative
  acknowledge is an \<open>OperationNakException\<close> with its status, and any other response of the same
  transaction, an interrupt too, is an unexpected message type.
\<close>

theorem reply_errors:
  assumes "cfg_wf cfg" and "crc_width_respected crcpp" and "serdes_ok (rap_serdes s)"
    and "command_limit cfg (rap_serdes s) cmd" and "response_fits cfg resp"
    and "wt_send wire (command_packet cfg crcpp cmd) (transport s) = (Inr (), w)"
    and "wt_recv wire w = (Inr (response_packet cfg crcpp resp), w')"
    and "\<not> (AckResponseType cmd resp \<and> resp_transaction_id resp = cmd_transaction_id cmd)"
  shows "doCmdResp cfg crcpp wire cmd s =
    (Inl (if resp_transaction_id resp \<noteq> cmd_transaction_id cmd then RapProtocolException
          else if NakResponseType cmd resp then OperationNakException (ucast (resp_status resp))
          else UnexpectedMessageTypeException), s\<lparr> transport := w' \<rparr>)"
proof -
  note w = wf_wireI [OF assms(1,2)]
  have "encodeCommand cfg crcpp (rap_serdes s) cmd = Inr (command_packet cfg crcpp cmd)"
    by (simp add: wf_wire.encodeCommand_eq [OF w assms(3)] assms(4))
  from doCmdResp_reply [OF this assms(6,7)] assms(8)
  show ?thesis
    by (auto simp: wf_wire.decodeResponse_response_packet [OF w assms(5)] match_response_def)
qed

theorem reply_errors_witness:
  "fst (doCmdResp ExampleRapCfg bit_serial_crc scripted_transport (ReadSingleCommand 9 4)
     (scripted_target [response_packet ExampleRapCfg bit_serial_crc (ReadSingleNakResponse 9 0xFD)]))
   = Inl (OperationNakException 0xFD)"
  using reply_errors [OF cfg_wf_ExampleRapCfg bit_serial_crc_width,
      of "scripted_target [response_packet ExampleRapCfg bit_serial_crc (ReadSingleNakResponse 9 0xFD)]"
        "ReadSingleCommand 9 4" "ReadSingleNakResponse 9 0xFD" scripted_transport]
  by (simp add: fits_bytes_def)

text \<open>
  Every call for which \<open>call_command\<close> names a command is one exchange: it takes the next transaction
  id, sends the command of the call with that id, waits for the reply, and hands the reply's data
  to the caller. These are the calls the features cover, and \<open>fifoRead\<close> always. The others are the
  base class's operation on the same object, and a \<open>compRead\<close> with lists of different lengths fails
  its assertion first.
\<close>

lemma calls_are_exchanges:
  "run_call (rap_register_target cfg crcpp wire base) call (s, out) =
     (if \<not> asserts (length out) call then (Inl AssertionFailed, s, out)
      else case call_command cfg (length out) (next_txn_id s) call of
          None \<Rightarrow> run_call base call (s, out)
        | Some cmd \<Rightarrow>
            (case doCmdResp cfg crcpp wire cmd (s\<lparr> next_txn_id := next_txn_id s + 1 \<rparr>) of
               (Inl e, s') \<Rightarrow> (Inl e, s', out)
             | (Inr resp, s') \<Rightarrow> deliver call resp (s', out)))"
  using run_call_assert [of out call] run_call_base [of cfg out s call]
    run_call_exchange [of cfg out s call]
  by (auto simp: bindA_split split: option.split prod.split sum.split)

text \<open>
  C20. Transaction ids: the \<open>k\<close>-th of a sequence of exchanged calls sends its command with the
  id of the first one plus \<open>k\<close>, modulo 256, whatever the calls before it ended in; so any two
  of 256 calls in a row have different ids.
\<close>

theorem transaction_ids:
  assumes "list_all (exchanged cfg) (calls @ [(call, out)])"
  shows "let s' = snd (run_calls (rap_register_target cfg crcpp wire base) calls s) in
    (\<exists>cmd. cmd_transaction_id cmd = next_txn_id s + word_of_nat (length calls) \<and>
       run_call (rap_register_target cfg crcpp wire base) call (s', out) =
         bindA (on_target (doCmdResp cfg crcpp wire cmd)) (deliver call)
           (s'\<lparr> next_txn_id := next_txn_id s' + 1 \<rparr>, out)) \<and>
    inj_on (\<lambda>k. next_txn_id s + word_of_nat k) {i..<i + 256}"
proof -
  let ?s = "snd (run_calls (rap_register_target cfg crcpp wire base) calls s)"
  have id: "next_txn_id ?s = next_txn_id s + word_of_nat (length calls)"
    using assms by (intro run_calls_next_txn_id) simp
  obtain cmd where cmd: "asserts (length out) call"
    "call_command cfg (length out) (next_txn_id ?s) call = Some cmd"
    using assms exchangedD by fastforce
  have "inj_on (\<lambda>k. next_txn_id s + word_of_nat k) {i..<i + 256}"
    by (auto intro!: inj_onI dest: byte_of_nat_inject)
  with run_call_exchange [OF cmd(2,1)] call_command_txn [OF cmd(2)] id
  show ?thesis by (auto simp: Let_def)
qed

theorem transaction_ids_witness:
  "let calls = [(CallWrite 4 7, []), (CallRead 4, [])] :: ((32 word, 32 word) call \<times> 32 word list) list;
       t = rap_register_target ExampleRapCfg bit_serial_crc scripted_transport unsupported;
       s = snd (run_calls t calls (scripted_target []));
       call = CallSeqRead (8 :: 32 word) 4
   in \<exists>cmd. cmd_transaction_id cmd = 2 \<and> run_call t call (s, [0, 0]) =
        bindA (on_target (doCmdResp ExampleRapCfg bit_serial_crc scripted_transport cmd))
          (deliver call) (s\<lparr> next_txn_id := next_txn_id s + 1 \<rparr>, [0, 0])"
proof -
  let ?calls = "[(CallWrite 4 7, []), (CallRead 4, [])] :: ((32 word, 32 word) call \<times> 32 word list) list"
  have "list_all (exchanged ExampleRapCfg) (?calls @ [(CallSeqRead 8 4, [0, 0])])"
    by (simp add: exchanged_def checkIFS_def)
  from transaction_ids [OF this, where i = 0, of bit_serial_crc scripted_transport unsupported
      "scripted_target []"]
  show ?thesis by (simp only: Let_def) (auto simp del: run_calls.simps run_call.simps)
qed

text \<open>
  A call that fails on its way over the wire leaves the caller's span as it was, and the
  \<open>Serdes\<close> object too, whatever the exception is and wherever it comes from; only a reply that is
  too long for the span is written.
\<close>

lemma failed_call_keeps_span:
  assumes "exchanged cfg (call, out)"
    and "run_call (rap_register_target cfg crcpp wire base) call (s, out) = (Inl e, s', out')"
    and "e \<noteq> UndefinedBehaviour"
  shows "out' = out \<and> rap_serdes s' = rap_serdes s \<and> next_txn_id s' = next_txn_id s + 1"
proof -
  from exchangedD [OF assms(1)] obtain cmd where cmd:
    "asserts (length out) call" "call_command cfg (length out) (next_txn_id s) call = Some cmd"
    by blast
  have "out' = out \<and> snd (doCmdResp cfg crcpp wire cmd (s\<lparr> next_txn_id := next_txn_id s + 1 \<rparr>)) = s'"
    using assms(2,3) unfolding run_call_exchange [OF cmd(2,1)]
    by (cases call)
      (auto simp: bindA_split no_value_def copy_into_def split: sum.splits if_splits)
  moreover note doCmdResp_keeps [of cfg crcpp wire cmd "s\<lparr> next_txn_id := next_txn_id s + 1 \<rparr>"]
  ultimately show ?thesis by auto
qed

lemma failed_call_keeps_span_example:
  "snd (snd (run_call (rap_register_target ExampleRapCfg bit_serial_crc scripted_transport unsupported)
     (CallFifoRead 8) (scripted_target [], [1, 2, 3]))) = [1, 2, 3]"
proof -
  have "exchanged ExampleRapCfg (CallFifoRead 8, [1, 2, 3])"
    by (simp add: exchanged_def)
  moreover have "fst (run_call (rap_register_target ExampleRapCfg bit_serial_crc scripted_transport unsupported)
      (CallFifoRead 8) (scripted_target [], [1, 2, 3])) = Inl TransportTimeoutException"
    by (simp add: operation_defs no_value_def bindA_split getNextTxnId_def doCmdResp_def
        example_wire.encodeCommand_eq msg_size_def send_on_def recv_on_def)
  ultimately show ?thesis
    using failed_call_keeps_span [of ExampleRapCfg "CallFifoRead 8" "[1, 2, 3]"]
    by (metis exn.distinct prod.collapse)
qed

text \<open>
  C38. What a sequential, FIFO or compressed read does with the values of its acknowledge: it
  copies all of them and never compares their number with the one it asked for. Fewer values
  succeed and leave the rest of the span as it was; more fill it and are then written past its end.
\<close>

theorem read_copies_any_count:
  assumes "exchanged cfg (call, out)"
    and "call_command cfg (length out) (next_txn_id s) call = Some cmd"
    and "doCmdResp cfg crcpp wire cmd (s\<lparr> next_txn_id := next_txn_id s + 1 \<rparr>) = (Inr ack, s')"
    and "(\<exists>a i. call = CallSeqRead a i) \<or> (\<exists>a. call = CallFifoRead a) \<or> (\<exists>as. call = CallCompRead as)"
  shows "run_call (rap_register_target cfg crcpp wire base) call (s, out) =
    (if length (resp_seq_data ack) \<le> length out
     then (Inr None, s', resp_seq_data ack @ drop (length (resp_seq_data ack)) out)
     else (Inl UndefinedBehaviour, s', take (length out) (resp_seq_data ack)))"
proof -
  have "asserts (length out) call" using exchangedD [OF assms(1)] by blast
  from run_call_exchange [OF assms(2) this] assms(3,4)
  show ?thesis by (auto simp: bindA_split no_value_def copy_into_def)
qed

theorem read_copies_any_count_witness:
  "let ack = ReadSeqAckResponse 0 [7] in
   fst (run_call (rap_register_target ExampleRapCfg bit_serial_crc scripted_transport unsupported)
     (CallFifoRead 8) (scripted_target [response_packet ExampleRapCfg bit_serial_crc ack], [1, 2]))
     = Inr None \<and>
   snd (snd (run_call (rap_register_target ExampleRapCfg bit_serial_crc scripted_transport unsupported)
     (CallFifoRead 8) (scripted_target [response_packet ExampleRapCfg bit_serial_crc ack], [1, 2])))
     = [7, 2]"
proof -
  let ?ack = "ReadSeqAckResponse 0 [7] :: 32 word Response"
  let ?s = "scripted_target [response_packet ExampleRapCfg bit_serial_crc ?ack]"
  have fits: "response_fits ExampleRapCfg ?ack" by (simp add: fits_bytes_def)
  have "exchanged ExampleRapCfg (CallFifoRead 8, [1, 2])" by (simp add: exchanged_def)
  moreover have "call_command ExampleRapCfg (length [1, 2 :: 32 word]) (next_txn_id ?s) (CallFifoRead 8)
      = Some (ReadSeqCommand 0 8 0 2)" by simp
  moreover have "\<exists>s'. doCmdResp ExampleRapCfg bit_serial_crc scripted_transport (ReadSeqCommand 0 8 0 2)
      (?s\<lparr> next_txn_id := next_txn_id ?s + 1 \<rparr>) = (Inr ?ack, s')"
    by (simp add: doCmdResp_def bindA_split example_wire.encodeCommand_eq msg_size_def send_on_def
        recv_on_def example_wire.decodeResponse_response_packet [OF fits] match_response_def)
  ultimately show ?thesis
    using read_copies_any_count [of ExampleRapCfg "CallFifoRead 8" "[1, 2]" ?s "ReadSeqCommand 0 8 0 2"]
    by (auto simp: Let_def)
qed

text \<open>
  A call whose command is over the limits of the transport ends in the
  \<open>MessageSizeException\<close> of its kind before anything is sent: the transport and the span are
  untouched, and only a transaction id is used up.
\<close>

lemma oversized_call_not_sent:
  assumes "cfg_wf cfg" and "crc_width_respected crcpp" and "serdes_ok (rap_serdes s)"
    and "exchanged cfg (call, out)"
    and "call_command cfg (length out) (next_txn_id s) call = Some cmd"
    and "\<not> command_limit cfg (rap_serdes s) cmd"
  shows "run_call (rap_register_target cfg crcpp wire base) call (s, out) =
      (Inl (command_limit_error cmd), s\<lparr> next_txn_id := next_txn_id s + 1 \<rparr>, out) \<and>
    (\<exists>msg. command_limit_error cmd = MessageSizeException msg)"
proof -
  have "asserts (length out) call" using exchangedD [OF assms(4)] by blast
  moreover have "encodeCommand cfg crcpp (rap_serdes s) cmd = Inl (command_limit_error cmd)"
    by (simp add: wf_wire.encodeCommand_eq [OF wf_wireI [OF assms(1,2)] assms(3)] assms(6))
  ultimately show ?thesis
    using command_limit_error_cases [OF assms(6)]
    by (simp add: run_call_exchange [OF assms(5)] bindA_split doCmdResp_too_large)
qed

lemma oversized_call_not_sent_example:
  "fst (run_call (rap_register_target ExampleRapCfg bit_serial_crc scripted_transport unsupported)
     (CallSeqWrite 8 (replicate 200 1) 4) (scripted_target [], []))
   = Inl (MessageSizeException ''WriteSeqCommand count exceeded transport-imposed limit'')"
  using oversized_call_not_sent [OF cfg_wf_ExampleRapCfg bit_serial_crc_width,
      of "scripted_target []" "CallSeqWrite 8 (replicate 200 1) 4" "[]"
        "WriteSeqCommand 0 False 8 4 (replicate 200 1)" scripted_transport unsupported]
  by (simp add: exchanged_def checkIFS_def msg_size_def)

text \<open>
  A read into a span with more elements than \<open>LengthType\<close> can count asks for their number
  modulo \<open>2 ^ LENGTH('l)\<close> only, and a server that answers just that makes the call succeed with
  the rest of the span never read.
\<close>

lemma large_read_truncated:
  fixes cfg :: "('a::len, 'd::len, 'l::len, 'c::len) cfg"
  assumes "cfg_wf cfg" and "crc_width_respected crcpp" and "serdes_ok (rap_serdes s)"
    and "checkIFS cfg inc" and "unat (n :: 'l word) = length out mod 2 ^ LENGTH('l)"
    and "command_limit cfg (rap_serdes s) (ReadSeqCommand (next_txn_id s) a (word_of_nat inc) n)"
    and "response_fits cfg (ReadSeqAckResponse (next_txn_id s) ds)" and "length ds = unat n"
    and "wt_send wire (command_packet cfg crcpp (ReadSeqCommand (next_txn_id s) a (word_of_nat inc) n))
           (transport s) = (Inr (), w)"
    and "wt_recv wire w = (Inr (response_packet cfg crcpp (ReadSeqAckResponse (next_txn_id s) ds)), w')"
  shows "rap_seqRead cfg crcpp wire base a inc (s, out) =
    (Inr (), s\<lparr> transport := w', next_txn_id := next_txn_id s + 1 \<rparr>,
     ds @ drop (length out mod 2 ^ LENGTH('l)) out)"
proof -
  have n: "word_of_nat (length out) = n"
    using assms(5) by (metis unat_of_nat word_unat_eq_iff)
  have "length ds \<le> length out" by (simp add: assms(5,8))
  moreover have "doCmdResp cfg crcpp wire (ReadSeqCommand (next_txn_id s) a (word_of_nat inc) n)
      (s\<lparr> next_txn_id := next_txn_id s + 1 \<rparr>) = (Inr (ReadSeqAckResponse (next_txn_id s) ds),
      s\<lparr> next_txn_id := next_txn_id s + 1, transport := w' \<rparr>)"
    by (rule doCmdResp_success [OF assms(1,2)]) (use assms in simp_all)
  ultimately show ?thesis
    by (simp add: rap_seqRead_def assms(4) n bindA_on_target_getNextTxnId)
      (simp add: bindA_def copy_into_def assms(5,8))
qed

lemma large_read_truncated_example:
  shows "let ack = ReadSeqAckResponse 0 [7];
      s = scripted_target [response_packet ExampleRapCfg bit_serial_crc ack];
      (r, s', out) = rap_seqRead ExampleRapCfg bit_serial_crc scripted_transport unsupported 8 4
        (s, replicate 65537 0)
    in r = Inr () \<and> out = 7 # replicate 65536 0"
  using large_read_truncated [of ExampleRapCfg bit_serial_crc
      "scripted_target [response_packet ExampleRapCfg bit_serial_crc (ReadSeqAckResponse 0 [7])]"
      4 1 "replicate 65537 0" 8 "[7]" scripted_transport _ _ unsupported]
  by (simp add: checkIFS_def msg_size_def fits_bytes_def Let_def)

text \<open>
  With all feature flags off the object does single reads and writes itself and leaves the
  rest to its base class, with one exception: \<open>fifoRead\<close> does not look at \<open>FeatureFifo\<close> and
  sends a sequential read that the device does not support, while \<open>fifoWrite\<close> falls back.
\<close>

lemma features_off:
  assumes "\<not> FeatureSequential cfg" and "\<not> FeatureFifo cfg" and "\<not> FeatureIncrement cfg"
    and "\<not> FeatureCompressed cfg" and "\<not> FeatureReadModifyWrite cfg"
  shows "let t = rap_register_target cfg crcpp wire base in
    rt_readModifyWrite t = rt_readModifyWrite base \<and> rt_seqWrite t = rt_seqWrite base \<and>
    rt_seqRead t = rt_seqRead base \<and> rt_fifoWrite t = rt_fifoWrite base \<and>
    rt_compWrite t = rt_compWrite base \<and>
    (length as = length out \<longrightarrow> rt_compRead t as (s, out) = rt_compRead base as (s, out)) \<and>
    rt_fifoRead t a (s, out) =
      bindA (on_target (doCmdResp cfg crcpp wire
        (ReadSeqCommand (next_txn_id s) a 0 (word_of_nat (length out)))))
        (\<lambda>resp. copy_into (resp_seq_data resp)) (s\<lparr> next_txn_id := next_txn_id s + 1 \<rparr>, out)"
  using assms
  by (simp add: Let_def operation_defs checkIFS_def fun_eq_iff bindA_on_target_getNextTxnId)

definition plain_cfg :: "(32, 32, 16, 16) cfg" where
  "plain_cfg = ExampleRapCfg\<lparr> FeatureSequential := False, FeatureFifo := False,
     FeatureCompressed := False \<rparr>"

lemma features_off_example:
  "rt_fifoWrite (rap_register_target plain_cfg bit_serial_crc scripted_transport unsupported)
     = rt_fifoWrite unsupported"
  using features_off [of plain_cfg bit_serial_crc scripted_transport unsupported]
  by (simp add: plain_cfg_def Let_def)

end
