(* ===== verification/Server_Adapter.thy ===== *)
theory Server_Adapter
  imports Serdes Transports Rtf_Interface
begin

text \<open>
  \<open>ServerAdapter.h\<close>: the server side, a worker thread that forwards commands to a register
  target. Its state is the transport, the target and the \<open>Serdes\<close> object. \<open>handleCmd\<close> is the
  seven overloads, \<open>respond\<close> the visitor with its two handlers, \<open>serve_one\<close> an iteration of
  the loop of \<open>backgroundWork\<close>, and \<open>backgroundWork\<close> the loop itself with a bound on its
  iterations: a server that is not stopped loops forever. An exception that leaves the function
  of a thread ends the program (\<open>Terminated\<close>).
\<close>

record ('w, 't) server =
  srv_transport :: 'w
  srv_target :: 't
  srv_serdes :: serdes

definition RapServerAdapter ::
  "'w wire_transport \<Rightarrow> 'w \<Rightarrow> 't \<Rightarrow> ('w, 't) server result" where
  "RapServerAdapter wire w t =
     bindR (Serdes_constructor (unat (wt_getMaxMessageSize wire w))) (\<lambda>sd.
     Inr \<lparr> srv_transport = w, srv_target = t, srv_serdes = sd \<rparr>)"

section \<open>Handling a command\<close>

text \<open>A local \<open>std::vector<DataType>(n)\<close> that is filled by a read and then moved into the response.\<close>

definition with_vector :: "nat \<Rightarrow> ('t, 'd::zero, unit) span_action \<Rightarrow> ('t, 'd list) action" where
  "with_vector n m t =
     (case m (t, replicate n 0) of
        (Inl e, t', out_data) \<Rightarrow> (Inl e, t')
      | (Inr _, t', out_data) \<Rightarrow> (Inr out_data, t'))"

fun handleCmd ::
  "('t, 'a word, 'd word) register_target \<Rightarrow> ('a::len word, 'd::len word, 'l::len word) Command \<Rightarrow>
     ('t, 'd word Response) action" where
  "handleCmd target (ReadSingleCommand t addr) =
     bindA (rt_read target addr) (\<lambda>data. liftA (Inr (ReadSingleAckResponse t data)))"
| "handleCmd target (WriteSingleCommand t posted addr data) =
     bindA (rt_write target addr data) (\<lambda>_. liftA (Inr (WriteSingleAckResponse t)))"
| "handleCmd target (ReadSeqCommand t start_addr increment count) =
     bindA (with_vector (unat count) (rt_seqRead target start_addr (unat increment))) (\<lambda>out_data.
     liftA (Inr (ReadSeqAckResponse t out_data)))"
| "handleCmd target (WriteSeqCommand t posted start_addr increment data) =
     bindA (rt_seqWrite target start_addr data (unat increment)) (\<lambda>_.
     liftA (Inr (WriteSeqAckResponse t)))"
| "handleCmd target (ReadCompCommand t addresses) =
     bindA (with_vector (length addresses) (rt_compRead target addresses)) (\<lambda>out_data.
     liftA (Inr (ReadCompAckResponse t out_data)))"
| "handleCmd target (WriteCompCommand t posted addr_data) =
     bindA (rt_compWrite target addr_data) (\<lambda>_. liftA (Inr (WriteCompAckResponse t)))"
| "handleCmd target (ReadModifyWriteCommand t posted addr data bits) =
     bindA (rt_readModifyWrite target addr data bits) (\<lambda>_.
     liftA (Inr (ReadmodifywriteSingleAckResponse t)))"

text \<open>
  The two handlers do the same: \<open>catch (std::exception const&)\<close> and \<open>catch (...)\<close> both answer
  with the command's negative acknowledge and status \<open>0xFD\<close>.
\<close>

definition respond ::
  "('t, 'a word, 'd word) register_target \<Rightarrow> ('a::len word, 'd::len word, 'l::len word) Command \<Rightarrow>
     ('t, 'd word Response) action" where
  "respond target cmd t =
     (case handleCmd target cmd t of
        (Inr resp, t') \<Rightarrow> (Inr resp, t')
      | (Inl e, t') \<Rightarrow>
          if is_std_exception e then (Inr (mk_nak cmd (cmd_transaction_id cmd) 0xFD), t')
          else if catchable e then (Inr (mk_nak cmd (cmd_transaction_id cmd) 0xFD), t')
          else (Inl e, t'))"

section \<open>The worker\<close>

definition on_srv_target :: "('t, 'r) action \<Rightarrow> (('w, 't) server, 'r) action" where
  "on_srv_target m s = (let (r, t) = m (srv_target s) in (r, s\<lparr> srv_target := t \<rparr>))"

definition on_srv_transport :: "('w, 'r) action \<Rightarrow> (('w, 't) server, 'r) action" where
  "on_srv_transport m s = (let (r, w) = m (srv_transport s) in (r, s\<lparr> srv_transport := w \<rparr>))"

text \<open>From the received buffer to the sent one.\<close>

definition process_buffer ::
  "('a::len, 'd::len, 'l::len, 'c::len) cfg \<Rightarrow> 'c crc_function \<Rightarrow> 'w wire_transport \<Rightarrow>
     ('t, 'a word, 'd word) register_target \<Rightarrow> Buffer \<Rightarrow> (('w, 't) server, unit) action" where
  "process_buffer cfg crcpp wire target cmd_buf s =
     bindA (liftA (decodeCommand cfg crcpp cmd_buf)) (\<lambda>cmd.
     bindA (on_srv_target (respond target cmd)) (\<lambda>resp.
     bindA (liftA (encodeResponse cfg crcpp (srv_serdes s) resp)) (\<lambda>resp_buf.
     on_srv_transport (wt_send wire resp_buf)))) s"

datatype worker = Running | Stopped | Terminated exn

definition serve_one ::
  "('a::len, 'd::len, 'l::len, 'c::len) cfg \<Rightarrow> 'c crc_function \<Rightarrow> 'w wire_transport \<Rightarrow>
     ('t, 'a word, 'd word) register_target \<Rightarrow> ('w, 't) server \<Rightarrow> worker \<times> ('w, 't) server" where
  "serve_one cfg crcpp wire target s =
     (if wt_stop_requested wire (srv_transport s) then (Stopped, s)
      else case on_srv_transport (wt_recv_stoken wire) s of
          (Inl e, s) \<Rightarrow> (Terminated e, s)
        | (Inr cmd_buf, s) \<Rightarrow>
            if wt_stop_requested wire (srv_transport s) then (Stopped, s)
            else case process_buffer cfg crcpp wire target cmd_buf s of
                (Inl e, s) \<Rightarrow> (Terminated e, s)
              | (Inr _, s) \<Rightarrow> (Running, s))"

fun backgroundWork ::
  "('a::len, 'd::len, 'l::len, 'c::len) cfg \<Rightarrow> 'c crc_function \<Rightarrow> 'w wire_transport \<Rightarrow>
     ('t, 'a word, 'd word) register_target \<Rightarrow> nat \<Rightarrow> ('w, 't) server \<Rightarrow>
     worker \<times> ('w, 't) server" where
  "backgroundWork cfg crcpp wire target 0 s = (Running, s)"
| "backgroundWork cfg crcpp wire target (Suc n) s =
     (case serve_one cfg crcpp wire target s of
        (Running, s') \<Rightarrow> backgroundWork cfg crcpp wire target n s'
      | (outcome, s') \<Rightarrow> (outcome, s'))"

section \<open>Responses belong to their commands\<close>

lemma with_vector_length:
  assumes "span_kept m" and "with_vector n m t = (Inr ds, t')"
  shows "length ds = n"
  using assms by (force simp: with_vector_def span_kept_def split: prod.splits sum.splits)

lemma bindA_liftA_Inr:
  "bindA m (\<lambda>x. liftA (Inr (f x))) s = (r, s') \<longleftrightarrow>
     (\<exists>x. m s = (Inr x, s') \<and> r = Inr (f x)) \<or> (\<exists>e. m s = (Inl e, s') \<and> r = Inl e)"
  by (cases "m s"; cases "fst (m s)") (auto simp: bindA_def)

lemma handleCmd_ack:
  "handleCmd target cmd t = (Inr resp, t') \<Longrightarrow>
     AckResponseType cmd resp \<and> resp_transaction_id resp = cmd_transaction_id cmd"
  by (cases cmd) (auto simp: bindA_liftA_Inr)

lemma respond_own:
  assumes "respond target cmd t = (Inr resp, t')"
  shows "resp_transaction_id resp = cmd_transaction_id cmd \<and>
    (AckResponseType cmd resp \<or> NakResponseType cmd resp \<and> resp_status resp = 0xFD)"
  using assms handleCmd_ack [of target cmd t resp t']
  by (auto simp: respond_def split: prod.splits sum.splits if_splits)

context rtf_target
begin

lemmas seqRead_vector = with_vector_length [OF seqRead_kept]
lemmas compRead_vector = with_vector_length [OF compRead_kept]

text \<open>
  When a command is within the limits of the server's \<open>Serdes\<close> object, so is its response:
  reads return as many values as were asked for.
\<close>

lemma respond_limit:
  fixes cfg :: "('a::len, 'd::len, 'l::len, 'c::len) cfg"
  assumes "respond target cmd t = (Inr resp, t')" and "command_limit cfg sd cmd"
  shows "response_limit cfg sd resp"
proof (cases "handleCmd target cmd t")
  case (Pair r u)
  have nak: "response_limit cfg sd (mk_nak cmd i st)" for i st
    by (cases cmd) simp_all
  show ?thesis
  proof (cases r)
    case (Inl e)
    with Pair assms(1) nak show ?thesis
      by (auto simp: respond_def split: if_splits)
  next
    case (Inr q)
    then have q: "handleCmd target cmd t = (Inr resp, t')"
      using Pair assms(1) by (simp add: respond_def)
    have "unat n < 2 ^ LENGTH('l)" for n :: "'l word" by (rule unsigned_less)
    with q assms(2) show ?thesis
      by (cases cmd)
         (auto simp: bindA_liftA_Inr dest!: seqRead_vector compRead_vector)
  qed
qed

end

text \<open>The response of a command whose handler ended in \<open>r\<close>.\<close>

definition response_for :: "('a, 'd::len word, 'l) Command \<Rightarrow> 'd word Response result \<Rightarrow> 'd word Response" where
  "response_for cmd r = (case r of Inr resp \<Rightarrow> resp | Inl e \<Rightarrow> mk_nak cmd (cmd_transaction_id cmd) 0xFD)"

lemma respond_handled:
  "handleCmd target cmd t = (r, t') \<Longrightarrow> handled r \<Longrightarrow>
     respond target cmd t = (Inr (response_for cmd r), t')"
  by (cases r) (simp_all add: respond_def response_for_def)

lemma fits_bytes_FD: "0 < n \<Longrightarrow> fits_bytes n (0xFD :: 'w::len word)"
proof -
  assume "0 < n"
  have "unat (0xFD :: 'w word) \<le> 0xFD"
    by (metis of_nat_numeral unat_of_nat mod_less_eq_dividend)
  also have "(0xFD :: nat) < 2 ^ (8 * 1)" by simp
  also have "(2 :: nat) ^ (8 * 1) \<le> 2 ^ (8 * n)" using \<open>0 < n\<close> by (intro power_increasing) simp_all
  finally show ?thesis by (simp add: fits_bytes_def)
qed

lemma process_buffer_packet:
  assumes "cfg_wf cfg" and "crc_width_respected crcpp" and "serdes_ok (srv_serdes s)"
    and "spans_kept target" and "command_fits cfg cmd" and "command_limit cfg (srv_serdes s) cmd"
    and "handleCmd target cmd (srv_target s) = (r, t')" and "handled r"
    and "wt_send wire (response_packet cfg crcpp (response_for cmd r)) (srv_transport s) = (q, w)"
  shows "process_buffer cfg crcpp wire target (command_packet cfg crcpp cmd) s =
    (q, s\<lparr> srv_target := t', srv_transport := w \<rparr>)"
proof -
  note w = wf_wireI [OF assms(1,2)]
  note resp = respond_handled [OF assms(7,8)]
  have "encodeResponse cfg crcpp (srv_serdes s) (response_for cmd r)
      = Inr (response_packet cfg crcpp (response_for cmd r))"
    by (simp add: wf_wire.encodeResponse_eq [OF w assms(3)] rtf_target.respond_limit [OF rtf_target.intro [OF assms(4)] resp assms(6)])
  then show ?thesis
    using assms(9)
    by (simp add: process_buffer_def wf_wire.decodeCommand_command_packet [OF w assms(5)]
        on_srv_target_def resp on_srv_transport_def bindA_def)
qed

text \<open>
  The worker serves the commands it receives one after the other: after as many iterations
  as there are commands it has sent their responses in the order of the commands, the target
  has executed them in that order, and the worker is ready for the next one.
\<close>

fun serve_all ::
  "('t, 'a word, 'd word) register_target \<Rightarrow> ('a::len word, 'd::len word, 'l::len word) Command list \<Rightarrow>
     't \<Rightarrow> 'd word Response list \<times> 't" where
  "serve_all target [] t = ([], t)"
| "serve_all target (cmd # cmds) t =
     (let (r, t') = handleCmd target cmd t; (resps, t'') = serve_all target cmds t'
      in (response_for cmd r # resps, t''))"

lemma serve_one_scripted:
  assumes "cfg_wf cfg" and "crc_width_respected crcpp" and "serdes_ok (srv_serdes s)"
    and "spans_kept target" and "command_fits cfg cmd" and "command_limit cfg (srv_serdes s) cmd"
    and "handleCmd target cmd (srv_target s) = (r, t')" and "handled r"
    and "srv_transport s = (sent, command_packet cfg crcpp cmd # bs)"
  shows "serve_one cfg crcpp scripted_transport target s =
    (Running, s\<lparr> srv_target := t',
       srv_transport := (sent @ [response_packet cfg crcpp (response_for cmd r)], bs) \<rparr>)"
  using process_buffer_packet [OF assms(1,2) _ assms(4,5) _ _ assms(8), of "s\<lparr> srv_transport := (sent, bs) \<rparr>"
      t' scripted_transport] assms(3,6,7,9)
  by (simp add: serve_one_def on_srv_transport_def)

lemma worker_serves_in_order:
  fixes cmds :: "('a::len word, 'd::len word, 'l::len word) Command list"
  assumes "cfg_wf cfg" and "crc_width_respected crcpp" and "serdes_ok (srv_serdes s)"
    and "spans_kept target" and "\<forall>(cmd :: ('a word, 'd word, 'l word) Command) t. handled (fst (handleCmd target cmd t))"
    and "\<forall>cmd \<in> set cmds. command_fits cfg cmd \<and> command_limit cfg (srv_serdes s) cmd"
    and "srv_transport s = (sent, map (command_packet cfg crcpp) cmds @ bs)"
    and "serve_all target cmds (srv_target s) = (resps, t')"
  shows "backgroundWork cfg crcpp scripted_transport target (length cmds) s =
    (Running, s\<lparr> srv_target := t',
       srv_transport := (sent @ map (response_packet cfg crcpp) resps, bs) \<rparr>)"
  using assms(3,6-8)
proof (induction cmds arbitrary: s sent resps)
  case Nil
  then show ?case by simp
next
  case (Cons cmd cmds)
  obtain r t1 where r: "handleCmd target cmd (srv_target s) = (r, t1)" by fastforce
  obtain rest where rest: "serve_all target cmds t1 = (rest, t')"
    "resps = response_for cmd r # rest"
    using Cons.prems(4) r by (auto simp: Let_def split: prod.splits)
  have "handled r" using assms(5) r by (metis fst_conv)
  with Cons.prems r have "serve_one cfg crcpp scripted_transport target s =
    (Running, s\<lparr> srv_target := t1,
       srv_transport := (sent @ [response_packet cfg crcpp (response_for cmd r)],
         map (command_packet cfg crcpp) cmds @ bs) \<rparr>)"
    by (intro serve_one_scripted [OF assms(1,2) _ assms(4)]) simp_all
  with Cons.prems rest show ?case
    by (simp add: Cons.IH)
qed

lemma guarded_with_vector:
  assumes "guarded m"
  shows "guarded (with_vector n m)"
  unfolding guarded_def
proof
  fix t
  have "handled (fst (m (t, replicate n 0)))" using assms by (simp add: guarded_def)
  then show "handled (fst (with_vector n m t))"
    by (cases "m (t, replicate n 0)"; cases "fst (m (t, replicate n 0))")
      (auto simp: with_vector_def)
qed

lemma handled_register_file:
  "handled (fst (handleCmd register_file cmd t))"
proof -
  have "guarded (handleCmd register_file cmd)"
    by (cases cmd)
      (auto simp: register_file_def intro!: guarded_intros guarded_with_vector guarded_fill_span)
  then show ?thesis by (simp add: guarded_def)
qed

section \<open>Properties\<close>

text \<open>
  C21. What the worker makes of a buffer that decodes to a command: it runs the target's operation,
  and makes one response of it, the acknowledge with the operation's data when it returned and the
  negative acknowledge with status \<open>0xFD\<close> when it threw anything at all. The response is of the
  command's type and carries its transaction id, and whether the command was posted makes no
  difference. If the response is within the limits of the server's \<open>Serdes\<close> object, its packet is
  sent, once; this is so for every command that is within these limits itself. If it is not, nothing
  is sent and the exception of the encoder leaves the function.
\<close>

theorem request_answered:
  assumes "cfg_wf cfg" and "crc_width_respected crcpp" and "serdes_ok (srv_serdes s)"
    and "decodeCommand cfg crcpp buf = Inr cmd"
    and "handleCmd target cmd (srv_target s) = (r, t')" and "handled r"
  defines "resp \<equiv> response_for cmd r"
  shows "process_buffer cfg crcpp wire target buf s =
      (if response_limit cfg (srv_serdes s) resp
       then (case wt_send wire (response_packet cfg crcpp resp) (srv_transport s) of
          (q, w) \<Rightarrow> (q, s\<lparr> srv_target := t', srv_transport := w \<rparr>))
       else (Inl (response_limit_error resp), s\<lparr> srv_target := t' \<rparr>)) \<and>
    (spans_kept target \<and> command_limit cfg (srv_serdes s) cmd \<longrightarrow>
      response_limit cfg (srv_serdes s) resp) \<and>
    resp_transaction_id resp = cmd_transaction_id cmd \<and>
    (case r of Inr ack \<Rightarrow> resp = ack \<and> AckResponseType cmd ack
     | Inl e \<Rightarrow> NakResponseType cmd resp \<and> resp_status resp = 0xFD)"
proof -
  note responds = respond_handled [OF assms(5,6)]
  have "process_buffer cfg crcpp wire target buf s =
      (if response_limit cfg (srv_serdes s) resp
       then (case wt_send wire (response_packet cfg crcpp resp) (srv_transport s) of
          (q, w) \<Rightarrow> (q, s\<lparr> srv_target := t', srv_transport := w \<rparr>))
       else (Inl (response_limit_error resp), s\<lparr> srv_target := t' \<rparr>))"
    by (simp add: process_buffer_def assms(4) on_srv_target_def responds on_srv_transport_def bindA_def
        wf_wire.encodeResponse_eq [OF wf_wireI [OF assms(1,2)] assms(3)] resp_def split: prod.split)
  moreover have "response_limit cfg (srv_serdes s) resp"
    if "spans_kept target" "command_limit cfg (srv_serdes s) cmd"
    unfolding resp_def by (rule rtf_target.respond_limit [OF rtf_target.intro [OF that(1)] responds that(2)])
  ultimately show ?thesis
    using handleCmd_ack [of target cmd "srv_target s"] assms(5)
    by (auto simp: resp_def response_for_def split: sum.splits)
qed

definition file_server ::
  "nat \<Rightarrow> Buffer list \<Rightarrow> (Buffer list \<times> Buffer list, 32 word \<Rightarrow> 32 word) server" where
  "file_server n bs =
     \<lparr> srv_transport = ([], bs), srv_target = (\<lambda>a. a + 1), srv_serdes = \<lparr> max_message_size = n \<rparr> \<rparr>"

lemma file_server_simps [simp]:
  "srv_transport (file_server n bs) = ([], bs)"
  "srv_target (file_server n bs) = (\<lambda>a. a + 1)"
  "srv_serdes (file_server n bs) = \<lparr> max_message_size = n \<rparr>"
  by (simp_all add: file_server_def)

theorem request_answered_witness:
  "fst (srv_transport (snd (process_buffer ExampleRapCfg bit_serial_crc scripted_transport register_file
     (command_packet ExampleRapCfg bit_serial_crc (ReadSingleCommand 7 0)) (file_server 512 []))))
   = [response_packet ExampleRapCfg bit_serial_crc (ReadSingleNakResponse 7 0xFD)]"
proof -
  have "decodeCommand ExampleRapCfg bit_serial_crc (command_packet ExampleRapCfg bit_serial_crc (ReadSingleCommand 7 0))
      = Inr (ReadSingleCommand 7 0)"
    by (subst example_wire.decodeCommand_iff) (simp add: fits_bytes_def)
  moreover have "handleCmd register_file (ReadSingleCommand 7 0) (srv_target (file_server 512 [])) =
      (Inl broken, \<lambda>a. a + 1)"
    by (simp add: register_file_def file_read_def bindA_def)
  ultimately show ?thesis
    using request_answered [OF cfg_wf_ExampleRapCfg bit_serial_crc_width, of "file_server 512 []" _ "ReadSingleCommand 7 0"
        register_file "Inl broken" "\<lambda>a. a + 1" scripted_transport]
    by (simp add: serdes_ok_def broken_def response_for_def)
qed

text \<open>
  C22. Anything else that reaches the worker ends the program: a buffer that is not the packet of
  a command, down to an empty one or one with a wrong checksum, and an exception of the
  transport, a timeout too. The target is not touched and nothing is sent.
\<close>

theorem worker_dies_on_bad_input:
  assumes "cfg_wf cfg" and "crc_width_respected crcpp"
    and "\<not> wt_stop_requested wire (srv_transport s)" and "\<not> wt_stop_requested wire w"
    and "wt_recv_stoken wire (srv_transport s) = (r, w)"
    and "\<forall>cmd. command_fits cfg cmd \<longrightarrow> r \<noteq> Inr (command_packet cfg crcpp cmd)"
  shows "\<exists>e. serve_one cfg crcpp wire target s = (Terminated e, s\<lparr> srv_transport := w \<rparr>) \<and>
    (case r of Inl e' \<Rightarrow> e = e' | Inr buf \<Rightarrow> decodeCommand cfg crcpp buf = Inl e)"
proof (cases r)
  case (Inl e)
  with assms show ?thesis
    by (simp add: serve_one_def on_srv_transport_def)
next
  case (Inr buf)
  with assms(6) have "decodeCommand cfg crcpp buf \<noteq> Inr cmd" for cmd
    by (simp add: wf_wire.decodeCommand_iff [OF wf_wireI [OF assms(1,2)]])
  then obtain e where "decodeCommand cfg crcpp buf = Inl e"
    by (metis sum.exhaust)
  with Inr assms show ?thesis
    by (simp add: serve_one_def on_srv_transport_def process_buffer_def bindA_def)
qed

theorem worker_dies_on_bad_input_witness:
  "fst (serve_one ExampleRapCfg bit_serial_crc scripted_transport register_file
     (file_server 512 [[1, 2, 3]])) = Terminated MalformedPacketException"
proof -
  have "length (command_packet ExampleRapCfg bit_serial_crc cmd) \<noteq> 3" for cmd
    by (cases cmd) (simp_all add: command_packet_def packet_def)
  then have "[1, 2, 3] \<noteq> command_packet ExampleRapCfg bit_serial_crc cmd" for cmd
    by (metis length_Cons list.size(3) numeral_3_eq_3)
  with worker_dies_on_bad_input [OF cfg_wf_ExampleRapCfg bit_serial_crc_width, of scripted_transport
      "file_server 512 [[1, 2, 3]]" "([], [])" "Inr [1, 2, 3]" register_file]
  show ?thesis
    by (auto simp: decodeCommand_def openPacket_def)
qed

text \<open>
  C23. A sequential read of more values than one response of the server can hold, which a client
  with a larger message size may send, is executed and then ends the program: the target has
  been read, and no response goes out.
\<close>

theorem oversized_read_kills_worker:
  assumes "cfg_wf cfg" and "crc_width_respected crcpp" and "serdes_ok (srv_serdes s)"
    and "spans_kept target" and "command_fits cfg (ReadSeqCommand t a i n)"
    and "max_message_size (srv_serdes s) < msg_size cfg 0 (unat n) 1"
    and "handleCmd target (ReadSeqCommand t a i n) (srv_target s) = (Inr resp, t')"
  shows "process_buffer cfg crcpp wire target (command_packet cfg crcpp (ReadSeqCommand t a i n)) s =
    (Inl (MessageSizeException ''ReadSeqAckResponse count exceeded transport-imposed limit''),
     s\<lparr> srv_target := t' \<rparr>)"
proof -
  note w = wf_wireI [OF assms(1,2)]
  obtain ds where ds: "resp = ReadSeqAckResponse t ds" "length ds = unat n"
    using assms(7) rtf_target.seqRead_vector [OF rtf_target.intro [OF assms(4)]]
    by (auto simp: bindA_liftA_Inr)
  then have "\<not> response_limit cfg (srv_serdes s) resp"
    using assms(6) by simp
  then have "encodeResponse cfg crcpp (srv_serdes s) resp =
      Inl (MessageSizeException ''ReadSeqAckResponse count exceeded transport-imposed limit'')"
    by (simp add: wf_wire.encodeResponse_eq [OF w assms(3)] ds(1) del: response_limit.simps)
  moreover have "respond target (ReadSeqCommand t a i n) (srv_target s) = (Inr resp, t')"
    using respond_handled [OF assms(7)] by (simp add: response_for_def)
  ultimately show ?thesis
    by (simp add: process_buffer_def wf_wire.decodeCommand_command_packet [OF w assms(5)]
        on_srv_target_def bindA_def)
qed

theorem oversized_read_kills_worker_witness:
  "fst (process_buffer ExampleRapCfg bit_serial_crc scripted_transport register_file
     (command_packet ExampleRapCfg bit_serial_crc (ReadSeqCommand 7 8 0 7)) (file_server 32 []))
   = Inl (MessageSizeException ''ReadSeqAckResponse count exceeded transport-imposed limit'')"
proof -
  let ?cmd = "ReadSeqCommand 7 8 0 7 :: (32 word, 32 word, 16 word) Command"
  have upt: "[0..<7] = [0, 1, 2, 3, 4, 5, 6]" by (simp add: upt_rec)
  have "handleCmd register_file ?cmd (srv_target (file_server 32 []))
      = (Inr (ReadSeqAckResponse 7 [9, 9, 9, 9, 9, 9, 9]), \<lambda>a. a + 1)"
    by (simp add: register_file_def with_vector_def fill_span_def addresses_from_def upt
        file_read_def bindA_def)
  from oversized_read_kills_worker [OF cfg_wf_ExampleRapCfg bit_serial_crc_width _ _ _ _ this]
  show ?thesis
    by (simp add: serdes_ok_def fits_bytes_def msg_size_def)
qed

text \<open>
  C24. A stop request ends the worker: one that is there at the beginning of an iteration leaves
  everything as it is, one that is there when the receive returns drops what was received and
  does not touch the target. Once the worker has ended, stopped or terminated, more time changes
  nothing.
\<close>

theorem worker_stops:
  "(wt_stop_requested wire (srv_transport s) \<longrightarrow>
      backgroundWork cfg crcpp wire target (Suc n) s = (Stopped, s)) \<and>
   (\<not> wt_stop_requested wire (srv_transport s) \<and> wt_stop_requested wire w \<and>
      wt_recv_stoken wire (srv_transport s) = (Inr buf, w) \<longrightarrow>
      backgroundWork cfg crcpp wire target (Suc n) s = (Stopped, s\<lparr> srv_transport := w \<rparr>)) \<and>
   (fst (backgroundWork cfg crcpp wire target n s) \<noteq> Running \<longrightarrow>
      backgroundWork cfg crcpp wire target (n + k) s = backgroundWork cfg crcpp wire target n s)"
proof (intro conjI impI)
  show "backgroundWork cfg crcpp wire target (Suc n) s = (Stopped, s)"
    if "wt_stop_requested wire (srv_transport s)"
    using that by (simp add: serve_one_def)
  show "backgroundWork cfg crcpp wire target (Suc n) s = (Stopped, s\<lparr> srv_transport := w \<rparr>)"
    if "\<not> wt_stop_requested wire (srv_transport s) \<and> wt_stop_requested wire w \<and>
      wt_recv_stoken wire (srv_transport s) = (Inr buf, w)"
    using that by (simp add: serve_one_def on_srv_transport_def)
  show "backgroundWork cfg crcpp wire target (n + k) s = backgroundWork cfg crcpp wire target n s"
    if "fst (backgroundWork cfg crcpp wire target n s) \<noteq> Running"
    using that
  proof (induction n arbitrary: s)
    case (Suc n)
    then show ?case
      by (auto split: prod.splits worker.splits)
  qed simp
qed

theorem worker_stops_witness:
  "let wire = scripted_transport\<lparr> wt_stop_requested := (\<lambda>w. True) \<rparr>
   in backgroundWork ExampleRapCfg bit_serial_crc wire register_file 1 (file_server 512 [])
     = (Stopped, file_server 512 [])"
  using worker_stops [of "scripted_transport\<lparr> wt_stop_requested := (\<lambda>w. True) \<rparr>"
      "file_server 512 []" ExampleRapCfg bit_serial_crc register_file 0]
  by (simp add: Let_def)

end
