(* ===== verification/Rap_Stack.thy ===== *)
theory Rap_Stack
  imports Register_Target Server_Adapter
begin

text \<open>
  What client and server share, whatever carries their messages: both are built for one
  configuration with \<open>Serdes\<close> objects of the same limit, and the target that is served answers
  every command with values that fit the wire. The locale \<open>rap_stack\<close> holds what follows for the
  commands and responses that travel between them.
\<close>

section \<open>The assumptions\<close>

text \<open>
  The target's values fit the data field on the wire; it keeps the extent of spans and reaches
  no failed assertion or undefined behaviour.
\<close>

definition values_fit ::
  "('a::len, 'd::len, 'l::len, 'c::len) cfg \<Rightarrow> ('t, 'a word, 'd word) register_target \<Rightarrow> bool" where
  "values_fit cfg target \<longleftrightarrow>
     (\<forall>(cmd :: ('a word, 'd word, 'l word) Command) t resp t'.
        command_fits cfg cmd \<longrightarrow> handleCmd target cmd t = (Inr resp, t') \<longrightarrow> response_fits cfg resp)"

definition stack_ok ::
  "('a::len, 'd::len, 'l::len, 'c::len) cfg \<Rightarrow> 'c crc_function \<Rightarrow> serdes \<Rightarrow>
     ('t, 'a word, 'd word) register_target \<Rightarrow> bool" where
  "stack_ok cfg crcpp sd target \<longleftrightarrow>
     cfg_wf cfg \<and> crc_width_respected crcpp \<and> serdes_ok sd \<and> spans_kept target \<and>
     (\<forall>(cmd :: ('a word, 'd word, 'l word) Command) t. handled (fst (handleCmd target cmd t))) \<and>
     values_fit cfg target"

section \<open>What a command arrives as\<close>

text \<open>
  A field that is wider than its bytes on the wire is cut by the encoder, without an error: a
  command that does not fit (\<open>command_fits\<close>) arrives as another command, or as a packet the server
  cannot decode. \<open>as_received\<close> is the command the server gets, where \<open>legible\<close> says that it gets one.
\<close>

definition legible ::
  "('a::len, 'd::len, 'l::len, 'c::len) cfg \<Rightarrow> 'c crc_function \<Rightarrow>
     ('a word, 'd word, 'l word) Command \<Rightarrow> bool" where
  "legible cfg crcpp cmd \<longleftrightarrow>
     (case decodeCommand cfg crcpp (command_packet cfg crcpp cmd) of Inr _ \<Rightarrow> True | Inl _ \<Rightarrow> False)"

definition as_received ::
  "('a::len, 'd::len, 'l::len, 'c::len) cfg \<Rightarrow> 'c crc_function \<Rightarrow>
     ('a word, 'd word, 'l word) Command \<Rightarrow> ('a word, 'd word, 'l word) Command" where
  "as_received cfg crcpp cmd =
     (case decodeCommand cfg crcpp (command_packet cfg crcpp cmd) of Inr cmd' \<Rightarrow> cmd' | Inl _ \<Rightarrow> cmd)"

text \<open>The commands a client sends, of those it has drawn an id for.\<close>

abbreviation passed ::
  "('a::len, 'd::len, 'l::len, 'c::len) cfg \<Rightarrow> serdes \<Rightarrow> ('a word, 'd word, 'l word) Command list \<Rightarrow>
     ('a word, 'd word, 'l word) Command list" where
  "passed cfg sd cmds \<equiv> filter (command_limit cfg sd) cmds"

lemma same_packet:
  assumes "packet cfg crcpp txn code body = packet cfg crcpp txn' code' body'"
  shows "txn = txn' \<and> code = code' \<and> body = body'"
  using assms by (simp add: packet_def)

lemma le_bytes_count:
  fixes n m :: "'w::len word"
  assumes "le_bytes k n = le_bytes k m" and "fits_bytes k m"
  shows "unat m \<le> unat n"
proof -
  have "take_bit (8 * k) n = take_bit (8 * k) m"
    using assms(1) by (metis le_word_le_bytes)
  then have "m = take_bit (8 * k) n" by (simp add: fits_bytes_take_bit [OF assms(2)])
  then show ?thesis by (simp add: unsigned_take_bit_eq take_bit_nat_less_eq_self)
qed

context wf_wire
begin

text \<open>A command with the packet of one that fits is of the same kind, with lists as long.\<close>

lemma same_command_packet:
  assumes "command_packet cfg crcpp cmd = command_packet cfg crcpp cmd'" and "command_fits cfg cmd'"
  shows "cmd_transaction_id cmd' = cmd_transaction_id cmd \<and> match_response cmd' = match_response cmd \<and>
    (command_limit cfg sd cmd \<longrightarrow> command_limit cfg sd cmd')"
proof -
  have same: "cmd_transaction_id cmd = cmd_transaction_id cmd'" "command_type cmd = command_type cmd'"
    "command_body cfg cmd = command_body cfg cmd'"
    using same_packet [OF assms(1) [unfolded command_packet_def]] by (simp_all add: msg_code_inject)
  have pos: "0 < AddressBytes cfg" "0 < DataBytes cfg" using wf by (simp_all add: cfg_wf_def)
  show ?thesis
  proof (cases cmd)
    case (ReadSeqCommand t a i n)
    with same(2) obtain t' a' i' n' where cmd': "cmd' = ReadSeqCommand t' a' i' n'"
      by (cases cmd') (auto split: if_splits)
    with same(3) ReadSeqCommand have "le_bytes (LengthBytes cfg) n = le_bytes (LengthBytes cfg) n'" by simp
    then have "unat n' \<le> unat n"
      by (rule le_bytes_count) (use assms(2) cmd' in simp)
    then have "msg_size cfg 0 (unat n') 1 \<le> msg_size cfg 0 (unat n) 1" by (simp add: msg_size_def)
    with same(1) ReadSeqCommand cmd' show ?thesis
      by (auto simp: match_response_def fun_eq_iff)
  next
    case (WriteSeqCommand t p a i ds)
    with same(2) obtain t' p' a' i' ds' where cmd': "cmd' = WriteSeqCommand t' p' a' i' ds'"
      by (cases cmd') (auto split: if_splits)
    with arg_cong [OF same(3), of length] WriteSeqCommand pos have "length ds' = length ds" by simp
    with same(1) WriteSeqCommand cmd' show ?thesis by (auto simp: match_response_def fun_eq_iff)
  next
    case (ReadCompCommand t as)
    with same(2) obtain t' as' where cmd': "cmd' = ReadCompCommand t' as'"
      by (cases cmd') (auto split: if_splits)
    with arg_cong [OF same(3), of length] ReadCompCommand pos have "length as' = length as" by simp
    with same(1) ReadCompCommand cmd' show ?thesis by (auto simp: match_response_def fun_eq_iff)
  next
    case (WriteCompCommand t p ads)
    with same(2) obtain t' p' ads' where cmd': "cmd' = WriteCompCommand t' p' ads'"
      by (cases cmd') (auto split: if_splits)
    with arg_cong [OF same(3), of length] WriteCompCommand pos have "length ads' = length ads" by simp
    with same(1) WriteCompCommand cmd' show ?thesis by (auto simp: match_response_def fun_eq_iff)
  qed (use same(1,2) in \<open>cases cmd'; force simp: match_response_def fun_eq_iff split: if_splits\<close>)+
qed

text \<open>A command that fits arrives as itself; any legible one arrives as a command that fits.\<close>

lemma as_received_fits:
  assumes "command_fits cfg cmd"
  shows "legible cfg crcpp cmd" and "as_received cfg crcpp cmd = cmd"
  by (simp_all add: legible_def as_received_def decodeCommand_command_packet [OF assms])

lemma decode_legible:
  "legible cfg crcpp cmd \<Longrightarrow>
     decodeCommand cfg crcpp (command_packet cfg crcpp cmd) = Inr (as_received cfg crcpp cmd)"
  by (simp add: legible_def as_received_def split: sum.splits)

lemma decode_illegible:
  "\<not> legible cfg crcpp cmd \<Longrightarrow> \<exists>e. decodeCommand cfg crcpp (command_packet cfg crcpp cmd) = Inl e"
  by (simp add: legible_def split: sum.splits)

lemma as_received_same:
  assumes "legible cfg crcpp cmd"
  shows "command_fits cfg (as_received cfg crcpp cmd)"
    and "command_packet cfg crcpp (as_received cfg crcpp cmd) = command_packet cfg crcpp cmd"
    and "cmd_transaction_id (as_received cfg crcpp cmd) = cmd_transaction_id cmd"
    and "match_response (as_received cfg crcpp cmd) = match_response cmd"
    and "command_limit cfg sd cmd \<Longrightarrow> command_limit cfg sd (as_received cfg crcpp cmd)"
proof -
  have arrived: "command_fits cfg (as_received cfg crcpp cmd)"
    "command_packet cfg crcpp cmd = command_packet cfg crcpp (as_received cfg crcpp cmd)"
    using decode_legible [OF assms] by (simp_all add: decodeCommand_iff)
  note same = same_command_packet [OF arrived(2,1)]
  from arrived same show "command_fits cfg (as_received cfg crcpp cmd)"
    "command_packet cfg crcpp (as_received cfg crcpp cmd) = command_packet cfg crcpp cmd"
    "cmd_transaction_id (as_received cfg crcpp cmd) = cmd_transaction_id cmd"
    "match_response (as_received cfg crcpp cmd) = match_response cmd"
    "command_limit cfg sd cmd \<Longrightarrow> command_limit cfg sd (as_received cfg crcpp cmd)"
    by simp_all
qed

end

section \<open>Commands served one after the other\<close>

lemma serve_all_append:
  "serve_all target (xs @ ys) t =
     (let (rs, t') = serve_all target xs t; (qs, t'') = serve_all target ys t' in (rs @ qs, t''))"
  by (induction xs arbitrary: t) (simp_all add: Let_def split_def)

lemma length_serve_all: "serve_all target xs t = (rs, t') \<Longrightarrow> length rs = length xs"
  by (induction xs arbitrary: t rs) (auto simp: Let_def split: prod.splits)

lemma serve_all_take:
  assumes "serve_all target cmds t = (resps, t')"
  shows "\<exists>u. serve_all target (take n cmds) t = (take n resps, u)"
proof -
  obtain rs u where u: "serve_all target (take n cmds) t = (rs, u)" by fastforce
  moreover obtain qs where "resps = rs @ qs"
    using assms serve_all_append [of target "take n cmds" "drop n cmds" t] u
    by (auto simp: Let_def split: prod.splits)
  moreover have "length rs = min (length cmds) n" and "length resps = length cmds"
    using length_serve_all [OF u] length_serve_all [OF assms] by simp_all
  ultimately show ?thesis by (auto simp: min_def split: if_splits)
qed

lemma serve_all_nth:
  "serve_all target cmds t = (resps, t') \<Longrightarrow> i < length cmds \<Longrightarrow>
     \<exists>u r u'. handleCmd target (cmds ! i) u = (r, u') \<and> resps ! i = response_for (cmds ! i) r"
proof (induction cmds arbitrary: t resps i)
  case (Cons cmd cmds)
  then show ?case
    by (cases i) (fastforce simp: Let_def split: prod.splits)+
qed simp

lemma serve_all_nth_state:
  "serve_all target cmds t = (resps, t') \<Longrightarrow> i < length cmds \<Longrightarrow>
     resps ! i = response_for (cmds ! i)
       (fst (handleCmd target (cmds ! i) (snd (serve_all target (take i cmds) t))))"
proof (induction cmds arbitrary: t resps i)
  case (Cons cmd cmds)
  obtain r u where r: "handleCmd target cmd t = (r, u)" by fastforce
  obtain rest v where rest: "serve_all target cmds u = (rest, v)" by fastforce
  show ?case
    using Cons.prems Cons.IH [of u rest] r rest by (cases i) (auto simp: Let_def split: prod.splits)
qed simp

lemma response_for_txn:
  "handleCmd target cmd t = (r, t') \<Longrightarrow> resp_transaction_id (response_for cmd r) = cmd_transaction_id cmd"
  using handleCmd_ack [of target cmd t] by (auto simp: response_for_def split: sum.split)

section \<open>The stack\<close>

locale rap_stack =
  fixes cfg :: "('a::len, 'd::len, 'l::len, 'c::len) cfg" and crcpp :: "'c crc_function"
    and sd :: serdes and target :: "('t, 'a word, 'd word) register_target"
  assumes stack: "stack_ok cfg crcpp sd target"
begin

lemma wire: "wf_wire cfg crcpp"
  and sd_ok: "serdes_ok sd"
  and spans: "spans_kept target"
  using stack wf_wireI by (auto simp: stack_ok_def)

lemma handles: "handled (fst (handleCmd target (cmd :: ('a word, 'd word, 'l word) Command) t))"
  using stack by (simp add: stack_ok_def)

lemma response_for_fits:
  fixes cmd :: "('a word, 'd word, 'l word) Command"
  assumes "command_fits cfg cmd" and "handleCmd target cmd t = (r, t')"
  shows "response_fits cfg (response_for cmd r)"
proof (cases r)
  case (Inr resp)
  have "values_fit cfg target" using stack by (simp add: stack_ok_def)
  with Inr assms show ?thesis
    unfolding values_fit_def response_for_def by simp blast
next
  case (Inl e)
  have "0 < DataBytes cfg"
    using stack by (simp add: stack_ok_def cfg_wf_def)
  then show ?thesis
    by (cases cmd) (simp_all add: Inl response_for_def fits_bytes_FD)
qed

lemma serve_all_fits:
  assumes "serve_all target cmds t = (resps, t')" and "\<forall>cmd \<in> set cmds. command_fits cfg cmd"
    and "resp \<in> set resps"
  shows "response_fits cfg resp"
proof -
  obtain i where i: "i < length resps" "resp = resps ! i"
    using assms(3) by (auto simp: in_set_conv_nth)
  then have "i < length cmds" using length_serve_all [OF assms(1)] by simp
  from serve_all_nth [OF assms(1) this] i(2) response_for_fits assms(2) this
  show ?thesis by fastforce
qed

text \<open>
  What the worker does with the packet of a command: it runs what it gets and sends the response, or
  throws what the decoder throws.
\<close>

lemma process_command:
  fixes cmd :: "('a word, 'd word, 'l word) Command"
  assumes "legible cfg crcpp cmd" and "command_limit cfg sd cmd" and "srv_serdes S = sd"
    and "handleCmd target (as_received cfg crcpp cmd) (srv_target S) = (r, t')"
    and "wt_send wire (response_packet cfg crcpp (response_for (as_received cfg crcpp cmd) r))
      (srv_transport S) = (q, w)"
  shows "process_buffer cfg crcpp wire target (command_packet cfg crcpp cmd) S =
    (q, S\<lparr> srv_target := t', srv_transport := w \<rparr>)"
proof -
  note arrived = wf_wire.as_received_same [OF wire assms(1)]
  have "handled r" using handles [of "as_received cfg crcpp cmd" "srv_target S"] assms(4) by simp
  moreover have "cfg_wf cfg" "crc_width_respected crcpp"
    using stack by (simp_all add: stack_ok_def)
  moreover have "command_limit cfg (srv_serdes S) (as_received cfg crcpp cmd)"
    using arrived(5) assms(2,3) by blast
  ultimately have "process_buffer cfg crcpp wire target
      (command_packet cfg crcpp (as_received cfg crcpp cmd)) S =
    (q, S\<lparr> srv_target := t', srv_transport := w \<rparr>)"
    using assms(3-5) sd_ok spans arrived(1) by (intro process_buffer_packet) simp_all
  then show ?thesis by (simp only: arrived(2))
qed

lemma process_illegible:
  assumes "decodeCommand cfg crcpp buf = Inl e"
  shows "process_buffer cfg crcpp wire target buf S = (Inl e, S)"
  by (simp add: process_buffer_def assms)

end

section \<open>An example\<close>

text \<open>A target whose values fill the data field fits every response.\<close>

lemma values_fit_full:
  fixes cfg :: "('a::len, 'd::len, 'l::len, 'c::len) cfg"
  assumes "spans_kept target" and "LENGTH('d) \<le> 8 * DataBytes cfg"
  shows "values_fit cfg target"
  unfolding values_fit_def
proof (intro allI impI)
  fix cmd :: "('a word, 'd word, 'l word) Command" and t resp t'
  assume fits: "command_fits cfg cmd" and h: "handleCmd target cmd t = (Inr resp, t')"
  note rtf = rtf_target.intro [OF assms(1)]
  have all: "list_all (fits_bytes (DataBytes cfg)) ds" for ds :: "'d word list"
    by (simp add: list_all_iff fits_bytes_full [OF assms(2)])
  from fits h show "response_fits cfg resp"
    by (cases cmd)
      (auto simp: bindA_liftA_Inr all fits_bytes_full [OF assms(2)] fits_bytes_def [of "LengthBytes cfg"]
        dest!: rtf_target.seqRead_vector [OF rtf] rtf_target.compRead_vector [OF rtf])
qed

lemma example_stack_ok: "stack_ok ExampleRapCfg bit_serial_crc sd512 register_file"
  by (simp add: stack_ok_def handled_register_file values_fit_full)

interpretation example_rap: rap_stack ExampleRapCfg bit_serial_crc sd512 register_file
  by unfold_locales (rule example_stack_ok)

end
