(* ===== verification/Rap_System.thy ===== *)
theory Rap_System
  imports Rap_Stack
begin

text \<open>
  Client, server and the pair of queues between them, running concurrently: the set-up of the
  README's example. The client thread and the worker thread take turns in any order; each
  rule of \<open>client_step\<close> and \<open>worker_step\<close> is a piece of code between two points where a thread can
  lose the processor with an effect the other can see (an access to a queue). The time a receive
  waits is in its events; a push while it waits is a step of its own.

  The client makes calls one after the other, as \<open>doCmdResp\<close> does, with any commands at all: each
  draws an id; \<open>Issue\<close> is the \<open>send\<close>, or \<open>Refuse\<close> the exception of the encoder before it, \<open>Receive\<close>
  and \<open>GiveUp\<close> are the two ends of the \<open>recv\<close>. The worker takes a buffer (\<open>Take\<close>), and works on it
  until it has sent the response (\<open>Serve\<close>) or an exception ends it (\<open>Crash\<close>); a timeout of its
  receive ends it too, and a stop request before a receive or after it (\<open>Shutdown\<close>).
\<close>

section \<open>States and steps\<close>

datatype ('a, 'd, 'l) client_thread = Idle | Waiting "('a, 'd, 'l) Command"

datatype worker_thread = Listening | Holding Buffer | Ended worker

record ('a, 'd, 'l, 't) system =
  world :: ipc_world
  client_thread :: "('a, 'd, 'l) client_thread"
  txn :: byte
  worker_thread :: worker_thread
  regs :: 't
  issued :: "('a, 'd, 'l) Command list"
  results :: "'d Response result list"

datatype ('a, 'd, 'l) event =
    Issue "('a, 'd, 'l) Command"
  | Refuse "('a, 'd, 'l) Command"
  | Receive
  | GiveUp
  | Take
  | Serve
  | Crash
  | Shutdown

definition server_of ::
  "serdes \<Rightarrow> paired_transport \<Rightarrow> ('a, 'd, 'l, 't) system \<Rightarrow> (paired_transport \<times> ipc_world, 't) server"
where
  "server_of sd s \<sigma> = \<lparr> srv_transport = (s, world \<sigma>), srv_target = regs \<sigma>, srv_serdes = sd \<rparr>"

text \<open>The calling thread: \<open>getNextTxnId\<close> and \<open>doCmdResp\<close> of \<open>RapRegisterTarget\<close>.\<close>

inductive client_step ::
  "('a::len, 'd::len, 'l::len, 'c::len) cfg \<Rightarrow> 'c crc_function \<Rightarrow> serdes \<Rightarrow> paired_transport \<Rightarrow>
     ('a word, 'd word, 'l word, 't) system \<Rightarrow> ('a word, 'd word, 'l word) event \<Rightarrow>
     ('a word, 'd word, 'l word, 't) system \<Rightarrow> bool"
  for cfg crcpp sd c
where
  issue: "client_thread \<sigma> = Idle \<Longrightarrow> cmd_transaction_id cmd = txn \<sigma> \<Longrightarrow>
    encodeCommand cfg crcpp sd cmd = Inr buf \<Longrightarrow>
    client_step cfg crcpp sd c \<sigma> (Issue cmd)
      (\<sigma>\<lparr> client_thread := Waiting cmd, txn := txn \<sigma> + 1, world := send c buf (world \<sigma>),
         issued := issued \<sigma> @ [cmd] \<rparr>)"
| refuse: "client_thread \<sigma> = Idle \<Longrightarrow> cmd_transaction_id cmd = txn \<sigma> \<Longrightarrow>
    encodeCommand cfg crcpp sd cmd = Inl e \<Longrightarrow>
    client_step cfg crcpp sd c \<sigma> (Refuse cmd)
      (\<sigma>\<lparr> txn := txn \<sigma> + 1, issued := issued \<sigma> @ [cmd], results := results \<sigma> @ [Inl e] \<rparr>)"
| receive: "client_thread \<sigma> = Waiting cmd \<Longrightarrow> first_push events = None \<Longrightarrow>
    recv c events (world \<sigma>) = Some (Inr reply, w) \<Longrightarrow>
    client_step cfg crcpp sd c \<sigma> Receive
      (\<sigma>\<lparr> client_thread := Idle, world := w,
         results := results \<sigma> @ [bindR (decodeResponse cfg crcpp reply) (match_response cmd)] \<rparr>)"
| give_up: "client_thread \<sigma> = Waiting cmd \<Longrightarrow> first_push events = None \<Longrightarrow>
    recv c events (world \<sigma>) = Some (Inl e, w) \<Longrightarrow>
    client_step cfg crcpp sd c \<sigma> GiveUp
      (\<sigma>\<lparr> client_thread := Idle, world := w, results := results \<sigma> @ [Inl e] \<rparr>)"

text \<open>The worker: the loop of \<open>backgroundWork\<close> of \<open>RapServerAdapter\<close>.\<close>

inductive worker_step ::
  "('a::len, 'd::len, 'l::len, 'c::len) cfg \<Rightarrow> 'c crc_function \<Rightarrow> serdes \<Rightarrow>
     ('t, 'a word, 'd word) register_target \<Rightarrow> paired_transport \<Rightarrow>
     ('a word, 'd word, 'l word, 't) system \<Rightarrow> ('a word, 'd word, 'l word) event \<Rightarrow>
     ('a word, 'd word, 'l word, 't) system \<Rightarrow> bool"
  for cfg crcpp sd target s
where
  take_cmd: "worker_thread \<sigma> = Listening \<Longrightarrow> first_push events = None \<Longrightarrow>
    recv_stoken s False events False (world \<sigma>) = Some (Inr buf, w) \<Longrightarrow>
    StopRequested \<notin> set events \<Longrightarrow>
    worker_step cfg crcpp sd target s \<sigma> Take (\<sigma>\<lparr> worker_thread := Holding buf, world := w \<rparr>)"
| serve: "worker_thread \<sigma> = Holding buf \<Longrightarrow>
    process_buffer cfg crcpp ipc_transport target buf (server_of sd s \<sigma>) = (Inr (), S) \<Longrightarrow>
    worker_step cfg crcpp sd target s \<sigma> Serve
      (\<sigma>\<lparr> worker_thread := Listening, world := snd (srv_transport S), regs := srv_target S \<rparr>)"
| crash: "worker_thread \<sigma> = Holding buf \<Longrightarrow>
    process_buffer cfg crcpp ipc_transport target buf (server_of sd s \<sigma>) = (Inl e, S) \<Longrightarrow>
    worker_step cfg crcpp sd target s \<sigma> Crash
      (\<sigma>\<lparr> worker_thread := Ended (Terminated e), world := snd (srv_transport S), regs := srv_target S \<rparr>)"
| idle_crash: "worker_thread \<sigma> = Listening \<Longrightarrow> first_push events = None \<Longrightarrow>
    recv_stoken s False events False (world \<sigma>) = Some (Inl e, w) \<Longrightarrow>
    StopRequested \<notin> set events \<Longrightarrow>
    worker_step cfg crcpp sd target s \<sigma> Crash
      (\<sigma>\<lparr> worker_thread := Ended (Terminated e), world := w \<rparr>)"
| shutdown: "worker_thread \<sigma> = Listening \<or> worker_thread \<sigma> = Holding buf \<Longrightarrow>
    worker_step cfg crcpp sd target s \<sigma> Shutdown (\<sigma>\<lparr> worker_thread := Ended Stopped \<rparr>)"

inductive_cases crashE: "worker_step cfg crcpp sd target s \<sigma> Crash \<sigma>'"

definition step ::
  "('a::len, 'd::len, 'l::len, 'c::len) cfg \<Rightarrow> 'c crc_function \<Rightarrow> serdes \<Rightarrow>
     ('t, 'a word, 'd word) register_target \<Rightarrow> paired_transport \<Rightarrow> paired_transport \<Rightarrow>
     ('a word, 'd word, 'l word, 't) system \<Rightarrow> ('a word, 'd word, 'l word) event \<Rightarrow>
     ('a word, 'd word, 'l word, 't) system \<Rightarrow> bool" where
  "step cfg crcpp sd target c s \<sigma> ev \<sigma>' \<longleftrightarrow>
     client_step cfg crcpp sd c \<sigma> ev \<sigma>' \<or> worker_step cfg crcpp sd target s \<sigma> ev \<sigma>'"

lemma client_moves: "client_step cfg crcpp sd c \<sigma> ev \<sigma>' \<Longrightarrow> step cfg crcpp sd target c s \<sigma> ev \<sigma>'"
  by (simp add: step_def)

lemma worker_moves: "worker_step cfg crcpp sd target s \<sigma> ev \<sigma>' \<Longrightarrow> step cfg crcpp sd target c s \<sigma> ev \<sigma>'"
  by (simp add: step_def)

inductive run ::
  "('a::len, 'd::len, 'l::len, 'c::len) cfg \<Rightarrow> 'c crc_function \<Rightarrow> serdes \<Rightarrow>
     ('t, 'a word, 'd word) register_target \<Rightarrow> paired_transport \<Rightarrow> paired_transport \<Rightarrow>
     ('a word, 'd word, 'l word, 't) system \<Rightarrow> ('a word, 'd word, 'l word) event list \<Rightarrow>
     ('a word, 'd word, 'l word, 't) system \<Rightarrow> bool"
  for cfg crcpp sd target c s \<sigma>
where
  run_nil: "run cfg crcpp sd target c s \<sigma> [] \<sigma>"
| run_snoc: "run cfg crcpp sd target c s \<sigma> evs \<sigma>' \<Longrightarrow> step cfg crcpp sd target c s \<sigma>' ev \<sigma>'' \<Longrightarrow>
    run cfg crcpp sd target c s \<sigma> (evs @ [ev]) \<sigma>''"

lemma run_single: "step cfg crcpp sd target c s \<sigma> ev \<sigma>' \<Longrightarrow> run cfg crcpp sd target c s \<sigma> [ev] \<sigma>'"
  using run_snoc [OF run_nil] by fastforce

lemma run_append:
  "run cfg crcpp sd target c s \<sigma> evs \<sigma>' \<Longrightarrow> run cfg crcpp sd target c s \<sigma>' evs' \<sigma>'' \<Longrightarrow>
     run cfg crcpp sd target c s \<sigma> (evs @ evs') \<sigma>''"
  by (rotate_tac 1, induction rule: run.induct) (auto intro: run.intros simp flip: append_assoc)

definition initial :: "ipc_world \<Rightarrow> byte \<Rightarrow> 't \<Rightarrow> ('a, 'd, 'l, 't) system" where
  "initial w t0 r =
     \<lparr> world = w, client_thread = Idle, txn = t0, worker_thread = Listening, regs = r,
       issued = [], results = [] \<rparr>"

section \<open>What the set-up needs\<close>

text \<open>Both ends are joined by two queues; the rest is what both sides need anyway (\<open>stack_ok\<close>).\<close>

definition joined_ends :: "paired_transport \<Rightarrow> paired_transport \<Rightarrow> bool" where
  "joined_ends c s \<longleftrightarrow>
     tx_queue c = rx_queue s \<and> tx_queue s = rx_queue c \<and> tx_queue c \<noteq> rx_queue c"

definition system_ok ::
  "('a::len, 'd::len, 'l::len, 'c::len) cfg \<Rightarrow> 'c crc_function \<Rightarrow> serdes \<Rightarrow>
     ('t, 'a word, 'd word) register_target \<Rightarrow> paired_transport \<Rightarrow> paired_transport \<Rightarrow> bool" where
  "system_ok cfg crcpp sd target c s \<longleftrightarrow> stack_ok cfg crcpp sd target \<and> joined_ends c s"

definition empty_queues :: "paired_transport \<Rightarrow> paired_transport \<Rightarrow> ipc_world \<Rightarrow> bool" where
  "empty_queues c s w \<longleftrightarrow> queue (queues w (rx_queue s)) = [] \<and> queue (queues w (rx_queue c)) = []"

section \<open>The invariant\<close>

definition timed_out :: "'r result \<Rightarrow> bool" where
  "timed_out r \<longleftrightarrow> r = Inl TransportTimeoutException"

definition refused :: "'r result \<Rightarrow> bool" where
  "refused r \<longleftrightarrow> (case r of Inl (MessageSizeException m) \<Rightarrow> True | _ \<Rightarrow> False)"

abbreviation replied :: "'r result \<Rightarrow> bool" where
  "replied r \<equiv> \<not> timed_out r \<and> \<not> refused r"

definition replies :: "'r result list \<Rightarrow> nat" where
  "replies rs = length (filter replied rs)"

fun held :: "worker_thread \<Rightarrow> Buffer list" where
  "held (Holding b) = [b]"
| "held _ = []"

fun awaited :: "('a, 'd, 'l) client_thread \<Rightarrow> ('a, 'd, 'l) Command list" where
  "awaited (Waiting cmd) = [cmd]"
| "awaited Idle = []"

text \<open>
  \<open>resps\<close> are the responses of what the worker has executed: a prefix of the commands that were
  sent, as it received them, in order. The packets of the rest are in the worker's hands and in its
  queue (but for one that an ended worker has dropped), the packets of the responses the client has
  not received are in the client's queue, and what the client took a reply for was the response of
  the command that many places further on.
\<close>

definition executed_prefix where
  "executed_prefix cfg crcpp target sent r0 r resps \<longleftrightarrow>
     serve_all target (map (as_received cfg crcpp) (take (length resps) sent)) r0 = (resps, r) \<and>
     length resps \<le> length sent \<and> (\<forall>cmd \<in> set (take (length resps) sent). legible cfg crcpp cmd)"

definition pending_packets where
  "pending_packets cfg crcpp worker q cmds \<longleftrightarrow>
     (\<exists>lost. lost @ held worker @ q = map (command_packet cfg crcpp) cmds \<and>
        (lost = [] \<or> (\<exists>how. worker = Ended how)))"

definition results_explained where
  "results_explained cfg sd cmds resps rs \<longleftrightarrow>
     (\<forall>i < length rs.
        if command_limit cfg sd (cmds ! i)
        then timed_out (rs ! i) \<or> replies (take i rs) < length resps \<and>
          rs ! i = match_response (cmds ! i) (resps ! replies (take i rs))
        else rs ! i = Inl (command_limit_error (cmds ! i)))"

definition consistent where
  "consistent cfg crcpp sd target c s t0 r0 \<sigma> resps \<longleftrightarrow>
     executed_prefix cfg crcpp target (passed cfg sd (issued \<sigma>)) r0 (regs \<sigma>) resps \<and>
     pending_packets cfg crcpp (worker_thread \<sigma>) (queue (queues (world \<sigma>) (rx_queue s)))
       (drop (length resps) (passed cfg sd (issued \<sigma>))) \<and>
     queue (queues (world \<sigma>) (rx_queue c)) =
       map (response_packet cfg crcpp) (drop (replies (results \<sigma>)) resps) \<and>
     replies (results \<sigma>) \<le> length resps \<and>
     (\<exists>old. issued \<sigma> = old @ awaited (client_thread \<sigma>) \<and> length old = length (results \<sigma>)) \<and>
     (\<forall>cmd \<in> set (awaited (client_thread \<sigma>)). command_limit cfg sd cmd) \<and>
     txn \<sigma> = t0 + word_of_nat (length (issued \<sigma>)) \<and>
     (\<forall>i < length (issued \<sigma>). cmd_transaction_id (issued \<sigma> ! i) = t0 + word_of_nat i) \<and>
     results_explained cfg sd (issued \<sigma>) resps (results \<sigma>)"

lemma replies_snoc [simp]: "replies (rs @ [r]) = replies rs + (if replied r then 1 else 0)"
  by (simp add: replies_def)

lemma replies_le: "replies rs \<le> length rs"
  by (simp add: replies_def)

lemma replied_match_response [simp]:
  "\<not> timed_out (match_response cmd resp)" "\<not> refused (match_response cmd resp)"
  by (simp_all add: match_response_def timed_out_def refused_def)

lemma refused_limit [simp]:
  assumes "\<not> command_limit cfg sd cmd"
  shows "refused (Inl (command_limit_error cmd))" and "\<not> timed_out (Inl (command_limit_error cmd))"
  using command_limit_error_cases [OF assms] by (auto simp: refused_def timed_out_def)

lemma pending_packets_snoc:
  "pending_packets cfg crcpp worker q cmds \<Longrightarrow>
     pending_packets cfg crcpp worker (q @ [command_packet cfg crcpp cmd]) (cmds @ [cmd])"
  by (auto simp: pending_packets_def)

lemma results_explained_more:
  "results_explained cfg sd cmds resps rs \<Longrightarrow> length rs \<le> length cmds \<Longrightarrow>
     results_explained cfg sd (cmds @ cmds') (resps @ extra) rs"
  by (auto simp: results_explained_def nth_append)

lemma results_explained_snoc:
  assumes "results_explained cfg sd (old @ [cmd]) resps rs" and "length old = length rs"
    and "if command_limit cfg sd cmd
      then timed_out r \<or> replies rs < length resps \<and> r = match_response cmd (resps ! replies rs)
      else r = Inl (command_limit_error cmd)"
  shows "results_explained cfg sd (old @ [cmd]) resps (rs @ [r])"
  using assms by (auto simp: results_explained_def nth_append less_Suc_eq)

lemma consistent_initial:
  "empty_queues c s w \<Longrightarrow> consistent cfg crcpp sd target c s t0 r (initial w t0 r) []"
  by (simp add: consistent_def initial_def empty_queues_def replies_def executed_prefix_def
      pending_packets_def results_explained_def)

locale rap_system = rap_stack cfg crcpp sd target
  for cfg :: "('a::len, 'd::len, 'l::len, 'c::len) cfg" and crcpp :: "'c crc_function"
    and sd :: serdes and target :: "('t, 'a word, 'd word) register_target" +
  fixes c s :: paired_transport
  assumes joined: "joined_ends c s"
begin

lemma ok: "system_ok cfg crcpp sd target c s"
  using stack joined by (simp add: system_ok_def)

lemma joined_queues: "tx_queue c = rx_queue s" "tx_queue s = rx_queue c"
    "rx_queue c \<noteq> rx_queue s" "rx_queue s \<noteq> rx_queue c"
  using joined by (auto simp: joined_ends_def)

text \<open>Each step of the system keeps the invariant.\<close>

lemma consistent_issue:
  assumes inv: "consistent cfg crcpp sd target c s t0 r0 \<sigma> resps"
    and idle: "client_thread \<sigma> = Idle" and id: "cmd_transaction_id cmd = txn \<sigma>"
    and enc: "encodeCommand cfg crcpp sd cmd = Inr buf"
  shows "consistent cfg crcpp sd target c s t0 r0
    (\<sigma>\<lparr> client_thread := Waiting cmd, txn := txn \<sigma> + 1, world := send c buf (world \<sigma>),
       issued := issued \<sigma> @ [cmd] \<rparr>) resps"
proof -
  have "command_limit cfg sd cmd" and buf: "buf = command_packet cfg crcpp cmd"
    using enc by (simp_all add: wf_wire.encodeCommand_eq [OF wire sd_ok] split: if_splits)
  moreover have "queue (queues (send c buf (world \<sigma>)) (rx_queue s)) =
      queue (queues (world \<sigma>) (rx_queue s)) @ [buf]"
    by (simp add: send_def Let_def joined_queues push_def)
  moreover have "queues (send c buf (world \<sigma>)) (rx_queue c) = queues (world \<sigma>) (rx_queue c)"
    by (simp add: joined_queues)
  moreover have "length (results \<sigma>) = length (issued \<sigma>)"
    using inv idle by (auto simp: consistent_def)
  ultimately show ?thesis
    using inv idle id results_explained_more [of cfg sd "issued \<sigma>" resps "results \<sigma>" "[cmd]" "[]"]
    by (auto simp: consistent_def nth_append less_Suc_eq executed_prefix_def pending_packets_snoc)
qed

lemma consistent_refuse:
  assumes inv: "consistent cfg crcpp sd target c s t0 r0 \<sigma> resps"
    and idle: "client_thread \<sigma> = Idle" and id: "cmd_transaction_id cmd = txn \<sigma>"
    and enc: "encodeCommand cfg crcpp sd cmd = Inl e"
  shows "consistent cfg crcpp sd target c s t0 r0
    (\<sigma>\<lparr> txn := txn \<sigma> + 1, issued := issued \<sigma> @ [cmd], results := results \<sigma> @ [Inl e] \<rparr>) resps"
proof -
  have limit: "\<not> command_limit cfg sd cmd" and e: "e = command_limit_error cmd"
    using enc by (simp_all add: wf_wire.encodeCommand_eq [OF wire sd_ok] split: if_splits)
  have len: "length (issued \<sigma>) = length (results \<sigma>)"
    using inv idle by (auto simp: consistent_def)
  have "results_explained cfg sd (issued \<sigma> @ [cmd]) resps (results \<sigma>)"
    using inv len results_explained_more [of cfg sd "issued \<sigma>" resps "results \<sigma>" "[cmd]" "[]"]
    by (simp add: consistent_def)
  from results_explained_snoc [OF this len, of "Inl e"] limit e
  have "results_explained cfg sd (issued \<sigma> @ [cmd]) resps (results \<sigma> @ [Inl e])" by simp
  then show ?thesis
    using inv idle id len limit by (auto simp: consistent_def nth_append less_Suc_eq e)
qed

text \<open>The call that waits is the last one.\<close>

lemma waiting_issued:
  assumes "consistent cfg crcpp sd target c s t0 r0 \<sigma> resps" and "client_thread \<sigma> = Waiting cmd"
  obtains old where "issued \<sigma> = old @ [cmd]" "length old = length (results \<sigma>)" "command_limit cfg sd cmd"
  using assms by (auto simp: consistent_def)

lemma executed_fits:
  assumes "executed_prefix cfg crcpp target sent r0 r resps" and "resp \<in> set resps"
  shows "response_fits cfg resp"
proof (rule serve_all_fits)
  show "serve_all target (map (as_received cfg crcpp) (take (length resps) sent)) r0 = (resps, r)"
    using assms(1) by (simp add: executed_prefix_def)
  show "\<forall>cmd \<in> set (map (as_received cfg crcpp) (take (length resps) sent)). command_fits cfg cmd"
    using assms(1) wf_wire.as_received_same(1) [OF wire] by (auto simp: executed_prefix_def)
qed (rule assms(2))

lemma consistent_receive:
  assumes inv: "consistent cfg crcpp sd target c s t0 r0 \<sigma> resps"
    and wait: "client_thread \<sigma> = Waiting cmd" and quiet: "first_push events = None"
    and recv: "recv c events (world \<sigma>) = Some (Inr reply, w)"
  shows "consistent cfg crcpp sd target c s t0 r0
    (\<sigma>\<lparr> client_thread := Idle, world := w,
       results := results \<sigma> @ [bindR (decodeResponse cfg crcpp reply) (match_response cmd)] \<rparr>) resps"
proof -
  let ?j = "replies (results \<sigma>)"
  note q = recv_quiet_Inr [OF recv quiet]
  have "map (response_packet cfg crcpp) (drop ?j resps) = reply # queue (queues w (rx_queue c))"
    using inv q by (simp add: consistent_def)
  moreover from this have j: "?j < length resps"
    by (intro not_le_imp_less notI) simp
  ultimately have reply: "reply = response_packet cfg crcpp (resps ! ?j)"
    and rest: "queue (queues w (rx_queue c)) = map (response_packet cfg crcpp) (drop (Suc ?j) resps)"
    by (simp_all add: Cons_nth_drop_Suc [symmetric])
  have "executed_prefix cfg crcpp target (passed cfg sd (issued \<sigma>)) r0 (regs \<sigma>) resps"
    using inv by (simp add: consistent_def)
  from executed_fits [OF this, of "resps ! ?j"] j have "response_fits cfg (resps ! ?j)" by simp
  then have res: "bindR (decodeResponse cfg crcpp reply) (match_response cmd) = match_response cmd (resps ! ?j)"
    by (simp add: reply wf_wire.decodeResponse_response_packet [OF wire])
  obtain old where old: "issued \<sigma> = old @ [cmd]" "length old = length (results \<sigma>)" "command_limit cfg sd cmd"
    using waiting_issued [OF inv wait] .
  have "results_explained cfg sd (old @ [cmd]) resps (results \<sigma>)"
    using inv old(1) by (simp add: consistent_def)
  from results_explained_snoc [OF this old(2), of "match_response cmd (resps ! ?j)"] old(3) j
  have "results_explained cfg sd (old @ [cmd]) resps (results \<sigma> @ [match_response cmd (resps ! ?j)])" by simp
  then show ?thesis
    using inv wait j rest q joined_queues old unfolding res by (auto simp: consistent_def)
qed

lemma consistent_give_up:
  assumes inv: "consistent cfg crcpp sd target c s t0 r0 \<sigma> resps"
    and wait: "client_thread \<sigma> = Waiting cmd" and quiet: "first_push events = None"
    and recv: "recv c events (world \<sigma>) = Some (Inl e, w)"
  shows "consistent cfg crcpp sd target c s t0 r0
    (\<sigma>\<lparr> client_thread := Idle, world := w, results := results \<sigma> @ [Inl e] \<rparr>) resps"
proof -
  have w: "w = world \<sigma>" and e: "timed_out (Inl e :: 'd word Response result)"
    using recv_quiet_Inl [OF recv quiet] by (simp_all add: timed_out_def)
  obtain old where old: "issued \<sigma> = old @ [cmd]" "length old = length (results \<sigma>)" "command_limit cfg sd cmd"
    using waiting_issued [OF inv wait] .
  have "results_explained cfg sd (old @ [cmd]) resps (results \<sigma>)"
    using inv old(1) by (simp add: consistent_def)
  from results_explained_snoc [OF this old(2), of "Inl e"] old(3) e
  have "results_explained cfg sd (old @ [cmd]) resps (results \<sigma> @ [Inl e])" by simp
  then show ?thesis using inv w e old by (simp add: consistent_def)
qed

lemma consistent_take:
  assumes inv: "consistent cfg crcpp sd target c s t0 r0 \<sigma> resps"
    and listen: "worker_thread \<sigma> = Listening" and quiet: "first_push events = None"
    and recv: "recv_stoken s False events False (world \<sigma>) = Some (Inr buf, w)"
    and no_stop: "StopRequested \<notin> set events"
  shows "consistent cfg crcpp sd target c s t0 r0
    (\<sigma>\<lparr> worker_thread := Holding buf, world := w \<rparr>) resps"
proof -
  have "recv (s\<lparr> log := False \<rparr>) events (world \<sigma>) = Some (Inr buf, w)"
    using recv by (simp add: recv_stoken_plain [OF no_stop])
  from recv_quiet_Inr [OF this quiet] inv listen joined_queues show ?thesis
    by (simp add: consistent_def pending_packets_def)
qed

text \<open>What the worker holds is the packet of the first command it has not executed.\<close>

lemma held_command:
  assumes inv: "consistent cfg crcpp sd target c s t0 r0 \<sigma> resps"
    and hold: "worker_thread \<sigma> = Holding buf"
  obtains cmd where "length resps < length (passed cfg sd (issued \<sigma>))"
    "cmd = passed cfg sd (issued \<sigma>) ! length resps" "cmd \<in> set (issued \<sigma>)"
    "buf = command_packet cfg crcpp cmd" "command_limit cfg sd cmd"
    "queue (queues (world \<sigma>) (rx_queue s)) =
       map (command_packet cfg crcpp) (drop (Suc (length resps)) (passed cfg sd (issued \<sigma>)))"
proof -
  let ?k = "length resps" and ?sent = "passed cfg sd (issued \<sigma>)"
  have packets: "buf # queue (queues (world \<sigma>) (rx_queue s)) = map (command_packet cfg crcpp) (drop ?k ?sent)"
    using inv hold by (auto simp: consistent_def pending_packets_def)
  then have k: "?k < length ?sent"
    by (intro not_le_imp_less notI) simp
  then have "?sent ! ?k \<in> set ?sent" by (rule nth_mem)
  with packets [unfolded Cons_nth_drop_Suc [OF k, symmetric]] k show ?thesis
    by (intro that [of "?sent ! ?k"]) simp_all
qed

text \<open>The response packet is behind those the client has not received.\<close>

lemma queues_after_reply:
  "queue (queues (send s out (world \<sigma>)) (rx_queue c)) = queue (queues (world \<sigma>) (rx_queue c)) @ [out]"
  "queues (send s out (world \<sigma>)) (rx_queue s) = queues (world \<sigma>) (rx_queue s)"
  by (simp_all add: send_def Let_def joined_queues push_def)

text \<open>What the worker makes of it: the command is executed as it arrived and its response sent.\<close>

lemma serve_held:
  assumes inv: "consistent cfg crcpp sd target c s t0 r0 \<sigma> resps"
    and hold: "worker_thread \<sigma> = Holding buf"
    and proc: "process_buffer cfg crcpp ipc_transport target buf (server_of sd s \<sigma>) = (Inr (), S)"
  obtains cmd r where "length resps < length (passed cfg sd (issued \<sigma>))"
    "cmd = passed cfg sd (issued \<sigma>) ! length resps" "buf = command_packet cfg crcpp cmd" "legible cfg crcpp cmd"
    "command_limit cfg sd cmd" "handleCmd target (as_received cfg crcpp cmd) (regs \<sigma>) = (r, srv_target S)"
    "consistent cfg crcpp sd target c s t0 r0
      (\<sigma>\<lparr> worker_thread := Listening, world := snd (srv_transport S), regs := srv_target S \<rparr>)
      (resps @ [response_for (as_received cfg crcpp cmd) r])"
proof -
  let ?k = "length resps" and ?sent = "passed cfg sd (issued \<sigma>)"
  obtain cmd where k: "?k < length ?sent" and cmd: "cmd = ?sent ! ?k"
    and buf: "buf = command_packet cfg crcpp cmd" and limit: "command_limit cfg sd cmd"
    and rest: "queue (queues (world \<sigma>) (rx_queue s)) = map (command_packet cfg crcpp) (drop (Suc ?k) ?sent)"
    using held_command [OF inv hold] by metis
  have legible: "legible cfg crcpp cmd"
  proof (rule ccontr)
    assume "\<not> legible cfg crcpp cmd"
    then obtain e where "decodeCommand cfg crcpp buf = Inl e"
      using wf_wire.decode_illegible [OF wire] buf by blast
    with proc show False by (simp add: process_illegible)
  qed
  let ?cmd = "as_received cfg crcpp cmd"
  obtain r u where r: "handleCmd target ?cmd (regs \<sigma>) = (r, u)" by fastforce
  let ?w = "send s (response_packet cfg crcpp (response_for ?cmd r)) (world \<sigma>)"
  from process_command [OF legible limit, of "server_of sd s \<sigma>" r u ipc_transport "Inr ()" "(s, ?w)"] r proc
  have S: "snd (srv_transport S) = ?w" "srv_target S = u"
    by (auto simp: server_of_def buf)
  have "take (Suc ?k) ?sent = take ?k ?sent @ [cmd]"
    by (simp add: take_Suc_conv_app_nth k cmd)
  then have "executed_prefix cfg crcpp target ?sent r0 u (resps @ [response_for ?cmd r])"
    using inv r k legible by (auto simp: consistent_def executed_prefix_def serve_all_append Let_def)
  moreover have "results_explained cfg sd (issued \<sigma>) (resps @ [response_for ?cmd r]) (results \<sigma>)"
    using inv results_explained_more [of cfg sd "issued \<sigma>" resps "results \<sigma>" "[]"]
    by (auto simp: consistent_def)
  ultimately have "consistent cfg crcpp sd target c s t0 r0
    (\<sigma>\<lparr> worker_thread := Listening, world := snd (srv_transport S), regs := srv_target S \<rparr>)
    (resps @ [response_for ?cmd r])"
    using inv rest by (auto simp: consistent_def S queues_after_reply pending_packets_def)
  with S k cmd buf legible limit r show ?thesis by (intro that [of cmd r]) simp_all
qed

text \<open>The only packet that ends the worker is one of a command that does not fit.\<close>

lemma crash_held:
  assumes inv: "consistent cfg crcpp sd target c s t0 r0 \<sigma> resps"
    and hold: "worker_thread \<sigma> = Holding buf"
    and proc: "process_buffer cfg crcpp ipc_transport target buf (server_of sd s \<sigma>) = (Inl e, S)"
  obtains cmd where "cmd \<in> set (issued \<sigma>)" "command_limit cfg sd cmd" "\<not> command_fits cfg cmd"
    "buf = command_packet cfg crcpp cmd" "decodeCommand cfg crcpp buf = Inl e" "S = server_of sd s \<sigma>"
proof -
  obtain cmd where cmd: "cmd \<in> set (issued \<sigma>)" "buf = command_packet cfg crcpp cmd" "command_limit cfg sd cmd"
    using held_command [OF inv hold] by metis
  let ?cmd = "as_received cfg crcpp cmd"
  obtain r u where r: "handleCmd target ?cmd (regs \<sigma>) = (r, u)" by fastforce
  have "\<not> legible cfg crcpp cmd"
  proof
    assume legible: "legible cfg crcpp cmd"
    let ?w = "send s (response_packet cfg crcpp (response_for ?cmd r)) (world \<sigma>)"
    from process_command [OF legible cmd(3), of "server_of sd s \<sigma>" r u ipc_transport "Inr ()" "(s, ?w)"] r proc
    show False by (simp add: server_of_def cmd(2))
  qed
  moreover from wf_wire.decode_illegible [OF wire this] obtain e' where
    e': "decodeCommand cfg crcpp buf = Inl e'" by (auto simp: cmd(2))
  ultimately show ?thesis
    using cmd proc process_illegible [OF e', of ipc_transport "server_of sd s \<sigma>"] wf_wire.as_received_fits(1) [OF wire]
    by (intro that [of cmd]) auto
qed

lemma pending_ended:
  "pending_packets cfg crcpp worker q cmds \<Longrightarrow> (\<And>how. worker \<noteq> Ended how) \<Longrightarrow>
     pending_packets cfg crcpp (Ended how) q cmds"
  by (auto simp: pending_packets_def)

lemma consistent_ended:
  assumes inv: "consistent cfg crcpp sd target c s t0 r0 \<sigma> resps"
    and "\<And>how. worker_thread \<sigma> \<noteq> Ended how"
  shows "consistent cfg crcpp sd target c s t0 r0 (\<sigma>\<lparr> worker_thread := Ended how \<rparr>) resps"
  using assms(1) pending_ended [OF _ assms(2)] by (simp add: consistent_def)

lemma consistent_crash:
  assumes inv: "consistent cfg crcpp sd target c s t0 r0 \<sigma> resps"
    and hold: "worker_thread \<sigma> = Holding buf"
    and proc: "process_buffer cfg crcpp ipc_transport target buf (server_of sd s \<sigma>) = (Inl e, S)"
  shows "consistent cfg crcpp sd target c s t0 r0
    (\<sigma>\<lparr> worker_thread := Ended (Terminated e), world := snd (srv_transport S), regs := srv_target S \<rparr>) resps"
proof -
  have "S = server_of sd s \<sigma>" using crash_held [OF inv hold proc] by metis
  with consistent_ended [OF inv, of "Terminated e"] hold show ?thesis by (simp add: server_of_def)
qed

lemma consistent_idle_crash:
  assumes inv: "consistent cfg crcpp sd target c s t0 r0 \<sigma> resps"
    and listen: "worker_thread \<sigma> = Listening" and quiet: "first_push events = None"
    and recv: "recv_stoken s False events False (world \<sigma>) = Some (Inl e, w)"
    and no_stop: "StopRequested \<notin> set events"
  shows "e = TransportTimeoutException \<and> queue (queues (world \<sigma>) (rx_queue s)) = [] \<and>
    consistent cfg crcpp sd target c s t0 r0
    (\<sigma>\<lparr> worker_thread := Ended (Terminated e), world := w \<rparr>) resps"
proof -
  have "recv (s\<lparr> log := False \<rparr>) events (world \<sigma>) = Some (Inl e, w)"
    using recv by (simp add: recv_stoken_plain [OF no_stop])
  from recv_quiet_Inl [OF this quiet] consistent_ended [OF inv, of "Terminated e"] listen
  show ?thesis by simp
qed

lemma consistent_client:
  assumes inv: "consistent cfg crcpp sd target c s t0 r0 \<sigma> resps" and "client_step cfg crcpp sd c \<sigma> ev \<sigma>'"
  shows "consistent cfg crcpp sd target c s t0 r0 \<sigma>' resps"
  using assms(2)
  by cases (simp_all add: consistent_issue [OF inv] consistent_refuse [OF inv] consistent_receive [OF inv]
      consistent_give_up [OF inv])

lemma consistent_step:
  assumes inv: "consistent cfg crcpp sd target c s t0 r0 \<sigma> resps"
    and step: "step cfg crcpp sd target c s \<sigma> ev \<sigma>'"
  shows "\<exists>more. consistent cfg crcpp sd target c s t0 r0 \<sigma>' (resps @ more)"
  using step unfolding step_def
proof
  assume "client_step cfg crcpp sd c \<sigma> ev \<sigma>'"
  with consistent_client [OF inv] show ?thesis by (metis append_Nil2)
next
  assume "worker_step cfg crcpp sd target s \<sigma> ev \<sigma>'"
  then show ?thesis
  proof cases
    case (take_cmd events buf w)
    with consistent_take [OF inv] show ?thesis by (metis append_Nil2)
  next
    case (serve buf S)
    with serve_held [OF inv serve(3,4)] show ?thesis by metis
  next
    case (crash buf e S)
    with consistent_crash [OF inv] show ?thesis by (metis append_Nil2)
  next
    case (idle_crash events e w)
    with consistent_idle_crash [OF inv] show ?thesis by (metis append_Nil2)
  next
    case (shutdown buf)
    with consistent_ended [OF inv, of Stopped] show ?thesis by (auto intro: exI [of _ "[]"])
  qed
qed

lemma consistent_run:
  assumes "empty_queues c s w" and "run cfg crcpp sd target c s (initial w t0 r0) evs \<sigma>"
  shows "\<exists>resps. consistent cfg crcpp sd target c s t0 r0 \<sigma> resps"
  using assms(2)
proof induction
  case run_nil
  show ?case by (rule exI, rule consistent_initial [OF assms(1)])
next
  case (run_snoc evs \<sigma>' ev \<sigma>'')
  then show ?case using consistent_step by blast
qed

end

lemma rap_systemI: "system_ok cfg crcpp sd target c s \<Longrightarrow> rap_system cfg crcpp sd target c s"
  by (simp add: system_ok_def rap_system_def rap_stack_def rap_system_axioms_def)

end
