(* ===== verification/Rap_Runs.thy ===== *)
theory Rap_Runs
  imports Rap_System
begin

text \<open>
  What the runs of \<open>Rap_System\<close> amount to: the refinement of the sequential specification, what a
  timeout does to it, progress, and in which ways the worker can end.
\<close>

section \<open>Counting\<close>

text \<open>The place of an element of a list in the list of those that satisfy \<open>P\<close>.\<close>

lemma filter_nth_take:
  assumes "n < length xs" and "P (xs ! n)"
  shows "length (filter P (take n xs)) < length (filter P xs)"
    and "filter P xs ! length (filter P (take n xs)) = xs ! n"
    and "take (length (filter P (take n xs))) (filter P xs) = filter P (take n xs)"
proof -
  have xs: "xs = take n xs @ xs ! n # drop (Suc n) xs" using assms(1) by (rule id_take_nth_drop)
  then have f: "filter P xs = filter P (take n xs) @ xs ! n # filter P (drop (Suc n) xs)"
    using assms(2) by (metis filter.simps(2) filter_append)
  show "length (filter P (take n xs)) < length (filter P xs)"
    and "filter P xs ! length (filter P (take n xs)) = xs ! n"
    and "take (length (filter P (take n xs))) (filter P xs) = filter P (take n xs)"
    by (simp_all add: f)
qed

lemma filter_nth_source:
  assumes "j < length (filter P (take n xs))"
  shows "\<exists>k. j \<le> k \<and> k < n \<and> k < length xs \<and> filter P xs ! j = xs ! k"
  using assms
proof (induction n)
  case (Suc n)
  show ?case
  proof (cases "n < length xs")
    case False
    with Suc show ?thesis by fastforce
  next
    case True
    show ?thesis
    proof (cases "j < length (filter P (take n xs))")
      case True
      with Suc.IH show ?thesis by fastforce
    next
      case False
      with Suc.prems True have "P (xs ! n)" "j = length (filter P (take n xs))"
        by (auto simp: take_Suc_conv_app_nth split: if_splits)
      with filter_nth_take [of n xs P] True length_filter_le [of P "take n xs"] show ?thesis
        by (intro exI [of _ n]) simp
    qed
  qed
qed simp

lemma list_all2_filter_length:
  "list_all2 (\<lambda>x y. P x = Q y) xs ys \<Longrightarrow> length (filter P xs) = length (filter Q ys)"
  by (induction rule: list_all2_induct) simp_all

text \<open>The results other than a refusal are those of the commands that were sent.\<close>

lemma count_sent:
  assumes "results_explained cfg sd cmds resps rs" and "length rs \<le> length cmds" and "k \<le> length rs"
  shows "length (passed cfg sd (take k cmds)) = length (filter (\<lambda>r. \<not> refused r) (take k rs))"
proof (rule list_all2_filter_length, rule list_all2_all_nthI)
  show "length (take k cmds) = length (take k rs)" using assms(2,3) by simp
  fix i assume "i < length (take k cmds)"
  then have i: "i < k" "i < length rs" using assms(2,3) by auto
  have "if command_limit cfg sd (cmds ! i) then \<not> refused (rs ! i) else refused (rs ! i)"
    using assms(1) i(2) by (auto simp: results_explained_def timed_out_def refused_def [of "Inl _"]
        dest!: spec [of _ i] command_limit_error_cases)
  then show "command_limit cfg sd (take k cmds ! i) = (\<not> refused (take k rs ! i))"
    using i(1) by (simp split: if_splits)
qed

lemma count_replies:
  "length (filter (\<lambda>r. \<not> refused r) rs) = replies rs + length (filter timed_out rs)"
proof -
  have "timed_out r \<Longrightarrow> \<not> refused r" for r by (simp add: timed_out_def refused_def)
  then show ?thesis by (induction rs) (auto simp: replies_def)
qed

section \<open>The specification\<close>

text \<open>
  What a user of the client may think of: the commands run one after the other on the target
  itself; an exception of the target is reported as a negative acknowledge, and a command over
  the limits of the transport is refused and has no effect.
\<close>

definition reported :: "'r result \<Rightarrow> 'r result" where
  "reported r = (case r of Inr ack \<Rightarrow> Inr ack | Inl e \<Rightarrow> Inl (OperationNakException 0xFD))"

fun spec_run ::
  "('a::len, 'd::len, 'l::len, 'c::len) cfg \<Rightarrow> serdes \<Rightarrow> ('t, 'a word, 'd word) register_target \<Rightarrow>
     ('a word, 'd word, 'l word) Command list \<Rightarrow> 't \<Rightarrow> 'd word Response result list \<times> 't" where
  "spec_run cfg sd target [] t = ([], t)"
| "spec_run cfg sd target (cmd # cmds) t =
     (if command_limit cfg sd cmd
      then (let (r, t') = handleCmd target cmd t; (rs, t'') = spec_run cfg sd target cmds t'
        in (reported r # rs, t''))
      else (let (rs, t') = spec_run cfg sd target cmds t in (Inl (command_limit_error cmd) # rs, t')))"

lemma spec_run_snoc:
  "spec_run cfg sd target (cmds @ [cmd]) t =
     (let (rs, t') = spec_run cfg sd target cmds t
      in if command_limit cfg sd cmd
         then (rs @ [reported (fst (handleCmd target cmd t'))], snd (handleCmd target cmd t'))
         else (rs @ [Inl (command_limit_error cmd)], t'))"
  by (induction cmds arbitrary: t) (simp_all add: Let_def split_def)

lemma ucast_FD:
  assumes "8 \<le> LENGTH('d::len)"
  shows "ucast (0xFD :: 'd word) = (0xFD :: 32 word)"
proof -
  have "(2 :: nat) ^ 8 \<le> 2 ^ LENGTH('d)" using assms by (intro power_increasing) simp_all
  then have "unat (0xFD :: 'd word) = 0xFD"
    by (simp add: unat_of_nat [of "0xFD", simplified])
  then show ?thesis
    by (intro word_unat_eq_iff [THEN iffD2]) (simp add: unsigned_ucast_eq take_bit_nat_eq_self)
qed

lemma match_response_for:
  fixes cmd :: "('a::len word, 'd::len word, 'l::len word) Command"
  assumes "handleCmd target cmd t = (r, t')" and "8 \<le> LENGTH('d)"
  shows "match_response cmd (response_for cmd r) = reported r"
proof (cases r)
  case (Inr ack)
  with handleCmd_ack [of target cmd t ack t'] assms(1) show ?thesis
    by (simp add: match_response_def response_for_def reported_def)
qed (simp only: match_response_def response_for_def reported_def sum.case mk_nak_simps
    ucast_FD [OF assms(2)] if_True if_False simp_thms)

lemma snd_serve_all_snoc:
  "snd (serve_all target (cmds @ [cmd]) t) = snd (handleCmd target cmd (snd (serve_all target cmds t)))"
  by (simp add: serve_all_append Let_def split_def)

context rap_system
begin

lemma reply_replied: "replied (bindR (decodeResponse cfg crcpp buf) (match_response cmd))"
proof (cases "decodeResponse cfg crcpp buf")
  case (Inl e)
  with wf_wire.decodeResponse_error [OF wire Inl] show ?thesis
    by (auto simp: timed_out_def refused_def)
qed simp

lemma no_give_up_no_timeout:
  assumes "run cfg crcpp sd target c s (initial w t0 r0) evs \<sigma>" and "GiveUp \<notin> set evs"
  shows "\<forall>r \<in> set (results \<sigma>). \<not> timed_out r"
  using assms
proof induction
  case run_nil
  show ?case by (simp add: initial_def)
next
  case (run_snoc evs \<sigma>' ev \<sigma>'')
  from run_snoc.hyps(2) show ?case unfolding step_def
  proof
    assume "client_step cfg crcpp sd c \<sigma>' ev \<sigma>''"
    then show ?thesis
    proof cases
      case (refuse cmd e)
      then have "\<not> timed_out (Inl e :: 'd word Response result)"
        by (auto simp: wf_wire.encodeCommand_eq [OF wire sd_ok] split: if_splits)
      with refuse run_snoc.IH run_snoc.prems show ?thesis by auto
    qed (use run_snoc.IH run_snoc.prems in \<open>auto simp: reply_replied\<close>)
  next
    assume "worker_step cfg crcpp sd target s \<sigma>' ev \<sigma>''"
    then show ?thesis by cases (use run_snoc.IH run_snoc.prems in auto)
  qed
qed

text \<open>Without timeouts each result is that of its command, after the commands before it.\<close>

lemma results_spec:
  assumes inv: "consistent cfg crcpp sd target c s t0 r0 \<sigma> resps"
    and no_to: "\<forall>r \<in> set (results \<sigma>). \<not> timed_out r"
    and fits: "\<forall>cmd \<in> set (issued \<sigma>). command_fits cfg cmd" and "n \<le> length (results \<sigma>)"
  shows "spec_run cfg sd target (take n (issued \<sigma>)) r0 =
    (take n (results \<sigma>), snd (serve_all target (passed cfg sd (take n (issued \<sigma>))) r0))"
  using assms(4)
proof (induction n)
  case (Suc n)
  let ?cmd = "issued \<sigma> ! n" and ?sent = "passed cfg sd (issued \<sigma>)"
  let ?j = "length (passed cfg sd (take n (issued \<sigma>)))"
  have len: "n < length (issued \<sigma>)" "length (results \<sigma>) \<le> length (issued \<sigma>)"
    using inv Suc.prems by (auto simp: consistent_def)
  have expl: "results_explained cfg sd (issued \<sigma>) resps (results \<sigma>)"
    using inv by (simp add: consistent_def)
  have "filter timed_out (take n (results \<sigma>)) = []"
    using no_to by (auto simp: filter_empty_conv dest: in_set_takeD)
  then have j: "replies (take n (results \<sigma>)) = ?j"
    using count_sent [OF expl len(2), of n] count_replies [of "take n (results \<sigma>)"] Suc.prems by simp
  have "\<not> timed_out (results \<sigma> ! n)" using no_to Suc.prems by simp
  then have res: "if command_limit cfg sd ?cmd
      then ?j < length resps \<and> results \<sigma> ! n = match_response ?cmd (resps ! ?j)
      else results \<sigma> ! n = Inl (command_limit_error ?cmd)"
    using expl Suc.prems unfolding results_explained_def j [symmetric] by (auto dest: spec [of _ n])
  have "results \<sigma> ! n = reported (fst (handleCmd target ?cmd
      (snd (serve_all target (passed cfg sd (take n (issued \<sigma>))) r0))))" if limit: "command_limit cfg sd ?cmd"
  proof -
    note place = filter_nth_take [of n "issued \<sigma>" "command_limit cfg sd", OF len(1) limit]
    have same: "map (as_received cfg crcpp) (take m ?sent) = take m ?sent" for m
      using fits wf_wire.as_received_fits(2) [OF wire] by (intro map_idI) (auto dest: in_set_takeD)
    have served: "serve_all target (take (length resps) ?sent) r0 = (resps, regs \<sigma>)"
      using inv by (simp add: consistent_def executed_prefix_def same)
    have jr: "?j < length (take (length resps) ?sent)" using res limit place(1) by simp
    have nth: "take (length resps) ?sent ! ?j = ?cmd" using jr place(2) by simp
    have pre: "take ?j (take (length resps) ?sent) = passed cfg sd (take n (issued \<sigma>))"
      using res limit place(3) by (simp add: min_def)
    let ?r = "handleCmd target ?cmd (snd (serve_all target (passed cfg sd (take n (issued \<sigma>))) r0))"
    have "resps ! ?j = response_for ?cmd (fst ?r)"
      using serve_all_nth_state [OF served jr] unfolding nth pre .
    moreover have "8 \<le> LENGTH('d)" using stack by (auto simp: stack_ok_def cfg_wf_def)
    note match_response_for [OF prod.collapse [symmetric, of ?r] this]
    ultimately show ?thesis using res limit by simp
  qed
  note val = this
  have IH: "spec_run cfg sd target (take n (issued \<sigma>)) r0 =
      (take n (results \<sigma>), snd (serve_all target (passed cfg sd (take n (issued \<sigma>))) r0))"
    using Suc by simp
  have next_cmd: "take (Suc n) (issued \<sigma>) = take n (issued \<sigma>) @ [?cmd]"
    and next_res: "take (Suc n) (results \<sigma>) = take n (results \<sigma>) @ [results \<sigma> ! n]"
    using len(1) Suc.prems by (simp_all add: take_Suc_conv_app_nth)
  show ?case
  proof (cases "command_limit cfg sd ?cmd")
    case True
    then show ?thesis by (simp add: next_cmd next_res spec_run_snoc IH snd_serve_all_snoc val [OF True])
  next
    case False
    with res show ?thesis by (simp add: next_cmd next_res spec_run_snoc IH)
  qed
qed simp

end

text \<open>The responses of the worker have the ids of the commands it executed.\<close>

context rap_system
begin

lemma response_id:
  assumes inv: "consistent cfg crcpp sd target c s t0 r0 \<sigma> resps" and "j < length resps"
  shows "resp_transaction_id (resps ! j) = cmd_transaction_id (passed cfg sd (issued \<sigma>) ! j)"
proof -
  let ?sent = "passed cfg sd (issued \<sigma>)"
  have served: "serve_all target (map (as_received cfg crcpp) (take (length resps) ?sent)) r0 = (resps, regs \<sigma>)"
    and len: "j < length (take (length resps) ?sent)"
    using inv assms(2) by (simp_all add: consistent_def executed_prefix_def)
  have "?sent ! j \<in> set (take (length resps) ?sent)" using len nth_mem [OF len] by simp
  then have legible: "legible cfg crcpp (?sent ! j)"
    using inv by (simp add: consistent_def executed_prefix_def)
  from serve_all_nth [OF served, of j] len
  have "resp_transaction_id (resps ! j) = cmd_transaction_id (as_received cfg crcpp (?sent ! j))"
    using response_for_txn by fastforce
  then show ?thesis by (simp add: wf_wire.as_received_same(3) [OF wire legible])
qed

text \<open>When the client is idle and no call has timed out, the worker has executed all it was sent.\<close>

lemma idle_state:
  assumes inv: "consistent cfg crcpp sd target c s t0 r0 \<sigma> resps"
    and no_to: "\<forall>r \<in> set (results \<sigma>). \<not> timed_out r"
    and fits: "\<forall>cmd \<in> set (issued \<sigma>). command_fits cfg cmd" and idle: "client_thread \<sigma> = Idle"
  shows "length (results \<sigma>) = length (issued \<sigma>) \<and>
    regs \<sigma> = snd (serve_all target (passed cfg sd (issued \<sigma>)) r0)"
proof -
  let ?sent = "passed cfg sd (issued \<sigma>)"
  have len: "length (results \<sigma>) = length (issued \<sigma>)" using inv idle by (auto simp: consistent_def)
  have "filter timed_out (results \<sigma>) = []" using no_to by (simp add: filter_empty_conv)
  then have "length ?sent = replies (results \<sigma>)"
    using count_sent [of cfg sd "issued \<sigma>" resps "results \<sigma>" "length (results \<sigma>)"] count_replies [of "results \<sigma>"]
      inv len by (simp add: consistent_def)
  then have all: "take (length resps) ?sent = ?sent" using inv by (simp add: consistent_def)
  have "map (as_received cfg crcpp) ?sent = ?sent"
    using fits wf_wire.as_received_fits(2) [OF wire] by (intro map_idI) auto
  then show ?thesis using inv len all by (simp add: consistent_def executed_prefix_def)
qed

end

section \<open>Progress\<close>

context rap_system
begin

lemma can_receive:
  assumes "client_thread \<sigma> = Waiting cmd" and "queue (queues (world \<sigma>) (rx_queue c)) \<noteq> []"
  shows "\<exists>\<sigma>' r. step cfg crcpp sd target c s \<sigma> Receive \<sigma>' \<and> client_thread \<sigma>' = Idle \<and>
    results \<sigma>' = results \<sigma> @ [r] \<and> replied r \<and> issued \<sigma>' = issued \<sigma>"
proof -
  obtain b bs where "queue (queues (world \<sigma>) (rx_queue c)) = b # bs"
    using assms(2) by (meson neq_Nil_conv)
  then obtain w where "recv c [] (world \<sigma>) = Some (Inr b, w)"
    using recv_front by blast
  from client_moves [OF receive [OF assms(1) _ this, of cfg crcpp sd], of target s] show ?thesis
    using reply_replied by fastforce
qed

lemma can_serve:
  assumes inv: "consistent cfg crcpp sd target c s t0 r0 \<sigma> resps"
    and hold: "worker_thread \<sigma> = Holding buf" and fits: "\<forall>cmd \<in> set (issued \<sigma>). command_fits cfg cmd"
  shows "\<exists>\<sigma>' resp. step cfg crcpp sd target c s \<sigma> Serve \<sigma>' \<and>
    consistent cfg crcpp sd target c s t0 r0 \<sigma>' (resps @ [resp]) \<and>
    client_thread \<sigma>' = client_thread \<sigma> \<and> results \<sigma>' = results \<sigma> \<and> issued \<sigma>' = issued \<sigma>"
proof -
  obtain res S where proc: "process_buffer cfg crcpp ipc_transport target buf (server_of sd s \<sigma>) = (res, S)"
    by fastforce
  show ?thesis
  proof (cases res)
    case (Inl e)
    with crash_held [OF inv hold proc [unfolded Inl]] fits show ?thesis by metis
  next
    case (Inr u)
    with proc have proc: "process_buffer cfg crcpp ipc_transport target buf (server_of sd s \<sigma>) = (Inr (), S)"
      by simp
    let ?s = "\<sigma>\<lparr> worker_thread := Listening, world := snd (srv_transport S), regs := srv_target S \<rparr>"
    obtain resp where "consistent cfg crcpp sd target c s t0 r0 ?s (resps @ [resp])"
      using serve_held [OF inv hold proc] by metis
    with worker_moves [OF serve [OF hold proc], of c] show ?thesis
      by (intro exI [of _ ?s] exI [of _ resp]) simp
  qed
qed

lemma can_take:
  assumes inv: "consistent cfg crcpp sd target c s t0 r0 \<sigma> resps"
    and "worker_thread \<sigma> = Listening" and "queue (queues (world \<sigma>) (rx_queue s)) \<noteq> []"
  shows "\<exists>\<sigma>' buf. step cfg crcpp sd target c s \<sigma> Take \<sigma>' \<and> worker_thread \<sigma>' = Holding buf \<and>
    consistent cfg crcpp sd target c s t0 r0 \<sigma>' resps \<and> regs \<sigma>' = regs \<sigma> \<and>
    client_thread \<sigma>' = client_thread \<sigma> \<and> results \<sigma>' = results \<sigma> \<and> issued \<sigma>' = issued \<sigma>"
proof -
  obtain b bs where "queue (queues (world \<sigma>) (rx_queue s)) = b # bs"
    using assms(3) by (meson neq_Nil_conv)
  then have "queue (queues (world \<sigma>) (rx_queue (s\<lparr> log := False \<rparr>))) = b # bs" by simp
  then obtain w where "recv (s\<lparr> log := False \<rparr>) [] (world \<sigma>) = Some (Inr b, w)"
    using recv_front by blast
  then have "recv_stoken s False [] False (world \<sigma>) = Some (Inr b, w)"
    by (simp add: recv_stoken_plain)
  from worker_moves [OF take_cmd [OF assms(2) _ this, of cfg crcpp sd target], of c]
    consistent_take [OF inv assms(2) _ this]
  show ?thesis by fastforce
qed

text \<open>
  \<open>answered \<sigma> evs r\<close>: the steps \<open>evs\<close> bring the client of \<open>\<sigma>\<close> the reply \<open>r\<close> and issue nothing.
\<close>

definition answered where
  "answered \<sigma> evs r \<longleftrightarrow> (\<exists>\<sigma>'. run cfg crcpp sd target c s \<sigma> evs \<sigma>' \<and>
     set evs \<subseteq> {Take, Serve, Receive} \<and> client_thread \<sigma>' = Idle \<and>
     results \<sigma>' = results \<sigma> @ [r] \<and> replied r \<and> issued \<sigma>' = issued \<sigma>)"

lemma answered_Cons:
  assumes "step cfg crcpp sd target c s \<sigma> ev \<sigma>'" and "answered \<sigma>' evs r" and "ev \<in> {Take, Serve}"
    and "results \<sigma>' = results \<sigma>" and "issued \<sigma>' = issued \<sigma>"
  shows "answered \<sigma> (ev # evs) r"
  using assms run_append [OF run_single [OF assms(1)]] by (fastforce simp: answered_def)

lemma answered_receive:
  assumes "client_thread \<sigma> = Waiting cmd" and "queue (queues (world \<sigma>) (rx_queue c)) \<noteq> []"
  shows "\<exists>r. answered \<sigma> [Receive] r"
  using can_receive [OF assms] run_single unfolding answered_def by fastforce

lemma answered_serve:
  assumes inv: "consistent cfg crcpp sd target c s t0 r0 \<sigma> resps"
    and "client_thread \<sigma> = Waiting cmd" and "worker_thread \<sigma> = Holding buf"
    and fits: "\<forall>cmd \<in> set (issued \<sigma>). command_fits cfg cmd"
  shows "\<exists>r. answered \<sigma> [Serve, Receive] r"
proof -
  obtain \<sigma>' resp where st: "step cfg crcpp sd target c s \<sigma> Serve \<sigma>'"
    "consistent cfg crcpp sd target c s t0 r0 \<sigma>' (resps @ [resp])"
    "client_thread \<sigma>' = Waiting cmd" "results \<sigma>' = results \<sigma>" "issued \<sigma>' = issued \<sigma>"
    using can_serve [OF inv assms(3) fits] assms(2) by auto
  have "replies (results \<sigma>) \<le> length resps"
    using inv by (simp add: consistent_def)
  then have "queue (queues (world \<sigma>') (rx_queue c)) \<noteq> []"
    using st by (simp add: consistent_def)
  with answered_receive [OF st(3)] answered_Cons [OF st(1)] st(4,5) show ?thesis by blast
qed

lemma answered_take:
  assumes inv: "consistent cfg crcpp sd target c s t0 r0 \<sigma> resps"
    and "client_thread \<sigma> = Waiting cmd" and "worker_thread \<sigma> = Listening"
    and "queue (queues (world \<sigma>) (rx_queue s)) \<noteq> []"
    and fits: "\<forall>cmd \<in> set (issued \<sigma>). command_fits cfg cmd"
  shows "\<exists>r. answered \<sigma> [Take, Serve, Receive] r"
proof -
  obtain \<sigma>' buf where st: "step cfg crcpp sd target c s \<sigma> Take \<sigma>'" "worker_thread \<sigma>' = Holding buf"
    "consistent cfg crcpp sd target c s t0 r0 \<sigma>' resps" "client_thread \<sigma>' = Waiting cmd"
    "results \<sigma>' = results \<sigma>" "issued \<sigma>' = issued \<sigma>"
    using can_take [OF inv assms(3,4)] assms(2) by auto
  from answered_serve [OF st(3,4,2)] fits answered_Cons [OF st(1) _ _ st(5,6)] st(6) show ?thesis by auto
qed

text \<open>A waiting client's command has not been answered: something is on its way.\<close>

lemma waiting_pending:
  assumes inv: "consistent cfg crcpp sd target c s t0 r0 \<sigma> resps"
    and wait: "client_thread \<sigma> = Waiting cmd" and empty: "queue (queues (world \<sigma>) (rx_queue c)) = []"
  shows "length resps < length (passed cfg sd (issued \<sigma>))"
proof -
  obtain old where old: "issued \<sigma> = old @ [cmd]" "length old = length (results \<sigma>)" "command_limit cfg sd cmd"
    using waiting_issued [OF inv wait] .
  have "results_explained cfg sd (issued \<sigma>) resps (results \<sigma>)" using inv by (simp add: consistent_def)
  from count_sent [OF this, of "length (results \<sigma>)"] old
  have "length (passed cfg sd old) = replies (results \<sigma>) + length (filter timed_out (results \<sigma>))"
    by (simp add: count_replies)
  moreover have "length resps \<le> replies (results \<sigma>)" using inv empty by (simp add: consistent_def)
  ultimately show ?thesis using old by simp
qed

lemma served_soon:
  assumes inv: "consistent cfg crcpp sd target c s t0 r0 \<sigma> resps"
    and wait: "client_thread \<sigma> = Waiting cmd" and alive: "\<And>o'. worker_thread \<sigma> \<noteq> Ended o'"
    and fits: "\<forall>cmd \<in> set (issued \<sigma>). command_fits cfg cmd"
    and run: "run cfg crcpp sd target c s \<sigma>0 evs \<sigma>"
  shows "\<exists>more \<sigma>' r. run cfg crcpp sd target c s \<sigma>0 (evs @ more) \<sigma>' \<and> length more \<le> 3 \<and>
    set more \<subseteq> {Take, Serve, Receive} \<and> client_thread \<sigma>' = Idle \<and>
    results \<sigma>' = results \<sigma> @ [r] \<and> replied r \<and> issued \<sigma>' = issued \<sigma>"
proof -
  have "\<exists>more r. answered \<sigma> more r \<and> length more \<le> 3"
  proof (cases "queue (queues (world \<sigma>) (rx_queue c)) = []")
    case False
    from answered_receive [OF wait this] show ?thesis by fastforce
  next
    case True
    from waiting_pending [OF inv wait True]
    have "held (worker_thread \<sigma>) @ queue (queues (world \<sigma>) (rx_queue s)) \<noteq> []"
      using inv alive by (auto simp: consistent_def pending_packets_def)
    then consider buf where "worker_thread \<sigma> = Holding buf"
      | "worker_thread \<sigma> = Listening" "queue (queues (world \<sigma>) (rx_queue s)) \<noteq> []"
      using alive by (cases "worker_thread \<sigma>") auto
    then show ?thesis
    proof cases
      case 1
      from answered_serve [OF inv wait 1 fits] show ?thesis by fastforce
    next
      case 2
      from answered_take [OF inv wait 2 fits] show ?thesis by fastforce
    qed
  qed
  with run_append [OF run] show ?thesis unfolding answered_def by blast
qed

section \<open>How the worker ends\<close>

lemma worker_ends:
  assumes "empty_queues c s w" and "run cfg crcpp sd target c s (initial w t0 r0) evs \<sigma>"
    and "worker_thread \<sigma> = Ended how"
  shows "how = Stopped \<or> how = Terminated TransportTimeoutException \<or>
    (\<exists>cmd e. cmd \<in> set (issued \<sigma>) \<and> \<not> command_fits cfg cmd \<and> how = Terminated e \<and>
       decodeCommand cfg crcpp (command_packet cfg crcpp cmd) = Inl e)"
  using assms(2,3)
proof (induction arbitrary: how)
  case run_nil
  then show ?case by (simp add: initial_def)
next
  case (run_snoc evs \<sigma>' ev \<sigma>'')
  obtain resps where inv: "consistent cfg crcpp sd target c s t0 r0 \<sigma>' resps"
    using consistent_run [OF assms(1) run_snoc.hyps(1)] by blast
  from run_snoc.hyps(2) show ?case unfolding step_def
  proof
    assume "client_step cfg crcpp sd c \<sigma>' ev \<sigma>''"
    then have "worker_thread \<sigma>'' = worker_thread \<sigma>'" "set (issued \<sigma>') \<subseteq> set (issued \<sigma>'')"
      by (cases; auto)+
    with run_snoc.IH [of how] run_snoc.prems show ?thesis by auto
  next
    assume "worker_step cfg crcpp sd target s \<sigma>' ev \<sigma>''"
    then show ?thesis
    proof cases
      case (crash buf e S)
      with crash_held [OF inv crash(3,4)] run_snoc.prems show ?thesis by (metis (no_types, lifting) system.select_convs
            system.surjective system.update_convs worker_thread.inject(2))
    next
      case (idle_crash events e w')
      with consistent_idle_crash [OF inv idle_crash(3-6)] run_snoc.prems show ?thesis by simp
    qed (use run_snoc.prems in auto)
  qed
qed

text \<open>Once the worker has ended and the client's queue is empty, no call gets a reply.\<close>

lemma no_more_replies:
  assumes "run cfg crcpp sd target c s \<sigma> evs \<sigma>'" and "worker_thread \<sigma> = Ended how"
    and "queue (queues (world \<sigma>) (rx_queue c)) = []"
  shows "worker_thread \<sigma>' = Ended how \<and> queue (queues (world \<sigma>') (rx_queue c)) = [] \<and> regs \<sigma>' = regs \<sigma> \<and>
    (\<exists>rs. results \<sigma>' = results \<sigma> @ rs \<and> (\<forall>r \<in> set rs. \<not> replied r))"
  using assms
proof induction
  case run_nil
  then show ?case by simp
next
  case (run_snoc evs \<tau> ev \<tau>')
  then have prev: "worker_thread \<tau> = Ended how" "queue (queues (world \<tau>) (rx_queue c)) = []" "regs \<tau> = regs \<sigma>"
    by simp_all
  obtain rs where rs: "results \<tau> = results \<sigma> @ rs" "\<forall>r \<in> set rs. \<not> replied r"
    using run_snoc by blast
  from run_snoc.hyps(2) show ?case unfolding step_def
  proof
    assume "client_step cfg crcpp sd c \<tau> ev \<tau>'"
    then show ?thesis
    proof cases
      case (issue cmd buf)
      with prev rs show ?thesis by (simp add: joined_queues)
    next
      case (refuse cmd e)
      then have "refused (Inl e :: 'd word Response result)"
        by (auto simp: wf_wire.encodeCommand_eq [OF wire sd_ok] split: if_splits)
      with refuse prev rs show ?thesis by simp
    next
      case (receive cmd events reply w)
      with recv_quiet_Inr [OF receive(5,4)] prev show ?thesis by simp
    next
      case (give_up cmd events e w)
      with recv_quiet_Inl [OF give_up(5,4)] prev rs show ?thesis by (simp add: timed_out_def)
    qed
  next
    assume "worker_step cfg crcpp sd target s \<tau> ev \<tau>'"
    then show ?thesis by cases (use prev in auto)
  qed
qed

text \<open>A command that arrives illegibly at a worker with nothing else to do.\<close>

lemma illegible_ends_worker:
  assumes inv: "consistent cfg crcpp sd target c s t0 r0 \<sigma> resps"
    and idle: "client_thread \<sigma> = Idle" "worker_thread \<sigma> = Listening"
      "queue (queues (world \<sigma>) (rx_queue s)) = []" "queue (queues (world \<sigma>) (rx_queue c)) = []"
    and cmd: "cmd_transaction_id cmd = txn \<sigma>" "encodeCommand cfg crcpp sd cmd = Inr buf"
      "decodeCommand cfg crcpp buf = Inl e"
  shows "\<exists>\<sigma>'. run cfg crcpp sd target c s \<sigma> [Issue cmd, Take, Crash] \<sigma>' \<and>
    worker_thread \<sigma>' = Ended (Terminated e) \<and> client_thread \<sigma>' = Waiting cmd \<and> regs \<sigma>' = regs \<sigma> \<and>
    results \<sigma>' = results \<sigma> \<and> queue (queues (world \<sigma>') (rx_queue c)) = []"
proof -
  let ?s1 = "\<sigma>\<lparr> client_thread := Waiting cmd, txn := txn \<sigma> + 1, world := send c buf (world \<sigma>),
       issued := issued \<sigma> @ [cmd] \<rparr>"
  have s1: "step cfg crcpp sd target c s \<sigma> (Issue cmd) ?s1"
    by (rule client_moves [OF issue [OF idle(1) cmd(1,2)]])
  have q1: "queue (queues (world ?s1) (rx_queue s)) = [buf]" "queue (queues (world ?s1) (rx_queue c)) = []"
    using idle by (simp_all add: send_def Let_def joined_queues push_def)
  then obtain w where w: "recv (s\<lparr> log := False \<rparr>) [] (world ?s1) = Some (Inr buf, w)"
    using recv_front [of "world ?s1" "s\<lparr> log := False \<rparr>" buf "[]"] by auto
  then have "recv_stoken s False [] False (world ?s1) = Some (Inr buf, w)"
    by (simp add: recv_stoken_plain)
  then have s2: "step cfg crcpp sd target c s ?s1 Take (?s1\<lparr> worker_thread := Holding buf, world := w \<rparr>)"
    (is "step cfg crcpp sd target c s ?s1 Take ?s2")
    using idle(2) by (intro worker_moves take_cmd [where events = "[]"]) simp_all
  from recv_quiet_Inr [OF w] q1 have q2: "queue (queues w (rx_queue c)) = []"
    by (simp add: joined_queues)
  have "step cfg crcpp sd target c s ?s2 Crash
    (?s2\<lparr> worker_thread := Ended (Terminated e), world := snd (srv_transport (server_of sd s ?s2)),
       regs := srv_target (server_of sd s ?s2) \<rparr>)" (is "step cfg crcpp sd target c s ?s2 Crash ?s3")
    by (intro worker_moves crash [of _ buf] process_illegible [OF cmd(3)]) simp
  with run_append [OF run_single [OF s1] run_append [OF run_single [OF s2] run_single]]
  have "run cfg crcpp sd target c s \<sigma> [Issue cmd, Take, Crash] ?s3" by simp
  then show ?thesis using q2 by (intro exI [of _ ?s3]) (simp add: server_of_def)
qed

end

section \<open>The example system\<close>

abbreviation (input) example_client where "example_client \<equiv> client_end 512 ipc_empty"
abbreviation (input) example_server where "example_server \<equiv> server_end 512 ipc_empty"
abbreviation (input) example_world where "example_world \<equiv> paired_world 512 ipc_empty"

lemma example_system_ok:
  "system_ok ExampleRapCfg bit_serial_crc sd512 register_file example_client example_server"
  by (simp add: system_ok_def joined_ends_def example_stack_ok)

interpretation example_system: rap_system ExampleRapCfg bit_serial_crc sd512 register_file
  "client_end 512 ipc_empty" "server_end 512 ipc_empty"
  using example_system_ok by (rule rap_systemI)

lemma example_empty: "empty_queues example_client example_server example_world"
  by (simp add: empty_queues_def)

text \<open>Two commands of the example client, and the steps that issue them.\<close>

abbreviation (input) example_read :: "byte \<Rightarrow> (32 word, 32 word, 16 word) Command" where
  "example_read t \<equiv> ReadSingleCommand t 8"

lemma example_read_fits: "command_fits ExampleRapCfg (example_read t)" "fits_bytes 3 (8 :: 32 word)"
  by (simp_all add: fits_bytes_def)

lemma example_issue:
  assumes "client_thread \<sigma> = Idle"
  shows "\<exists>\<sigma>'. step ExampleRapCfg bit_serial_crc sd512 register_file example_client example_server
    \<sigma> (Issue (example_read (txn \<sigma>))) \<sigma>' \<and> client_thread \<sigma>' = Waiting (example_read (txn \<sigma>)) \<and>
    worker_thread \<sigma>' = worker_thread \<sigma> \<and> results \<sigma>' = results \<sigma> \<and>
    queue (queues (world \<sigma>') (rx_queue example_client)) = queue (queues (world \<sigma>) (rx_queue example_client)) \<and>
    issued \<sigma>' = issued \<sigma> @ [example_read (txn \<sigma>)]"
proof -
  have "encodeCommand ExampleRapCfg bit_serial_crc sd512 (example_read (txn \<sigma>)) =
      Inr (command_packet ExampleRapCfg bit_serial_crc (example_read (txn \<sigma>)))"
    by (simp add: example_wire.encodeCommand_eq)
  from client_moves [OF issue [OF assms _ this]] show ?thesis by fastforce
qed

lemma example_read_answered:
  "\<exists>evs \<sigma>. run ExampleRapCfg bit_serial_crc sd512 register_file example_client example_server
      (initial example_world 0 (\<lambda>a. a + 1)) evs \<sigma> \<and> GiveUp \<notin> set evs \<and> client_thread \<sigma> = Idle \<and>
    issued \<sigma> = [example_read 0] \<and> results \<sigma> = [Inr (ReadSingleAckResponse 0 9)]"
proof -
  let ?init = "initial example_world 0 (\<lambda>a. a + 1)
    :: (32 word, 32 word, 16 word, 32 word \<Rightarrow> 32 word) system"
  let ?run = "run ExampleRapCfg bit_serial_crc sd512 register_file example_client example_server ?init"
  have init: "client_thread ?init = Idle" "txn ?init = 0" "worker_thread ?init = Listening"
    "results ?init = []" "issued ?init = []"
    by (simp_all add: initial_def)
  from example_issue [OF init(1)] init obtain \<sigma>1 where s1:
    "step ExampleRapCfg bit_serial_crc sd512 register_file example_client example_server ?init
       (Issue (example_read 0)) \<sigma>1"
    "client_thread \<sigma>1 = Waiting (example_read 0)" "worker_thread \<sigma>1 = Listening" "results \<sigma>1 = []"
    "issued \<sigma>1 = [example_read 0]"
    by auto
  note r1 = run_single [OF s1(1)]
  from example_system.consistent_run [OF example_empty r1] obtain resps where
    "consistent ExampleRapCfg bit_serial_crc sd512 register_file example_client example_server 0
       (\<lambda>a. a + 1) \<sigma>1 resps" by blast
  from example_system.served_soon [OF this s1(2) _ _ r1] s1 example_read_fits obtain more \<sigma> r where
    s2: "?run ([Issue (example_read 0)] @ more) \<sigma>" "set more \<subseteq> {Take, Serve, Receive}"
      "client_thread \<sigma> = Idle" "results \<sigma> = [r]" "issued \<sigma> = [example_read 0]" "replied r"
    by auto
  from example_system.consistent_run [OF example_empty s2(1)] obtain qs where
    qs: "consistent ExampleRapCfg bit_serial_crc sd512 register_file example_client example_server 0
       (\<lambda>a. a + 1) \<sigma> qs" by blast
  from example_system.results_spec [OF this, of 1] s2(4-6)
  have "r = Inr (ReadSingleAckResponse 0 9)"
    by (simp add: example_read_fits register_file_def file_read_def bindA_def liftA_def reported_def split_def)
  with s2 show ?thesis by (intro exI [of _ "[Issue (example_read 0)] @ more"] exI [of _ \<sigma>]) auto
qed

section \<open>Properties\<close>

text \<open>
  C2. Without timeouts the system is transparent, for commands whose fields fit the wire: however
  the two threads interleave, the results the client has got are those of running its commands, in
  order, on the target itself (a command over the limits of the transport is refused and not run),
  and whenever the client is idle, all its commands have been executed once and the target is in
  the state they leave.
\<close>

theorem system_refines_spec:
  fixes cfg :: "('a::len, 'd::len, 'l::len, 'c::len) cfg"
  assumes "system_ok cfg crcpp sd target c s" and "empty_queues c s w"
    and "run cfg crcpp sd target c s (initial w t0 r0) evs \<sigma>" and "GiveUp \<notin> set evs"
    and "\<forall>cmd \<in> set (issued \<sigma>). command_fits cfg cmd"
  shows "\<exists>t'. spec_run cfg sd target (take (length (results \<sigma>)) (issued \<sigma>)) r0 = (results \<sigma>, t') \<and>
    (client_thread \<sigma> = Idle \<longrightarrow> length (results \<sigma>) = length (issued \<sigma>) \<and> regs \<sigma> = t')"
proof -
  note sys = rap_systemI [OF assms(1)]
  have no_to: "\<forall>r \<in> set (results \<sigma>). \<not> timed_out r"
    using rap_system.no_give_up_no_timeout [OF sys assms(3,4)] .
  obtain resps where inv: "consistent cfg crcpp sd target c s t0 r0 \<sigma> resps"
    using rap_system.consistent_run [OF sys assms(2,3)] by blast
  from rap_system.results_spec [OF sys inv no_to assms(5)] rap_system.idle_state [OF sys inv no_to assms(5)]
  show ?thesis by fastforce
qed

theorem system_refines_spec_witness:
  "\<exists>evs \<sigma> t'. run ExampleRapCfg bit_serial_crc sd512 register_file example_client example_server
      (initial example_world 0 (\<lambda>a. a + 1)) evs \<sigma> \<and> results \<sigma> = [Inr (ReadSingleAckResponse 0 9)] \<and>
    spec_run ExampleRapCfg sd512 register_file (issued \<sigma>) (\<lambda>a. a + 1) = (results \<sigma>, t')"
proof -
  obtain evs \<sigma> where \<sigma>: "run ExampleRapCfg bit_serial_crc sd512 register_file example_client example_server
      (initial example_world 0 (\<lambda>a. a + 1)) evs \<sigma>" "GiveUp \<notin> set evs" "issued \<sigma> = [example_read 0]"
    "results \<sigma> = [Inr (ReadSingleAckResponse 0 9)]"
    using example_read_answered by blast
  have fits: "\<forall>cmd \<in> set (issued \<sigma>). command_fits ExampleRapCfg cmd"
    by (simp add: \<sigma>(3) example_read_fits)
  have all: "take (length (results \<sigma>)) (issued \<sigma>) = issued \<sigma>" by (simp add: \<sigma>(3,4))
  from system_refines_spec [OF example_system_ok example_empty \<sigma>(1,2) fits, unfolded all] \<sigma>(1,4)
  show ?thesis by blast
qed

text \<open>
  C6. One timeout puts the client out of step. A client that gives up leaves the reply to come in
  its queue, and every later call that receives anything receives the reply of an earlier call: as
  long as fewer than 256 of the earlier calls have timed out or were refused by the encoder (both
  use an id up), it ends in \<open>RapProtocolException\<close>, although the worker executes its command.
\<close>

theorem out_of_step_after_timeout:
  assumes "system_ok cfg crcpp sd target c s" and "empty_queues c s w"
    and "run cfg crcpp sd target c s (initial w t0 r0) evs \<sigma>" and "i < length (results \<sigma>)"
    and "\<not> timed_out (results \<sigma> ! i)" and "\<not> refused (results \<sigma> ! i)"
    and "0 < length (filter timed_out (take i (results \<sigma>)))"
    and "length (filter (\<lambda>r. timed_out r \<or> refused r) (take i (results \<sigma>))) < 256"
  shows "results \<sigma> ! i = Inl RapProtocolException"
proof -
  note sys = rap_systemI [OF assms(1)]
  obtain resps where inv: "consistent cfg crcpp sd target c s t0 r0 \<sigma> resps"
    using rap_system.consistent_run [OF sys assms(2,3)] by blast
  let ?j = "replies (take i (results \<sigma>))"
  have len: "length (results \<sigma>) \<le> length (issued \<sigma>)"
    and expl: "results_explained cfg sd (issued \<sigma>) resps (results \<sigma>)"
    using inv by (auto simp: consistent_def)
  have j: "?j < length resps" and res: "results \<sigma> ! i = match_response (issued \<sigma> ! i) (resps ! ?j)"
    using expl assms(4-6) by (auto simp: results_explained_def dest!: spec [of _ i] split: if_splits)
  have "?j < length (passed cfg sd (take i (issued \<sigma>)))"
    using count_sent [OF expl len, of i] count_replies [of "take i (results \<sigma>)"] assms(4,7) by simp
  then obtain k where k: "?j \<le> k" "k < i" "passed cfg sd (issued \<sigma>) ! ?j = issued \<sigma> ! k"
    using filter_nth_source by blast
  have sum: "?j + length (filter (\<lambda>r. timed_out r \<or> refused r) (take i (results \<sigma>))) = i"
    using sum_length_filter_compl [of "\<lambda>r. timed_out r \<or> refused r" "take i (results \<sigma>)"] assms(4)
    by (simp add: replies_def)
  have ids: "cmd_transaction_id (issued \<sigma> ! n) = t0 + word_of_nat n" if "n < length (issued \<sigma>)" for n
    using inv that by (simp add: consistent_def)
  have "(word_of_nat k :: byte) \<noteq> word_of_nat i"
    using byte_of_nat_inject [of k i ?j] sum k(1,2) assms(8) by auto
  then have "resp_transaction_id (resps ! ?j) \<noteq> cmd_transaction_id (issued \<sigma> ! i)"
    using rap_system.response_id [OF sys inv j] k ids assms(4) len by simp
  then show ?thesis by (simp add: res match_response_def)
qed

theorem out_of_step_after_timeout_witness:
  "\<exists>evs \<sigma>. run ExampleRapCfg bit_serial_crc sd512 register_file example_client example_server
      (initial example_world 0 (\<lambda>a. a + 1)) evs \<sigma> \<and>
    results \<sigma> = [Inl TransportTimeoutException, Inl RapProtocolException]"
proof -
  let ?init = "initial example_world 0 (\<lambda>a. a + 1)
    :: (32 word, 32 word, 16 word, 32 word \<Rightarrow> 32 word) system"
  let ?step = "step ExampleRapCfg bit_serial_crc sd512 register_file example_client example_server"
  let ?run = "run ExampleRapCfg bit_serial_crc sd512 register_file example_client example_server ?init"
  let ?late = "[TimePasses (nat one_year_us)]"
  have init: "client_thread ?init = Idle" "worker_thread ?init = Listening" "results ?init = []"
    "issued ?init = []" "queue (queues (world ?init) (rx_queue example_client)) = []"
    by (simp_all add: initial_def)
  from example_issue [OF init(1)] init obtain \<sigma>1 where s1: "?step ?init (Issue (example_read (txn ?init))) \<sigma>1"
    "client_thread \<sigma>1 = Waiting (example_read (txn ?init))" "worker_thread \<sigma>1 = Listening" "results \<sigma>1 = []"
    "issued \<sigma>1 = [example_read (txn ?init)]" "queue (queues (world \<sigma>1) (rx_queue example_client)) = []"
    by auto
  then have "recv example_client ?late (world \<sigma>1) = Some (Inl TransportTimeoutException, world \<sigma>1)"
    using wait_for_idle [of "queues (world \<sigma>1) (rx_queue example_client)" ?late "one_year_us" "[]"]
    by (simp add: recv_def pop_def Let_def pair_defs one_year_us_def)
  from client_moves [OF give_up [OF s1(2) _ this]] obtain \<sigma>2 where s2: "?step \<sigma>1 GiveUp \<sigma>2"
    "client_thread \<sigma>2 = Idle" "worker_thread \<sigma>2 = Listening" "issued \<sigma>2 = issued \<sigma>1"
    "results \<sigma>2 = [Inl TransportTimeoutException]"
    using s1 by fastforce
  from example_issue [OF s2(2)] s2 obtain \<sigma>3 where s3: "?step \<sigma>2 (Issue (example_read (txn \<sigma>2))) \<sigma>3"
    "client_thread \<sigma>3 = Waiting (example_read (txn \<sigma>2))" "worker_thread \<sigma>3 = Listening"
    "results \<sigma>3 = [Inl TransportTimeoutException]"
    "issued \<sigma>3 = [example_read (txn ?init), example_read (txn \<sigma>2)]"
    using s1(5) by auto
  note r3 = run_snoc [OF run_snoc [OF run_snoc [OF run_nil s1(1)] s2(1)] s3(1)]
  obtain resps where inv: "consistent ExampleRapCfg bit_serial_crc sd512 register_file example_client
      example_server 0 (\<lambda>a. a + 1) \<sigma>3 resps"
    using example_system.consistent_run [OF example_empty r3] by blast
  obtain evs \<sigma> r where s4: "?run evs \<sigma>" "results \<sigma> = [Inl TransportTimeoutException, r]" "replied r"
    using example_system.served_soon [OF inv s3(2) _ _ r3] s3(3-5) by (auto simp: example_read_fits)
  from out_of_step_after_timeout [OF example_system_ok example_empty s4(1), of 1] s4
  show ?thesis by (auto simp: timed_out_def)
qed

text \<open>
  C8. What can end the worker of such a system, in any run with any commands, timeouts and
  interleaving: a stop request, the timeout of its own receive, or the exception that decoding the
  packet of a command throws whose fields do not fit the wire. A client whose commands fit
  never ends it.
\<close>

theorem worker_survives_clients:
  assumes "system_ok cfg crcpp sd target c s" and "empty_queues c s w"
    and "run cfg crcpp sd target c s (initial w t0 r0) evs \<sigma>"
    and "worker_thread \<sigma> = Ended how"
  shows "how = Stopped \<or> how = Terminated TransportTimeoutException \<or>
    (\<exists>cmd e. cmd \<in> set (issued \<sigma>) \<and> \<not> command_fits cfg cmd \<and> how = Terminated e \<and>
       decodeCommand cfg crcpp (command_packet cfg crcpp cmd) = Inl e)"
  using rap_system.worker_ends [OF rap_systemI [OF assms(1)] assms(2-4)] by simp

theorem worker_survives_clients_witness:
  "\<exists>\<sigma>. run ExampleRapCfg bit_serial_crc sd512 register_file example_client example_server
      (initial example_world 0 (\<lambda>a. a + 1)) [Shutdown] \<sigma> \<and>
    (\<exists>how. worker_thread \<sigma> = Ended how \<and> (how = Stopped \<or> how = Terminated TransportTimeoutException))"
proof -
  let ?init = "initial example_world 0 (\<lambda>a. a + 1)
    :: (32 word, 32 word, 16 word, 32 word \<Rightarrow> 32 word) system"
  have listening: "worker_thread ?init = Listening" and none: "issued ?init = []"
    by (simp_all add: initial_def)
  have "run ExampleRapCfg bit_serial_crc sd512 register_file example_client example_server ?init
    [Shutdown] (?init\<lparr> worker_thread := Ended Stopped \<rparr>)"
    by (rule run_single, rule worker_moves, rule shutdown) (simp add: listening)
  with worker_survives_clients [OF example_system_ok example_empty this] none show ?thesis by fastforce
qed

text \<open>
  C7. While the worker has not ended, a waiting client whose commands fit the wire is always three
  steps or less from a reply: the command can be taken, served and its response received, whatever
  has happened before, and none of the three steps depends on anything but the two threads being
  scheduled.
\<close>

theorem waiting_client_served:
  assumes "system_ok cfg crcpp sd target c s" and "empty_queues c s w"
    and "run cfg crcpp sd target c s (initial w t0 r0) evs \<sigma>"
    and "client_thread \<sigma> = Waiting cmd" and "\<forall>how. worker_thread \<sigma> \<noteq> Ended how"
    and "\<forall>cmd \<in> set (issued \<sigma>). command_fits cfg cmd"
  shows "\<exists>later \<sigma>' r. run cfg crcpp sd target c s (initial w t0 r0) (evs @ later) \<sigma>' \<and>
    length later \<le> 3 \<and> set later \<subseteq> {Take, Serve, Receive} \<and> client_thread \<sigma>' = Idle \<and>
    results \<sigma>' = results \<sigma> @ [r] \<and> r \<noteq> Inl TransportTimeoutException"
proof -
  note sys = rap_systemI [OF assms(1)]
  obtain resps where "consistent cfg crcpp sd target c s t0 r0 \<sigma> resps"
    using rap_system.consistent_run [OF sys assms(2,3)] by blast
  from rap_system.served_soon [OF sys this assms(4) _ assms(6,3)] assms(5)
  show ?thesis unfolding timed_out_def by metis
qed

theorem waiting_client_served_witness:
  "\<exists>evs \<sigma> r. run ExampleRapCfg bit_serial_crc sd512 register_file example_client example_server
      (initial example_world 0 (\<lambda>a. a + 1)) evs \<sigma> \<and> client_thread \<sigma> = Idle \<and> results \<sigma> = [r]"
proof -
  let ?init = "initial example_world 0 (\<lambda>a. a + 1)
    :: (32 word, 32 word, 16 word, 32 word \<Rightarrow> 32 word) system"
  have init: "client_thread ?init = Idle" "worker_thread ?init = Listening" "results ?init = []" "issued ?init = []"
    by (simp_all add: initial_def)
  from example_issue [OF init(1)] init obtain \<sigma>1 where s1:
    "step ExampleRapCfg bit_serial_crc sd512 register_file example_client example_server ?init
       (Issue (example_read (txn ?init))) \<sigma>1"
    "client_thread \<sigma>1 = Waiting (example_read (txn ?init))" "worker_thread \<sigma>1 = Listening" "results \<sigma>1 = []"
    "issued \<sigma>1 = [example_read (txn ?init)]"
    by auto
  have "\<forall>cmd \<in> set (issued \<sigma>1). command_fits ExampleRapCfg cmd" by (simp add: s1(5) example_read_fits)
  from waiting_client_served [OF example_system_ok example_empty run_single [OF s1(1)] s1(2) _ this]
    s1(3,4) show ?thesis by auto
qed



end
