(* ===== verification/Remote_Target.thy ===== *)
theory Remote_Target
  imports Rap_Runs
begin

text \<open>
  The whole stack seen from the caller: a \<open>RapRegisterTarget\<close> over one end of a pair whose
  other end is served by a \<open>RapServerAdapter\<close>. \<open>loop_transport\<close> is the client's transport in
  the schedule in which the worker runs when the client blocks in \<open>recv\<close>; that the schedule
  does not matter is what \<open>Rap_System\<close> shows. The specification is the call made on the
  served target directly (\<open>local_call\<close>).
\<close>

section \<open>The stack\<close>

type_synonym 't stack = "paired_transport \<times> (paired_transport \<times> ipc_world, 't) server"

definition stack_world :: "'t stack \<Rightarrow> ipc_world" where
  "stack_world = (\<lambda>(c, srv). snd (srv_transport srv))"

definition set_world :: "ipc_world \<Rightarrow> (paired_transport \<times> ipc_world, 't) server \<Rightarrow>
    (paired_transport \<times> ipc_world, 't) server" where
  "set_world w srv = srv\<lparr> srv_transport := (fst (srv_transport srv), w) \<rparr>"

definition loop_send :: "Buffer \<Rightarrow> ('t stack, unit) action" where
  "loop_send buf = (\<lambda>(c, srv). (Inr (), c, set_world (send c buf (snd (srv_transport srv))) srv))"

definition loop_recv ::
  "('a::len, 'd::len, 'l::len, 'c::len) cfg \<Rightarrow> 'c crc_function \<Rightarrow>
     ('t, 'a word, 'd word) register_target \<Rightarrow> ('t stack, Buffer) action" where
  "loop_recv cfg crcpp target = (\<lambda>(c, srv).
     let srv = snd (serve_one cfg crcpp ipc_transport target srv);
         (r, c, w) = patient_recv (c, snd (srv_transport srv))
     in (r, c, set_world w srv))"

definition loop_transport ::
  "('a::len, 'd::len, 'l::len, 'c::len) cfg \<Rightarrow> 'c crc_function \<Rightarrow>
     ('t, 'a word, 'd word) register_target \<Rightarrow> 't stack wire_transport" where
  "loop_transport cfg crcpp target =
     \<lparr> wt_send = loop_send, wt_recv = loop_recv cfg crcpp target,
       wt_recv_stoken = loop_recv cfg crcpp target,
       wt_getMaxMessageSize = (\<lambda>(c, srv). getMaxMessageSize c),
       wt_setTimeout = (\<lambda>us (c, srv). (setTimeout us c, srv)), wt_stop_requested = (\<lambda>_. False) \<rparr>"

section \<open>The specification\<close>

text \<open>
  The operation of the served target that a call ends up in: the FIFO operations become
  sequential ones with increment 0. Reads start from the zeros of the server's vector.
\<close>

fun served_call :: "('a, 'd) call \<Rightarrow> ('a, 'd) call" where
  "served_call (CallFifoWrite a ds) = CallSeqWrite a ds 0"
| "served_call (CallFifoRead a) = CallSeqRead a 0"
| "served_call call = call"

fun reads_span :: "('a, 'd) call \<Rightarrow> bool" where
  "reads_span (CallSeqRead a i) = True"
| "reads_span (CallFifoRead a) = True"
| "reads_span (CallCompRead as) = True"
| "reads_span _ = False"

definition local_call ::
  "('t, 'a, 'd::zero) register_target \<Rightarrow> ('a, 'd) call \<Rightarrow> 'd list \<Rightarrow> 't \<Rightarrow>
     ('d option result \<times> 'd list) \<times> 't" where
  "local_call target call out t =
     (case run_call target (served_call call) (t, replicate (length out) 0) of
        (Inr v, t', out') \<Rightarrow> ((Inr v, if reads_span call then out' else out), t')
      | (Inl e, t', out') \<Rightarrow> ((Inl (OperationNakException 0xFD), out), t'))"

fun local_calls ::
  "('t, 'a, 'd::zero) register_target \<Rightarrow> (('a, 'd) call \<times> 'd list) list \<Rightarrow> 't \<Rightarrow>
     ('d option result \<times> 'd list) list \<times> 't" where
  "local_calls target [] t = ([], t)"
| "local_calls target ((call, out) # calls) t =
     (let (r, t') = local_call target call out t; (rs, t'') = local_calls target calls t'
      in (r # rs, t''))"

text \<open>The calls the protocol can carry out: covered by the features, and within its limits.\<close>

fun increment_fits :: "nat \<Rightarrow> ('a, 'd) call \<Rightarrow> bool" where
  "increment_fits n (CallSeqWrite a ds i) = (i < n)"
| "increment_fits n (CallSeqRead a i) = (i < n)"
| "increment_fits n _ = True"

definition carried_call ::
  "('a::len, 'd::len, 'l::len, 'c::len) cfg \<Rightarrow> serdes \<Rightarrow> ('a word, 'd word) call \<Rightarrow> 'd word list \<Rightarrow> bool"
where
  "carried_call cfg sd call out \<longleftrightarrow>
     exchanged cfg (call, out) \<and> length out < 2 ^ LENGTH('l) \<and> increment_fits (2 ^ LENGTH('l)) call \<and>
     (\<forall>t cmd. call_command cfg (length out) t call = Some cmd \<longrightarrow>
        command_fits cfg cmd \<and> command_limit cfg sd cmd)"

section \<open>One call\<close>

text \<open>What the handler of the command does is the served call, and delivering it is its result.\<close>

lemma served_call_handleCmd:
  fixes cfg :: "('a::len, 'd::len, 'l::len, 'c::len) cfg"
  assumes "spans_kept target" and "carried_call cfg sd call out"
    and "call_command cfg (length out) i call = Some cmd"
    and "handleCmd target cmd t = (r, t')"
  shows "local_call target call out t =
    (case r of Inr ack \<Rightarrow> (case deliver call ack (x, out) of (v, x', out') \<Rightarrow> ((v, out'), t'))
     | Inl e \<Rightarrow> ((Inl (OperationNakException 0xFD), out), t'))"
proof -
  have len: "unat (word_of_nat n :: 'l word) = n" if "n < 2 ^ LENGTH('l)" for n
    using that by (simp add: unat_of_nat)
  have out: "length out < 2 ^ LENGTH('l)" "asserts (length out) call"
    "increment_fits (2 ^ LENGTH('l)) call"
    using assms(2) by (auto simp: carried_call_def exchanged_def)
  note rtf = rtf_target.intro [OF assms(1)]
  note kept = rtf_target.seqRead_length [OF rtf] rtf_target.compRead_length [OF rtf]
  show ?thesis
    using assms(3,4) out
    by (cases call)
      (auto simp: local_call_def len with_vector_def no_value_def bindA_def copy_into_def
        split: if_splits sum.splits prod.splits, (drule kept, simp)+)
qed

definition stack_regs :: "'t stack rap_target \<Rightarrow> 't" where
  "stack_regs S = srv_target (snd (transport S))"

text \<open>The stack between two calls: both queues are empty.\<close>

definition stack_ready :: "serdes \<Rightarrow> paired_transport \<Rightarrow> paired_transport \<Rightarrow> 't stack rap_target \<Rightarrow> bool" where
  "stack_ready sd c s S \<longleftrightarrow>
     rap_serdes S = sd \<and> fst (transport S) = c \<and>
     (let srv = snd (transport S) in
        fst (srv_transport srv) = s \<and> srv_serdes srv = sd \<and> empty_queues c s (snd (srv_transport srv)))"

context rap_system
begin

lemma queues_send:
  "queue (queues (send c b w) (rx_queue s)) = queue (queues w (rx_queue s)) @ [b]"
  "queues (send c b w) (rx_queue c) = queues w (rx_queue c)"
  "queue (queues (send s b w) (rx_queue c)) = queue (queues w (rx_queue c)) @ [b]"
  "queues (send s b w) (rx_queue s) = queues w (rx_queue s)"
  by (simp_all add: send_def Let_def joined_queues push_def)

lemma patient_recv_front:
  assumes "queue (queues w (rx_queue t)) = [b]"
  shows "\<exists>w'. patient_recv (t, w) = (Inr b, t, w') \<and> queue (queues w' (rx_queue t)) = [] \<and>
    (\<forall>p. p \<noteq> rx_queue t \<longrightarrow> queues w' p = queues w p)"
proof -
  let ?ev = "[TimePasses (nat (timeout t))]"
  obtain w' where w': "recv t ?ev w = Some (Inr b, w')"
    using recv_front [OF assms] by blast
  from recv_quiet_Inr [OF this] assms w' show ?thesis
    by (simp add: patient_recv_def)
qed

lemma patient_recv_stoken_front:
  assumes "queue (queues w (rx_queue t)) = [b]"
  shows "\<exists>w'. patient_recv_stoken (t, w) = (Inr b, t, w') \<and> queue (queues w' (rx_queue t)) = [] \<and>
    (\<forall>p. p \<noteq> rx_queue t \<longrightarrow> queues w' p = queues w p)"
proof -
  let ?ev = "[TimePasses (nat (timeout t))]" and ?t = "t\<lparr> log := False \<rparr>"
  obtain w' where w': "recv ?t ?ev w = Some (Inr b, w')"
    using recv_front [of w ?t] assms by auto
  from recv_quiet_Inr [OF this] assms w' show ?thesis
    by (simp add: patient_recv_stoken_def recv_stoken_plain)
qed

lemma loop_round_trip:
  fixes cmd :: "('a word, 'd word, 'l word) Command"
  assumes "fst (srv_transport srv) = s" and "srv_serdes srv = sd"
    and "empty_queues c s (snd (srv_transport srv))"
    and "command_fits cfg cmd" and "command_limit cfg sd cmd"
    and "handleCmd target cmd (srv_target srv) = (r, u)"
  shows "\<exists>w'. loop_recv cfg crcpp target
      (c, set_world (send c (command_packet cfg crcpp cmd) (snd (srv_transport srv))) srv) =
      (Inr (response_packet cfg crcpp (response_for cmd r)), c, srv\<lparr> srv_target := u, srv_transport := (s, w') \<rparr>) \<and>
    empty_queues c s w'"
proof -
  let ?w1 = "send c (command_packet cfg crcpp cmd) (snd (srv_transport srv))"
  let ?out = "response_packet cfg crcpp (response_for cmd r)"
  have "queue (queues ?w1 (rx_queue s)) = [command_packet cfg crcpp cmd]"
    using assms(3) by (simp add: queues_send empty_queues_def)
  from patient_recv_stoken_front [OF this] obtain w2 where
    w2: "patient_recv_stoken (s, ?w1) = (Inr (command_packet cfg crcpp cmd), s, w2)"
    "queue (queues w2 (rx_queue s)) = []" "queues w2 (rx_queue c) = queues ?w1 (rx_queue c)"
    using joined_queues by metis
  have "process_buffer cfg crcpp ipc_transport target (command_packet cfg crcpp cmd)
      (srv\<lparr> srv_transport := (s, w2) \<rparr>) =
      (Inr (), srv\<lparr> srv_target := u, srv_transport := (s, send s ?out w2) \<rparr>)"
    using assms(2,4-6) wf_wire.as_received_fits [OF wire] process_command [of cmd "srv\<lparr> srv_transport := (s, w2) \<rparr>" r u ipc_transport
        "Inr ()" "(s, send s ?out w2)"] by simp
  then have one: "serve_one cfg crcpp ipc_transport target (set_world ?w1 srv) =
      (Running, srv\<lparr> srv_target := u, srv_transport := (s, send s ?out w2) \<rparr>)"
    using w2(1) assms(1)
    by (simp add: serve_one_def set_world_def on_srv_transport_def ipc_transport_def)
  have "queue (queues (send s ?out w2) (rx_queue c)) = [?out]"
    using assms(3) w2(3) by (simp add: queues_send empty_queues_def)
  from patient_recv_front [OF this] obtain w3 where
    "patient_recv (c, send s ?out w2) = (Inr ?out, c, w3)" "queue (queues w3 (rx_queue c)) = []"
    "queues w3 (rx_queue s) = queues (send s ?out w2) (rx_queue s)"
    using joined_queues by metis
  with one w2(2) show ?thesis
    by (intro exI [of _ w3]) (simp add: loop_recv_def Let_def set_world_def empty_queues_def queues_send)
qed

lemma remote_command:
  fixes cmd :: "('a word, 'd word, 'l word) Command"
  assumes "stack_ready sd c s S" and "command_fits cfg cmd" and "command_limit cfg sd cmd"
    and "handleCmd target cmd (stack_regs S) = (r, u)"
  shows "\<exists>S'. doCmdResp cfg crcpp (loop_transport cfg crcpp target) cmd S = (reported r, S') \<and>
    stack_ready sd c s S' \<and> stack_regs S' = u"
proof -
  obtain srv where srv: "transport S = (c, srv)" "fst (srv_transport srv) = s" "srv_serdes srv = sd"
    "empty_queues c s (snd (srv_transport srv))" "rap_serdes S = sd" "stack_regs S = srv_target srv"
    using assms(1) by (cases "transport S") (auto simp: stack_ready_def stack_regs_def Let_def)
  let ?w1 = "send c (command_packet cfg crcpp cmd) (snd (srv_transport srv))"
  obtain w' where w': "loop_recv cfg crcpp target (c, set_world ?w1 srv) =
      (Inr (response_packet cfg crcpp (response_for cmd r)), c,
        srv\<lparr> srv_target := u, srv_transport := (s, w') \<rparr>)" "empty_queues c s w'"
    using loop_round_trip [OF srv(2-4) assms(2,3)] assms(4) srv(6) by metis
  have enc: "encodeCommand cfg crcpp (rap_serdes S) cmd = Inr (command_packet cfg crcpp cmd)"
    using assms(3) by (simp add: srv(5) wf_wire.encodeCommand_eq [OF wire sd_ok])
  have send: "wt_send (loop_transport cfg crcpp target) (command_packet cfg crcpp cmd) (transport S) =
      (Inr (), c, set_world ?w1 srv)"
    by (simp add: loop_transport_def loop_send_def srv(1))
  have recv: "wt_recv (loop_transport cfg crcpp target) (c, set_world ?w1 srv) =
      (Inr (response_packet cfg crcpp (response_for cmd r)), c,
        srv\<lparr> srv_target := u, srv_transport := (s, w') \<rparr>)"
    by (simp add: loop_transport_def w')
  have "8 \<le> LENGTH('d)" using stack by (auto simp: stack_ok_def cfg_wf_def)
  moreover note response_for_fits [OF assms(2,4)]
  ultimately show ?thesis
    using w'(2) srv match_response_for [OF assms(4)]
    by (simp add: doCmdResp_reply [OF enc send recv] wf_wire.decodeResponse_response_packet [OF wire]
        stack_ready_def stack_regs_def)
qed

lemma remote_call:
  assumes "stack_ready sd c s S" and "carried_call cfg sd call out"
  shows "\<exists>S'. run_call (rap_register_target cfg crcpp (loop_transport cfg crcpp target) base) call (S, out) =
      (fst (fst (local_call target call out (stack_regs S))), S',
       snd (fst (local_call target call out (stack_regs S)))) \<and>
    stack_ready sd c s S' \<and> stack_regs S' = snd (local_call target call out (stack_regs S))"
proof -
  obtain cmd where cmd: "asserts (length out) call"
    "call_command cfg (length out) (next_txn_id S) call = Some cmd"
    using assms(2) exchangedD unfolding carried_call_def by blast
  then have fits: "command_fits cfg cmd" "command_limit cfg sd cmd"
    using assms(2) by (auto simp: carried_call_def)
  obtain r u where r: "handleCmd target cmd (stack_regs S) = (r, u)" by fastforce
  let ?S = "S\<lparr> next_txn_id := next_txn_id S + 1 \<rparr>"
  have "stack_ready sd c s ?S" "handleCmd target cmd (stack_regs ?S) = (r, u)"
    using assms(1) r by (simp_all add: stack_ready_def stack_regs_def)
  from remote_command [OF this(1) fits this(2)] obtain S' where
    S': "doCmdResp cfg crcpp (loop_transport cfg crcpp target) cmd ?S = (reported r, S')"
    "stack_ready sd c s S'" "stack_regs S' = u" by blast
  note spec = served_call_handleCmd [OF spans assms(2) cmd(2) r, where x = S']
  show ?thesis
  proof (cases r)
    case (Inl e)
    with S' spec show ?thesis
      by (simp add: run_call_exchange [OF cmd(2,1)] bindA_split reported_def)
  next
    case (Inr ack)
    with S' spec deliver_fst_snd [of call ack S' out] show ?thesis
      by (cases "deliver call ack (S', out)")
        (simp add: run_call_exchange [OF cmd(2,1)] bindA_split reported_def)
  qed
qed

end

section \<open>Properties\<close>

text \<open>
  C1. A remote target is the target: any sequence of calls of a \<open>RapRegisterTarget\<close> that the
  configuration's features cover and its limits admit has the results, the data in the spans
  and the effect on the served target that the same calls have on that target itself; an
  exception of the target arrives as an \<open>OperationNakException\<close> with status \<open>0xFD\<close>. FIFO
  accesses reach the target as sequential ones with increment 0.
\<close>

theorem remote_is_local:
  assumes "system_ok cfg crcpp sd target c s" and "stack_ready sd c s S"
    and "\<forall>(call, out) \<in> set calls. carried_call cfg sd call out"
    and "run_calls (rap_register_target cfg crcpp (loop_transport cfg crcpp target) base) calls S = (rs, S')"
  shows "local_calls target calls (stack_regs S) = (rs, stack_regs S') \<and> stack_ready sd c s S'"
  using assms(2-4)
proof (induction calls arbitrary: S rs)
  case Nil
  then show ?case by simp
next
  case (Cons co calls)
  obtain call out where co: "co = (call, out)" by (cases co)
  with Cons.prems have "carried_call cfg sd call out" by simp
  from rap_system.remote_call [OF rap_systemI [OF assms(1)] Cons.prems(1) this] obtain S1 where
    S1: "run_call (rap_register_target cfg crcpp (loop_transport cfg crcpp target) base) call (S, out) =
      (fst (fst (local_call target call out (stack_regs S))), S1,
       snd (fst (local_call target call out (stack_regs S))))"
      "stack_ready sd c s S1" "stack_regs S1 = snd (local_call target call out (stack_regs S))"
    by blast
  obtain rs1 where rs1: "run_calls (rap_register_target cfg crcpp (loop_transport cfg crcpp target) base)
      calls S1 = (rs1, S')" "rs = fst (local_call target call out (stack_regs S)) # rs1"
    using Cons.prems(3) S1(1) co by (auto simp: Let_def split: prod.splits)
  from Cons.IH [OF S1(2) _ rs1(1)] Cons.prems(2)
  have "local_calls target calls (stack_regs S1) = (rs1, stack_regs S') \<and> stack_ready sd c s S'"
    by simp
  then show ?case
    by (cases "local_call target call out (stack_regs S)") (simp add: co S1(3) rs1(2))
qed

definition example_stack :: "(32 word \<Rightarrow> 32 word) stack rap_target" where
  "example_stack =
     \<lparr> transport = (client_end 512 ipc_empty,
         \<lparr> srv_transport = (server_end 512 ipc_empty, paired_world 512 ipc_empty),
           srv_target = (\<lambda>a. a + 1), srv_serdes = sd512 \<rparr>),
       rap_serdes = sd512, next_txn_id = 0 \<rparr>"

lemma example_stack_ready: "stack_ready sd512 example_client example_server example_stack"
  by (simp add: stack_ready_def example_stack_def example_empty)

theorem remote_is_local_witness:
  "let remote = rap_register_target ExampleRapCfg bit_serial_crc
      (loop_transport ExampleRapCfg bit_serial_crc register_file) unsupported
   in fst (run_calls remote
     [(CallWrite 8 5, []), (CallRead 8, []), (CallRead 0, []), (CallSeqRead 8 4, [0, 0])] example_stack)
   = [(Inr None, []), (Inr (Some 5), []), (Inl (OperationNakException 0xFD), []), (Inr None, [5, 13])]"
proof -
  let ?calls = "[(CallWrite 8 5, []), (CallRead 8, []), (CallRead 0, []), (CallSeqRead 8 4, [0, 0])]
    :: ((32 word, 32 word) call \<times> 32 word list) list"
  let ?remote = "rap_register_target ExampleRapCfg bit_serial_crc
      (loop_transport ExampleRapCfg bit_serial_crc register_file) unsupported"
  have carried: "\<forall>(call, out) \<in> set ?calls. carried_call ExampleRapCfg sd512 call out"
    by (simp add: carried_call_def exchanged_def checkIFS_def fits_bytes_def msg_size_def)
  obtain rs S' where run: "run_calls ?remote ?calls example_stack = (rs, S')" by fastforce
  have "stack_regs example_stack = (\<lambda>a. a + 1)"
    by (simp add: stack_regs_def example_stack_def)
  with remote_is_local [OF example_system_ok example_stack_ready carried run]
  have rs: "rs = fst (local_calls register_file ?calls (\<lambda>a. a + 1))" by simp
  have upt: "[0..<2] = [0, 1]" by (simp add: upt_rec)
  have "rs = [(Inr None, []), (Inr (Some 5), []), (Inl (OperationNakException 0xFD), []), (Inr None, [5, 13])]"
    unfolding rs
    by (simp add: local_call_def register_file_def no_value_def bindA_def file_read_def file_write_def
        fill_span_def addresses_from_def upt Let_def)
  with run show ?thesis by simp
qed

text \<open>
  C39. Setting up the stack as the README does: with a pair made for \<open>n\<close> bytes, the constructors
  of both ends succeed exactly when the 16-bit maximum message size they are told is at least
  32, both then use the same limit, and the stack is ready for its first call.
\<close>

theorem set_up:
  "(case (RapRegisterTarget (loop_transport cfg crcpp target)
            (client_end n w, \<lparr> srv_transport = (server_end n w, paired_world n w), srv_target = t0,
               srv_serdes = \<lparr> max_message_size = n mod 65536 \<rparr> \<rparr>),
          RapServerAdapter ipc_transport (server_end n w, paired_world n w) t0) of
     (Inr S, Inr srv) \<Rightarrow>
       32 \<le> n mod 65536 \<and> snd (transport S) = srv \<and> stack_regs S = t0 \<and> next_txn_id S = 0 \<and>
       stack_ready \<lparr> max_message_size = n mod 65536 \<rparr> (client_end n w) (server_end n w) S
   | (Inl e, Inl e') \<Rightarrow> n mod 65536 < 32 \<and> (\<exists>msg. e = Exception msg \<and> e' = Exception msg)
   | _ \<Rightarrow> False)"
proof -
  have size: "unat (getMaxMessageSize t) = ipc_max_message_size t mod 65536" for t
    by (simp add: getMaxMessageSize_def unsigned_of_nat take_bit_eq_mod)
  have ends: "ipc_max_message_size (client_end n w) = n" "ipc_max_message_size (server_end n w) = n"
    by (simp_all add: pair_defs)
  show ?thesis
    by (simp add: RapRegisterTarget_def RapServerAdapter_def loop_transport_def ipc_transport_def size
        ends Serdes_constructor_def minimum_max_message_size_def stack_regs_def stack_ready_def
        empty_queues_def)
qed

end
