(* ===== verification/Udp_Transport.thy ===== *)
theory Udp_Transport
  imports Transports
begin

text \<open>
  The UDP transport of \<open>SyncUdpTransport.cpp\<close>. The asio library is not part of the repository:
  its resolver, socket and \<open>io_context\<close> are a record \<open>asio\<close> of operations on a state \<open>'w\<close> that
  this theory is parametric in, and \<open>asio_documented\<close> collects what the documentation of asio
  says about them and the transport relies on.

  A run of the \<open>io_context\<close> calls the handlers of receives that have completed. It is modelled
  as a sequence of steps, so that the handler and the stop callback, which are code of the
  transport, are definitions here: asio dispatches a handler, a stop is requested from another
  thread while the run waits, or the run returns.

  A handler refers to the local variables of the call that started its receive by reference. Each
  call of \<open>recv(std::stop_token)\<close> has a number, its receive carries that number, and a handler
  that completes with success after its call has returned writes through a dangling reference.
\<close>

section \<open>The asio library\<close>

datatype run_event =
    Dispatch nat nat Buffer
  | StopCallback
  | Returns

text \<open>
  \<open>Dispatch h ec data\<close>: the handler of the receive number \<open>h\<close> is called with the error code \<open>ec\<close>
  (0 is success), after \<open>data\<close> has been written to the front of the buffer of that receive.
  \<open>ctx_step timed\<close> is a step of \<open>run_for\<close>, or of \<open>run\<close> when \<open>timed\<close> is false; \<open>so_receive n\<close> blocks
  for a datagram and writes it, or as much as fits, to a buffer of \<open>n\<close> bytes.
\<close>

record ('w, 'ep) asio =
  resolve :: "string \<Rightarrow> string \<Rightarrow> ('w, 'ep list) action"
  so_bind :: "'ep \<Rightarrow> ('w, unit) action"
  so_connect :: "'ep \<Rightarrow> ('w, unit) action"
  so_send :: "Buffer \<Rightarrow> ('w, unit) action"
  so_receive :: "nat \<Rightarrow> ('w, Buffer) action"
  so_async_receive :: "nat \<Rightarrow> nat \<Rightarrow> 'w \<Rightarrow> 'w"
  so_cancel :: "'w \<Rightarrow> 'w"
  ctx_restart :: "'w \<Rightarrow> 'w"
  ctx_stop :: "'w \<Rightarrow> 'w"
  ctx_stopped :: "'w \<Rightarrow> bool"
  ctx_run_for :: "int \<Rightarrow> 'w \<Rightarrow> 'w"
  ctx_step :: "bool \<Rightarrow> 'w \<Rightarrow> run_event \<times> 'w"
  stop_requested :: "'w \<Rightarrow> bool"

section \<open>The transport\<close>

text \<open>
  The object, the state of asio it owns, its log, and the number of the next call of
  \<open>recv(std::stop_token)\<close>.
\<close>

record 'w udp_transport =
  udp_timeout :: int
  udp_max_message_size :: nat
  udp_log :: bool
  udp_io :: 'w
  udp_log_lines :: "string list"
  udp_calls :: nat

definition udp_noise :: "string \<Rightarrow> Buffer \<Rightarrow> 'w udp_transport \<Rightarrow> 'w udp_transport" where
  "udp_noise prefix buffer s =
     (if udp_log s
      then s\<lparr> udp_log_lines := udp_log_lines s @ [noise_line prefix buffer] \<rparr>
      else s)"

definition on_io :: "('w, 'r) action \<Rightarrow> ('w udp_transport, 'r) action" where
  "on_io m s = (let (r, w) = m (udp_io s) in (r, s\<lparr> udp_io := w \<rparr>))"

definition resolveEndpoint ::
  "('w, 'ep) asio \<Rightarrow> string \<Rightarrow> 16 word \<Rightarrow> ('w, 'ep) action" where
  "resolveEndpoint net host port =
     bindA (resolve net host (decimal (unat port))) (\<lambda>endpoints.
     liftA (case endpoints of [] \<Rightarrow> throwR UndefinedBehaviour | ep # _ \<Rightarrow> Inr ep))"

text \<open>
  The members are initialised in their order: both endpoints are resolved before the socket is
  bound to the local one. The size is computed in \<open>size_t\<close>. The new object starts on the state
  \<open>w\<close> of a new \<open>io_context\<close>.
\<close>

definition UdpTransport ::
  "('w, 'ep) asio \<Rightarrow> string \<Rightarrow> 16 word \<Rightarrow> string \<Rightarrow> 16 word \<Rightarrow> nat \<Rightarrow> bool \<Rightarrow>
   ('w, 'w udp_transport) action" where
  "UdpTransport net remote_host remote_port local_host local_port mtu lg =
     bindA (resolveEndpoint net remote_host remote_port) (\<lambda>io_remote_ep.
     bindA (resolveEndpoint net local_host local_port) (\<lambda>io_local_ep.
     bindA (so_bind net io_local_ep) (\<lambda>_.
     bindA (so_connect net io_remote_ep) (\<lambda>_ w.
       (Inr \<lparr> udp_timeout = 1000000,
              udp_max_message_size = nat ((int mtu - 40 - 8) mod 2 ^ 64), udp_log = lg,
              udp_io = w, udp_log_lines = [], udp_calls = 0 \<rparr>, w)))))"

definition makeSyncUdpTransport ::
  "('w, 'ep) asio \<Rightarrow> string \<Rightarrow> 16 word \<Rightarrow> string \<Rightarrow> 16 word \<Rightarrow> bool \<Rightarrow>
   ('w, 'w udp_transport) action" where
  "makeSyncUdpTransport net remote_host remote_port local_host local_port lg =
     UdpTransport net remote_host remote_port local_host local_port 1500 lg"

definition udp_send :: "('w, 'ep) asio \<Rightarrow> Buffer \<Rightarrow> ('w udp_transport, unit) action" where
  "udp_send net buffer s = on_io (so_send net buffer) (udp_noise ''send >>> [ '' buffer s)"

text \<open>\<open>std::vector::resize\<close>, and a library routine writing to the front of a buffer.\<close>

definition resize :: "nat \<Rightarrow> Buffer \<Rightarrow> Buffer" where
  "resize n buffer = take n buffer @ replicate (n - length buffer) 0"

definition write_front :: "Buffer \<Rightarrow> Buffer \<Rightarrow> Buffer" where
  "write_front data buffer = data @ drop (length data) buffer"

definition udp_recv :: "('w, 'ep) asio \<Rightarrow> ('w udp_transport, Buffer) action" where
  "udp_recv net s =
     (let buffer = replicate (udp_max_message_size s) 0 in
      case on_io (so_receive net (length buffer)) s of
        (Inl e, s) \<Rightarrow> (Inl e, s)
      | (Inr data, s) \<Rightarrow>
          let received_bytes = length data;
              buffer = resize received_bytes (write_front data buffer)
          in (Inr buffer, udp_noise ''recv <<< [ '' buffer s))"

subsection \<open>Receiving with a stop token\<close>

text \<open>
  The local variables of a call: its buffer and \<open>received_bytes\<close>. \<open>receive_handler k\<close> is the lambda
  given to \<open>async_receive\<close>, called for receive \<open>h\<close> during call \<open>k\<close>.
\<close>

type_synonym locals = "Buffer \<times> nat"

definition receive_handler ::
  "nat \<Rightarrow> nat \<Rightarrow> nat \<Rightarrow> Buffer \<Rightarrow> locals \<Rightarrow> locals result" where
  "receive_handler k h ec data = (\<lambda>(buffer, received_bytes).
     if ec \<noteq> 0 then throwR (ErrorCode ec)
     else if h \<noteq> k then throwR UndefinedBehaviour
     else Inr (write_front data buffer, length data))"

definition stop_callback :: "('w, 'ep) asio \<Rightarrow> 'w \<Rightarrow> 'w" where
  "stop_callback net w = ctx_stop net (so_cancel net w)"

text \<open>A run of the \<open>io_context\<close>. An exception of a handler leaves it.\<close>

partial_function (option) run_context ::
  "('w, 'ep) asio \<Rightarrow> nat \<Rightarrow> bool \<Rightarrow> 'w \<Rightarrow> locals \<Rightarrow> (locals result \<times> 'w) option" where
  "run_context net k timed w vars =
     (case ctx_step net timed w of
        (ev, w) \<Rightarrow> (case ev of
          Returns \<Rightarrow> Some (Inr vars, w)
        | StopCallback \<Rightarrow> run_context net k timed (stop_callback net w) vars
        | Dispatch h ec data \<Rightarrow> (case receive_handler k h ec data vars of
            Inl e \<Rightarrow> Some (Inl e, w)
          | Inr vars' \<Rightarrow> run_context net k timed w vars')))"

definition udp_run ::
  "('w, 'ep) asio \<Rightarrow> nat \<Rightarrow> int \<Rightarrow> 'w \<Rightarrow> locals \<Rightarrow> (locals result \<times> 'w) option" where
  "udp_run net k limit w vars =
     (let w = ctx_restart net w;
          w = (if stop_requested net w then stop_callback net w else w)
      in case run_context net k True (ctx_run_for net limit w) vars of
           None \<Rightarrow> None
         | Some (Inl e, w) \<Rightarrow> Some (Inl e, w)
         | Some (Inr vars, w) \<Rightarrow>
             if \<not> ctx_stopped net w then run_context net k False (so_cancel net w) vars
             else Some (Inr vars, w))"

definition udp_recv_stoken ::
  "('w, 'ep) asio \<Rightarrow> 'w udp_transport \<Rightarrow> (Buffer result \<times> 'w udp_transport) option" where
  "udp_recv_stoken net s =
     (let k = udp_calls s;
          buffer = replicate (udp_max_message_size s) 0;
          w = so_async_receive net k (length buffer) (udp_io s);
          s = s\<lparr> udp_calls := k + 1 \<rparr>
      in case udp_run net k (udp_timeout s) w (buffer, 0) of
           None \<Rightarrow> None
         | Some (Inl e, w) \<Rightarrow> Some (Inl e, s\<lparr> udp_io := w \<rparr>)
         | Some (Inr (buffer, received_bytes), w) \<Rightarrow>
             let buffer = resize received_bytes buffer
             in Some (Inr buffer, udp_noise ''recv <<< [ '' buffer (s\<lparr> udp_io := w \<rparr>)))"

definition udp_getMaxMessageSize :: "'w udp_transport \<Rightarrow> 16 word" where
  "udp_getMaxMessageSize s = word_of_nat (udp_max_message_size s)"

definition udp_setTimeout :: "int \<Rightarrow> 'w udp_transport \<Rightarrow> 'w udp_transport" where
  "udp_setTimeout new_timeout s = s\<lparr> udp_timeout := new_timeout \<rparr>"

section \<open>What asio documents\<close>

text \<open>
  \<open>pending w\<close> lists the receives whose handler has not been called yet, with the sizes of their
  buffers. The assumptions, from the documentation of \<open>basic_datagram_socket\<close> and \<open>io_context\<close>:
  \<^item> starting a receive makes it pending; cancelling, stopping and restarting complete nothing;
  \<^item> \<open>restart\<close> clears the stopped state, \<open>stop\<close> sets it, nothing else but a run touches it;
  \<^item> a run that is stopped returns; it calls each handler once, with no more data than fits the
    buffer; it stops the context when it runs out of work; without a time limit it returns only
    when it is stopped;
  \<^item> a stop callback is called once, and a stop request stays.
\<close>

definition step_documented ::
  "('w, 'ep) asio \<Rightarrow> ('w \<Rightarrow> (nat \<times> nat) list) \<Rightarrow> bool \<Rightarrow> 'w \<Rightarrow> bool" where
  "step_documented net pending timed w =
     (case ctx_step net timed w of
        (Returns, w') \<Rightarrow> pending w' = pending w \<and> stop_requested net w' = stop_requested net w \<and>
          ctx_stopped net w' = (ctx_stopped net w \<or> pending w = []) \<and>
          (\<not> timed \<longrightarrow> ctx_stopped net w')
      | (StopCallback, w') \<Rightarrow> pending w' = pending w \<and> ctx_stopped net w' = ctx_stopped net w \<and>
          \<not> stop_requested net w \<and> stop_requested net w'
      | (Dispatch h ec data, w') \<Rightarrow> \<not> ctx_stopped net w \<and>
          (ctx_stopped net w' \<longrightarrow> pending w' = []) \<and> stop_requested net w' = stop_requested net w \<and>
          (\<exists>n. (h, n) \<in> set (pending w) \<and> length data \<le> n \<and>
             pending w' = remove1 (h, n) (pending w)))"

definition keeps_io :: "('w, 'ep) asio \<Rightarrow> ('w \<Rightarrow> (nat \<times> nat) list) \<Rightarrow> ('w \<Rightarrow> 'w) \<Rightarrow> bool" where
  "keeps_io net pending f \<longleftrightarrow>
     (\<forall>w. pending (f w) = pending w \<and> stop_requested net (f w) = stop_requested net w)"

definition asio_documented :: "('w, 'ep) asio \<Rightarrow> ('w \<Rightarrow> (nat \<times> nat) list) \<Rightarrow> bool" where
  "asio_documented net pending \<longleftrightarrow>
     (\<forall>h n w. pending (so_async_receive net h n w) = pending w @ [(h, n)] \<and>
        stop_requested net (so_async_receive net h n w) = stop_requested net w) \<and>
     keeps_io net pending (so_cancel net) \<and> keeps_io net pending (ctx_restart net) \<and>
     keeps_io net pending (ctx_stop net) \<and> (\<forall>t. keeps_io net pending (ctx_run_for net t)) \<and>
     (\<forall>w. \<not> ctx_stopped net (ctx_restart net w) \<and> ctx_stopped net (ctx_stop net w) \<and>
        ctx_stopped net (so_cancel net w) = ctx_stopped net w) \<and>
     (\<forall>t w. ctx_stopped net (ctx_run_for net t w) = ctx_stopped net w) \<and>
     (\<forall>timed w. step_documented net pending timed w)"

lemma asio_documentedD:
  assumes "asio_documented net pending"
  shows "pending (so_async_receive net h n w) = pending w @ [(h, n)]"
    and "stop_requested net (so_async_receive net h n w) = stop_requested net w"
    and "pending (so_cancel net w) = pending w"
    and "stop_requested net (so_cancel net w) = stop_requested net w"
    and "ctx_stopped net (so_cancel net w) = ctx_stopped net w"
    and "pending (ctx_restart net w) = pending w"
    and "stop_requested net (ctx_restart net w) = stop_requested net w"
    and "\<not> ctx_stopped net (ctx_restart net w)"
    and "pending (ctx_run_for net t w) = pending w"
    and "stop_requested net (ctx_run_for net t w) = stop_requested net w"
    and "ctx_stopped net (ctx_run_for net t w) = ctx_stopped net w"
    and "pending (stop_callback net w) = pending w"
    and "stop_requested net (stop_callback net w) = stop_requested net w"
    and "ctx_stopped net (stop_callback net w)"
    and "step_documented net pending timed w"
  using assms by (simp_all add: asio_documented_def keeps_io_def stop_callback_def)

section \<open>Runs end\<close>

text \<open>
  What holds of the context while a call is in its run: its receive is pending and nothing is
  received, or it has completed; a context is stopped for one of two reasons.
\<close>

definition receiving ::
  "('w, 'ep) asio \<Rightarrow> ('w \<Rightarrow> (nat \<times> nat) list) \<Rightarrow> nat \<Rightarrow> nat \<Rightarrow> 'w \<Rightarrow> locals \<Rightarrow> bool" where
  "receiving net pending k n w vars \<longleftrightarrow>
     (pending w = [(k, n)] \<and> vars = (replicate n 0, 0) \<or>
      pending w = [] \<and> length (fst vars) = n \<and> snd vars \<le> n) \<and>
     (ctx_stopped net w \<longrightarrow> pending w = [] \<or> stop_requested net w)"

definition run_outcome ::
  "('w, 'ep) asio \<Rightarrow> ('w \<Rightarrow> (nat \<times> nat) list) \<Rightarrow> nat \<Rightarrow> nat \<Rightarrow> bool \<Rightarrow> locals result \<Rightarrow> 'w \<Rightarrow> bool" where
  "run_outcome net pending k n timed res w =
     (case res of
        Inl e \<Rightarrow> (\<exists>ec. e = ErrorCode ec \<and> ec \<noteq> 0) \<and> pending w = []
      | Inr vars \<Rightarrow> receiving net pending k n w vars \<and> (pending w = [] \<longrightarrow> ctx_stopped net w) \<and>
          (\<not> timed \<longrightarrow> ctx_stopped net w))"

definition run_measure :: "('w, 'ep) asio \<Rightarrow> ('w \<Rightarrow> (nat \<times> nat) list) \<Rightarrow> 'w \<Rightarrow> nat" where
  "run_measure net pending w =
     length (pending w) + (if stop_requested net w then 0 else 1)"

lemma length_write_front: "length data \<le> length buffer \<Longrightarrow> length (write_front data buffer) = length buffer"
  by (simp add: write_front_def)

lemma resize_write_front: "resize (length data) (write_front data buffer) = data"
  by (simp add: resize_def write_front_def)

lemma length_resize [simp]: "length (resize n buffer) = n"
  by (simp add: resize_def)

lemma run_context_ends:
  assumes doc: "asio_documented net pending"
  shows "receiving net pending k n w vars \<Longrightarrow> \<exists>res w'.
    run_context net k timed w vars = Some (res, w') \<and> run_outcome net pending k n timed res w'"
proof (induction "run_measure net pending w" arbitrary: w vars rule: less_induct)
  case less
  note d = asio_documentedD [OF doc]
  obtain ev u where step: "ctx_step net timed w = (ev, u)" by (cases "ctx_step net timed w")
  note law = d(15) [of timed w, unfolded step_documented_def step, simplified]
  show ?case
  proof (cases ev)
    case Returns
    then show ?thesis
      using law less.prems step
      by (subst run_context.simps) (auto simp: receiving_def run_outcome_def)
  next
    case StopCallback
    have "run_measure net pending (stop_callback net u) < run_measure net pending w"
      and "receiving net pending k n (stop_callback net u) vars"
      using law less.prems StopCallback by (auto simp: run_measure_def receiving_def d)
    from less.hyps [OF this] show ?thesis
      using StopCallback step by (subst run_context.simps) simp
  next
    case (Dispatch h ec data)
    with law less.prems have p: "pending w = [(k, n)]" "vars = (replicate n 0, 0)" "h = k"
      and u: "pending u = []" "length data \<le> n" "stop_requested net u = stop_requested net w"
      by (auto simp: receiving_def)
    show ?thesis
    proof (cases "ec = 0")
      case False
      then show ?thesis
        using Dispatch step p u 
        by (subst run_context.simps) (auto simp: receive_handler_def run_outcome_def)
    next
      case True
      have "run_measure net pending u < run_measure net pending w"
        and "receiving net pending k n u (write_front data (replicate n 0), length data)"
        using p u by (auto simp: run_measure_def receiving_def length_write_front)
      from less.hyps [OF this] show ?thesis
        using Dispatch step p True by (subst run_context.simps) (simp add: receive_handler_def)
    qed
  qed
qed

text \<open>Once the receive has completed, the rest of a run does not change what was received.\<close>

lemma run_context_done:
  assumes doc: "asio_documented net pending"
  shows "pending w = [] \<Longrightarrow> \<exists>w'. run_context net k timed w vars = Some (Inr vars, w') \<and>
    pending w' = [] \<and> ctx_stopped net w'"
proof (induction "run_measure net pending w" arbitrary: w rule: less_induct)
  case less
  note d = asio_documentedD [OF doc]
  obtain ev u where step: "ctx_step net timed w = (ev, u)" by (cases "ctx_step net timed w")
  note law = d(15) [of timed w, unfolded step_documented_def step, simplified]
  show ?case
  proof (cases ev)
    case StopCallback
    have "run_measure net pending (stop_callback net u) < run_measure net pending w"
      using law StopCallback by (auto simp: run_measure_def d)
    from less.hyps [OF this] show ?thesis
      using law StopCallback step less.prems by (subst run_context.simps) (simp add: d)
  qed (use law less.prems step in \<open>subst run_context.simps, simp\<close>)+
qed

text \<open>A run of a context that is stopped by a stop request returns at once.\<close>

lemma run_context_stopped:
  assumes doc: "asio_documented net pending" and "ctx_stopped net w" and "stop_requested net w"
  shows "\<exists>w'. run_context net k timed w vars = Some (Inr vars, w') \<and> pending w' = pending w \<and>
    ctx_stopped net w' \<and> stop_requested net w'"
proof -
  obtain ev u where step: "ctx_step net timed w = (ev, u)" by (cases "ctx_step net timed w")
  note law = asio_documentedD(15) [OF doc, of timed w, unfolded step_documented_def step, simplified]
  show ?thesis
    using law assms(2,3) step by (cases ev) (subst run_context.simps, simp)+
qed

text \<open>How a receive ends when nothing is pending before it.\<close>

lemma run_context_dispatch:
  assumes doc: "asio_documented net pending" and "pending w = [(k, n)]"
    and "ctx_step net timed w = (Dispatch h ec data, u)"
  shows "\<exists>w'. run_context net k timed w (replicate n 0, 0) =
      Some (if ec = 0 then Inr (write_front data (replicate n 0), length data)
            else Inl (ErrorCode ec), w') \<and> pending w' = [] \<and> (ec = 0 \<longrightarrow> ctx_stopped net w') \<and>
      (ec \<noteq> 0 \<longrightarrow> w' = u)"
proof -
  have u: "h = k" "pending u = []"
    using asio_documentedD(15) [OF doc, of timed w] assms(2,3) by (auto simp: step_documented_def)
  then show ?thesis
    using assms(3) run_context_done [OF doc, of u k timed "(write_front data (replicate n 0), length data)"]
    by (subst run_context.simps) (auto simp: receive_handler_def)
qed

lemma run_context_stop:
  assumes doc: "asio_documented net pending"
    and "ctx_step net timed w = (StopCallback, u)"
  shows "\<exists>w'. run_context net k timed w vars = Some (Inr vars, w') \<and>
      pending w' = pending w \<and> ctx_stopped net w'"
proof -
  note d = asio_documentedD [OF doc]
  have u: "pending u = pending w" "stop_requested net u"
    using d(15) [of timed w] assms(2) by (auto simp: step_documented_def)
  then show ?thesis
    using assms(2) run_context_stopped [OF doc, of "stop_callback net u" k timed vars]
    by (subst run_context.simps) (auto simp: d)
qed

text \<open>The state of asio a call of \<open>recv(std::stop_token)\<close> starts its run on.\<close>

definition armed :: "('w, 'ep) asio \<Rightarrow> 'w udp_transport \<Rightarrow> 'w" where
  "armed net s = ctx_restart net (so_async_receive net (udp_calls s) (udp_max_message_size s) (udp_io s))"

lemma armed_documented:
  assumes "asio_documented net pending"
  shows "pending (armed net s) = pending (udp_io s) @ [(udp_calls s, udp_max_message_size s)]"
    and "stop_requested net (armed net s) = stop_requested net (udp_io s)"
    and "\<not> ctx_stopped net (armed net s)"
  by (simp_all add: armed_def asio_documentedD [OF assms])

definition returned :: "nat \<Rightarrow> (locals result \<times> 'w) \<Rightarrow> 'w udp_transport \<Rightarrow> Buffer result \<times> 'w udp_transport" where
  "returned k res s =
     (case res of
        (Inl e, w) \<Rightarrow> (Inl e, s\<lparr> udp_calls := k, udp_io := w \<rparr>)
      | (Inr (buffer, n), w) \<Rightarrow>
          (Inr (resize n buffer),
           udp_noise ''recv <<< [ '' (resize n buffer) (s\<lparr> udp_calls := k, udp_io := w \<rparr>)))"

lemma udp_recv_stoken_eq:
  "udp_recv_stoken net s =
     map_option (\<lambda>res. returned (Suc (udp_calls s)) res s)
       (let w = armed net s; vars = (replicate (udp_max_message_size s) 0, 0)
        in case run_context net (udp_calls s) True (ctx_run_for net (udp_timeout s)
             (if stop_requested net w then stop_callback net w else w)) vars of
             None \<Rightarrow> None
           | Some (Inl e, w) \<Rightarrow> Some (Inl e, w)
           | Some (Inr vars, w) \<Rightarrow>
               if ctx_stopped net w then Some (Inr vars, w)
               else run_context net (udp_calls s) False (so_cancel net w) vars)"
  by (simp add: udp_recv_stoken_def udp_run_def armed_def returned_def Let_def
      split: option.split sum.split)

lemma udp_noise_simps [simp]:
  "udp_io (udp_noise p b s) = udp_io s"
  "udp_calls (udp_noise p b s) = udp_calls s"
  "udp_timeout (udp_noise p b s) = udp_timeout s"
  "udp_max_message_size (udp_noise p b s) = udp_max_message_size s"
  by (simp_all add: udp_noise_def)

subsection \<open>The ends of a receive\<close>

text \<open>
  The four ways a receive with a stop token ends when no earlier receive is pending: a stop
  request before it, a stop request while it waits, a completed receive, and its timeout.
\<close>

definition waiting :: "('w, 'ep) asio \<Rightarrow> 'w udp_transport \<Rightarrow> 'w" where
  "waiting net s = ctx_run_for net (udp_timeout s) (armed net s)"

lemma waiting_documented:
  assumes "asio_documented net pending" and "pending (udp_io s) = []"
  shows "pending (waiting net s) = [(udp_calls s, udp_max_message_size s)]"
    and "stop_requested net (waiting net s) = stop_requested net (udp_io s)"
    and "\<not> ctx_stopped net (waiting net s)"
  by (simp_all add: waiting_def asio_documentedD [OF assms(1)] armed_documented [OF assms(1)] assms(2))

definition received ::
  "('w, 'ep) asio \<Rightarrow> ('w \<Rightarrow> (nat \<times> nat) list) \<Rightarrow> 'w udp_transport \<Rightarrow> Buffer result \<Rightarrow>
   (nat \<times> nat) list \<Rightarrow> bool" where
  "received net pending s r left \<longleftrightarrow>
     (\<exists>s'. udp_recv_stoken net s = Some (r, s') \<and> pending (udp_io s') = left)"

lemmas receive_defs = received_def udp_recv_stoken_eq returned_def Let_def resize_write_front

lemma udp_recv_stopped:
  assumes "asio_documented net pending" and "pending (udp_io s) = []"
    and "stop_requested net (udp_io s)"
  shows "received net pending s (Inr []) [(udp_calls s, udp_max_message_size s)]"
  using assms(3) run_context_stopped [OF assms(1), of "ctx_run_for net (udp_timeout s)
      (stop_callback net (armed net s))" "udp_calls s" True "(replicate (udp_max_message_size s) 0, 0)"]
  by (auto simp: receive_defs asio_documentedD [OF assms(1)] armed_documented [OF assms(1)]
      assms(2) resize_def)

lemma udp_recv_stop_arrives:
  assumes "asio_documented net pending" and "pending (udp_io s) = []"
    and "fst (ctx_step net True (waiting net s)) = StopCallback"
  shows "received net pending s (Inr []) [(udp_calls s, udp_max_message_size s)]"
proof (cases "stop_requested net (udp_io s)")
  case False
  then show ?thesis
    using assms(3) run_context_stop [OF assms(1), of True "waiting net s" _ "udp_calls s"
        "(replicate (udp_max_message_size s) 0, 0)"] waiting_documented(1) [OF assms(1,2)]
    by (cases "ctx_step net True (waiting net s)")
      (auto simp: receive_defs armed_documented [OF assms(1)] resize_def waiting_def)
qed (rule udp_recv_stopped [OF assms(1,2)])

lemma udp_recv_dispatched:
  assumes "asio_documented net pending" and "pending (udp_io s) = []"
    and "\<not> stop_requested net (udp_io s)"
    and "ctx_step net True (waiting net s) = (Dispatch h ec data, w)"
  shows "received net pending s (if ec = 0 then Inr data else Inl (ErrorCode ec)) []"
  using assms(3) run_context_dispatch [OF assms(1) waiting_documented(1) [OF assms(1,2)] assms(4)]
  by (cases "ec = 0") (auto simp: receive_defs armed_documented [OF assms(1)] waiting_def)

lemma udp_recv_timed_out:
  assumes "asio_documented net pending" and "pending (udp_io s) = []"
    and "\<not> stop_requested net (udp_io s)"
    and "ctx_step net True (waiting net s) = (Returns, w)"
    and "ctx_step net False (so_cancel net w) = (Dispatch h ec data, w')"
  shows "received net pending s (if ec = 0 then Inr data else Inl (ErrorCode ec)) []"
proof -
  note d = asio_documentedD [OF assms(1)]
  note waits = waiting_documented [OF assms(1,2)]
  have w: "pending (so_cancel net w) = [(udp_calls s, udp_max_message_size s)]" "\<not> ctx_stopped net w"
    using d(15) [of True "waiting net s"] assms(4) waits by (simp_all add: step_documented_def d)
  have "run_context net (udp_calls s) True (waiting net s) vars = Some (Inr vars, w)" for vars
    using assms(4) by (subst run_context.simps) simp
  with assms(3) w(2) run_context_dispatch [OF assms(1) w(1) assms(5)] show ?thesis
    by (cases "ec = 0") (auto simp: receive_defs armed_documented [OF assms(1)] waiting_def)
qed

text \<open>A receive with a stop token always ends, and in which state it leaves asio.\<close>

lemma udp_recv_ends:
  assumes "asio_documented net pending" and "pending (udp_io s) = []"
  shows "\<exists>r s'. udp_recv_stoken net s = Some (r, s') \<and> udp_calls s' = Suc (udp_calls s) \<and>
    (case r of
       Inl e \<Rightarrow> (\<exists>ec. e = ErrorCode ec \<and> ec \<noteq> 0) \<and> pending (udp_io s') = []
     | Inr buffer \<Rightarrow> length buffer \<le> udp_max_message_size s \<and>
         (pending (udp_io s') = [] \<or> buffer = [] \<and> stop_requested net (udp_io s')))"
proof -
  let ?k = "udp_calls s" and ?n = "udp_max_message_size s"
  let ?w = "ctx_run_for net (udp_timeout s) (let w = armed net s in
    if stop_requested net w then stop_callback net w else w)"
  note d = asio_documentedD [OF assms(1)] armed_documented [OF assms(1)]
  have "receiving net pending ?k ?n ?w (replicate ?n 0, 0)"
    by (simp add: receiving_def Let_def d assms(2))
  from run_context_ends [OF assms(1) this, of True]
  obtain res w where first: "run_context net ?k True ?w (replicate ?n 0, 0) = Some (res, w)"
    and res: "run_outcome net pending ?k ?n True res w" by blast
  show ?thesis
  proof (cases res)
    case (Inl e)
    with first res show ?thesis
      by (simp add: udp_recv_stoken_eq Let_def returned_def run_outcome_def)
  next
    case (Inr vars)
    obtain buffer n where vars: "vars = (buffer, n)" by fastforce
    have ended: "n \<le> ?n" "pending w' = [] \<or> resize n buffer = [] \<and> stop_requested net w'"
      if "receiving net pending ?k ?n w' (buffer, n)" "ctx_stopped net w'" for w' buffer n
      using that by (auto simp: receiving_def resize_def)
    show ?thesis
    proof (cases "ctx_stopped net w")
      case True
      with first res Inr vars ended [of w buffer n] show ?thesis
        by (simp add: udp_recv_stoken_eq Let_def returned_def run_outcome_def)
    next
      case False
      have "receiving net pending ?k ?n (so_cancel net w) vars"
        using res Inr by (simp add: receiving_def run_outcome_def d)
      from run_context_ends [OF assms(1) this, of False]
      obtain res' w' where second: "run_context net ?k False (so_cancel net w) vars = Some (res', w')"
        and res': "run_outcome net pending ?k ?n False res' w'" by blast
      then show ?thesis
        using False first Inr ended [of w']
        by (cases res') (auto simp: udp_recv_stoken_eq Let_def returned_def run_outcome_def)
    qed
  qed
qed

section \<open>A scripted network\<close>

text \<open>
  A network for the witnesses, which satisfies what is assumed of asio: what happens during its
  runs is a prepared list. A receive that is cancelled completes with the error code 125.
\<close>

datatype network_event = Datagram Buffer | Deadline | StopNow

record network =
  net_pending :: "(nat \<times> nat) list"
  net_cancelled :: bool
  net_stopped :: bool
  net_stop :: bool
  net_events :: "network_event list"
  net_sent :: "Buffer list"

definition new_network :: "network_event list \<Rightarrow> network" where
  "new_network events =
     \<lparr> net_pending = [], net_cancelled = False, net_stopped = False, net_stop = False,
       net_events = events, net_sent = [] \<rparr>"

fun network_dispatch :: "nat \<Rightarrow> Buffer \<Rightarrow> network \<Rightarrow> run_event \<times> network" where
  "network_dispatch ec data w =
     (case net_pending w of
        [] \<Rightarrow> (Returns, w\<lparr> net_stopped := True \<rparr>)
      | (h, n) # ps \<Rightarrow> (Dispatch h ec (take n data),
          w\<lparr> net_pending := ps, net_cancelled := net_cancelled w \<and> ps \<noteq> [] \<rparr>))"

definition network_step :: "bool \<Rightarrow> network \<Rightarrow> run_event \<times> network" where
  "network_step timed w =
     (if net_stopped w then (Returns, w)
      else if net_cancelled w \<or> net_pending w = [] then network_dispatch 125 [] w
      else case net_events w of
        Datagram data # evs \<Rightarrow> network_dispatch 0 data (w\<lparr> net_events := evs \<rparr>)
      | StopNow # evs \<Rightarrow>
          if net_stop w then network_dispatch 125 [] w
          else (StopCallback, w\<lparr> net_stop := True, net_events := evs \<rparr>)
      | _ \<Rightarrow> if timed then (Returns, w\<lparr> net_events := tl (net_events w) \<rparr>)
          else network_dispatch 125 [] w)"

definition network_receive :: "nat \<Rightarrow> (network, Buffer) action" where
  "network_receive n w =
     (case net_events w of
        Datagram data # evs \<Rightarrow> (Inr (take n data), w\<lparr> net_events := evs \<rparr>)
      | _ \<Rightarrow> (Inl (ForeignException ''connection refused''), w))"

definition scripted_network :: "(network, nat) asio" where
  "scripted_network =
     \<lparr> resolve = (\<lambda>host port w. (Inr [0], w)), so_bind = (\<lambda>ep w. (Inr (), w)),
       so_connect = (\<lambda>ep w. (Inr (), w)),
       so_send = (\<lambda>data w. (Inr (), w\<lparr> net_sent := net_sent w @ [data] \<rparr>)),
       so_receive = network_receive,
       so_async_receive = (\<lambda>h n w. w\<lparr> net_pending := net_pending w @ [(h, n)] \<rparr>),
       so_cancel = (\<lambda>w. w\<lparr> net_cancelled := net_pending w \<noteq> [] \<rparr>),
       ctx_restart = (\<lambda>w. w\<lparr> net_stopped := False \<rparr>),
       ctx_stop = (\<lambda>w. w\<lparr> net_stopped := True \<rparr>), ctx_stopped = net_stopped,
       ctx_run_for = (\<lambda>t w. w), ctx_step = network_step, stop_requested = net_stop \<rparr>"

lemma scripted_network_simps [simp]:
  "resolve scripted_network host port w = (Inr [0], w)"
  "so_bind scripted_network ep w = (Inr (), w)"
  "so_connect scripted_network ep w = (Inr (), w)"
  "so_send scripted_network data w = (Inr (), w\<lparr> net_sent := net_sent w @ [data] \<rparr>)"
  "so_receive scripted_network = network_receive"
  "so_async_receive scripted_network h n w = w\<lparr> net_pending := net_pending w @ [(h, n)] \<rparr>"
  "so_cancel scripted_network w = w\<lparr> net_cancelled := net_pending w \<noteq> [] \<rparr>"
  "ctx_restart scripted_network w = w\<lparr> net_stopped := False \<rparr>"
  "ctx_stop scripted_network w = w\<lparr> net_stopped := True \<rparr>"
  "ctx_stopped scripted_network = net_stopped"
  "ctx_run_for scripted_network t w = w"
  "ctx_step scripted_network = network_step"
  "stop_requested scripted_network = net_stop"
  by (simp_all add: scripted_network_def)

lemma network_documented: "asio_documented scripted_network net_pending"
proof -
  have "step_documented scripted_network net_pending timed w" for timed w
    by (auto simp: step_documented_def network_step_def split: list.splits network_event.splits prod.splits)
  then show ?thesis by (simp add: asio_documented_def keeps_io_def)
qed

text \<open>A transport made for a scripted network.\<close>

definition scripted_udp :: "network_event list \<Rightarrow> network udp_transport" where
  "scripted_udp events =
     \<lparr> udp_timeout = 1000000, udp_max_message_size = 1452, udp_log = False,
       udp_io = new_network events, udp_log_lines = [], udp_calls = 0 \<rparr>"

lemmas scripted_run = scripted_udp_def new_network_def udp_recv_stoken_def udp_run_def
  run_context.simps network_step_def receive_handler_def resize_write_front udp_noise_def
  stop_callback_def resize_def

section \<open>Properties\<close>

text \<open>
  C30. A receive with a stop token returns, whatever arrives and whenever it arrives. It returns
  a buffer of no more than the maximum size, or it throws the error code of asio; it never throws
  \<open>TransportTimeoutException\<close> and never writes through a dangling reference. Its receive has
  completed then, unless the result is empty because of a stop request.
\<close>

theorem udp_recv_returns:
  assumes "asio_documented net pending" and "pending (udp_io s) = []"
  shows "\<exists>r s'. udp_recv_stoken net s = Some (r, s') \<and> udp_calls s' = Suc (udp_calls s) \<and>
    (case r of
       Inl e \<Rightarrow> (\<exists>ec. e = ErrorCode ec \<and> ec \<noteq> 0) \<and> pending (udp_io s') = []
     | Inr buffer \<Rightarrow> length buffer \<le> udp_max_message_size s \<and>
         (pending (udp_io s') = [] \<or> buffer = [] \<and> stop_requested net (udp_io s')))"
  using assms by (rule udp_recv_ends)

theorem udp_recv_returns_witness:
  "\<exists>r s'. udp_recv_stoken scripted_network (scripted_udp [Deadline]) = Some (r, s') \<and>
     (case r of Inl e \<Rightarrow> e = ErrorCode 125 | Inr buffer \<Rightarrow> False)"
  using udp_recv_returns [OF network_documented, of "scripted_udp [Deadline]"]
  by (simp add: scripted_run Let_def)

text \<open>
  C31. What a receive with a stop token returns, when no earlier receive is pending.
  A stop request, before the call or while it waits, makes it return an empty buffer, and leaves
  its receive pending. A datagram that arrives first is returned as it is. A receive that fails
  ends in its error code; and so does one whose time is over, as soon as asio reports the
  cancelled receive: a timeout is a thrown \<open>std::error_code\<close>, not a \<open>TransportTimeoutException\<close>.
\<close>

theorem udp_recv_outcome:
  assumes "asio_documented net pending" and "pending (udp_io s) = []"
  shows "let stop = stop_requested net (udp_io s)
    in (stop \<or> fst (ctx_step net True (waiting net s)) = StopCallback \<longrightarrow>
          received net pending s (Inr []) [(udp_calls s, udp_max_message_size s)]) \<and>
       (\<forall>h ec data w. \<not> stop \<and> ctx_step net True (waiting net s) = (Dispatch h ec data, w) \<longrightarrow>
          received net pending s (if ec = 0 then Inr data else Inl (ErrorCode ec)) []) \<and>
       (\<forall>w h ec data w'. \<not> stop \<and> ctx_step net True (waiting net s) = (Returns, w) \<and>
            ctx_step net False (so_cancel net w) = (Dispatch h ec data, w') \<longrightarrow>
          received net pending s (if ec = 0 then Inr data else Inl (ErrorCode ec)) [])"
  using udp_recv_stopped [OF assms] udp_recv_stop_arrives [OF assms] udp_recv_dispatched [OF assms]
    udp_recv_timed_out [OF assms]
  by (simp only: Let_def) blast

theorem udp_recv_outcome_witness:
  "\<exists>s'. udp_recv_stoken scripted_network (scripted_udp [Deadline]) = Some (Inl (ErrorCode 125), s')
     \<and> net_pending (udp_io s') = []"
  using udp_recv_outcome [OF network_documented, of "scripted_udp [Deadline]"]
  by (simp add: Let_def received_def waiting_def armed_def scripted_udp_def new_network_def
      network_step_def)

text \<open>
  C32. A stop request leaves a receive behind. The handler of a receive that was pending when a
  call began is called by the run of that call: when it reports an error, as it does after the
  stop callback has cancelled it, the call throws that error and leaves its own receive pending
  in its turn; when it reports success it writes through a dangling reference.
\<close>

theorem pending_receive_hits_next_call:
  assumes "asio_documented net pending" and "pending (udp_io s) = [(j, m)]" and "j \<noteq> udp_calls s"
    and "\<not> stop_requested net (udp_io s)"
    and "ctx_step net True (waiting net s) = (Dispatch j ec data, w)"
  shows "udp_recv_stoken net s =
      Some (Inl (if ec = 0 then UndefinedBehaviour else ErrorCode ec),
        s\<lparr> udp_calls := Suc (udp_calls s), udp_io := w \<rparr>) \<and>
    pending w = [(udp_calls s, udp_max_message_size s)]"
proof -
  note d = asio_documentedD [OF assms(1)] armed_documented [OF assms(1)]
  have "pending w = [(udp_calls s, udp_max_message_size s)]"
    using d(15) [of True "waiting net s"] assms(2,3,5)
    by (auto simp: step_documented_def waiting_def d)
  moreover have "run_context net (udp_calls s) True (waiting net s) vars
      = Some (Inl (if ec = 0 then UndefinedBehaviour else ErrorCode ec), w)" for vars
    using assms(3,5) by (subst run_context.simps) (auto simp: receive_handler_def split: prod.split)
  ultimately show ?thesis
    using assms(4) by (simp add: udp_recv_stoken_eq Let_def returned_def waiting_def d)
qed

theorem pending_receive_hits_next_call_witness:
  "let s = snd (the (udp_recv_stoken scripted_network (scripted_udp [StopNow, Datagram [7]])));
       s = s\<lparr> udp_io := (udp_io s)\<lparr> net_stop := False \<rparr> \<rparr>
   in fst (the (udp_recv_stoken scripted_network s)) = Inl (ErrorCode 125)"
proof -
  let ?s = "snd (the (udp_recv_stoken scripted_network (scripted_udp [StopNow, Datagram [7]])))"
  let ?t = "?s\<lparr> udp_io := (udp_io ?s)\<lparr> net_stop := False \<rparr> \<rparr>"
  have "net_pending (udp_io ?t) = [(0, 1452)]" "0 \<noteq> udp_calls ?t"
    "\<not> stop_requested scripted_network (udp_io ?t)"
    "ctx_step scripted_network True (waiting scripted_network ?t)
      = (Dispatch 0 125 [], snd (ctx_step scripted_network True
          (waiting scripted_network ?t)))"
    by (simp_all add: scripted_run Let_def armed_def waiting_def)
  from pending_receive_hits_next_call [OF network_documented this] show ?thesis
    by (simp add: Let_def)
qed

end
