(* ===== verification/Udp_System.thy ===== *)
theory Udp_System
  imports Udp_Transport Register_Target Server_Adapter
begin

text \<open>
  Client and server over the UDP transport: \<open>udp_wire\<close> is the object of \<open>Udp_Transport\<close> behind the
  interface \<open>ISyncWireTransport\<close>. What its limits and its timeouts mean for the two ends.
\<close>

text \<open>
  The interface speaks of calls that return, and \<open>recv(std::stop_token)\<close> returns
  (\<open>udp_recv_returns\<close>): the outcome of a call that does not is never used.
\<close>

definition udp_wire :: "('w, 'ep) asio \<Rightarrow> 'w udp_transport wire_transport" where
  "udp_wire net =
     \<lparr> wt_send = udp_send net, wt_recv = udp_recv net,
       wt_recv_stoken = (\<lambda>s. case udp_recv_stoken net s of
         Some res \<Rightarrow> res | None \<Rightarrow> (throwR UndefinedBehaviour, s)),
       wt_getMaxMessageSize = udp_getMaxMessageSize, wt_setTimeout = udp_setTimeout,
       wt_stop_requested = (\<lambda>s. stop_requested net (udp_io s)) \<rparr>"

lemma udp_wire_simps [simp]:
  "wt_send (udp_wire net) = udp_send net"
  "wt_recv (udp_wire net) = udp_recv net"
  "udp_recv_stoken net s = Some res \<Longrightarrow> wt_recv_stoken (udp_wire net) s = res"
  "wt_getMaxMessageSize (udp_wire net) = udp_getMaxMessageSize"
  "wt_setTimeout (udp_wire net) = udp_setTimeout"
  "wt_stop_requested (udp_wire net) s = stop_requested net (udp_io s)"
  by (simp_all add: udp_wire_def)

section \<open>Construction\<close>

text \<open>
  An MTU of less than 48 bytes wraps around in \<open>size_t\<close>, one of 65584 or more in the result type
  of \<open>getMaxMessageSize\<close>. The MTU of the factory is neither.
\<close>

lemma udp_size:
  assumes "UdpTransport net rh rp lh lp mtu lg w = (Inr s, w')"
  shows "udp_getMaxMessageSize s = word_of_int (int mtu - 48)"
proof -
  have size: "udp_max_message_size s = nat ((int mtu - 40 - 8) mod 2 ^ 64)"
    using assms by (auto simp: UdpTransport_def bindA_def split: prod.splits sum.splits)
  have "(word_of_int (x mod 2 ^ 64) :: 16 word) = word_of_int x" for x :: int
    by (rule word_uint_eqI) (simp add: uint_word_of_int mod_mod_cancel)
  then show ?thesis
    unfolding udp_getMaxMessageSize_def size by (simp add: of_nat_nat algebra_simps)
qed

text \<open>A new transport carries messages of up to 1452 bytes, and so do the objects made on it.\<close>

lemma udp_set_up:
  assumes "makeSyncUdpTransport net rh rp lh lp lg w = (Inr s, w')"
  shows "udp_getMaxMessageSize s = 1452 \<and> udp_timeout s = 1000000 \<and>
    RapRegisterTarget (udp_wire net) s =
      Inr \<lparr> transport = s, rap_serdes = \<lparr> max_message_size = 1452 \<rparr>, next_txn_id = 0 \<rparr> \<and>
    RapServerAdapter (udp_wire net) s t =
      Inr \<lparr> srv_transport = s, srv_target = t, srv_serdes = \<lparr> max_message_size = 1452 \<rparr> \<rparr>"
proof -
  have "udp_getMaxMessageSize s = 1452"
    using udp_size [of net rh rp lh lp 1500 lg w s w'] assms by (simp add: makeSyncUdpTransport_def)
  moreover have "udp_timeout s = 1000000"
    using assms
    by (auto simp: makeSyncUdpTransport_def UdpTransport_def bindA_def split: prod.splits sum.splits)
  ultimately show ?thesis
    by (simp add: RapRegisterTarget_def RapServerAdapter_def Serdes_constructor_def
        minimum_max_message_size_def)
qed

section \<open>The client\<close>

text \<open>
  The client's receive does not look at the timeout: whatever is set, the call is the same. A
  client whose reply is lost waits for a datagram, however long that takes.
\<close>

lemma udp_recv_ignores_timeout:
  "udp_recv net (udp_setTimeout us s) = (let (r, s') = udp_recv net s in (r, udp_setTimeout us s'))"
  by (simp add: udp_recv_def on_io_def udp_setTimeout_def udp_noise_def Let_def
      split: prod.split sum.split)

text \<open>A datagram is returned as it was sent, up to the size of the buffer, and logged.\<close>

lemma udp_recv_datagram:
  assumes "so_receive net (udp_max_message_size s) (udp_io s) = (Inr data, w)"
  shows "udp_recv net s = (Inr data, udp_noise ''recv <<< [ '' data (s\<lparr> udp_io := w \<rparr>))"
  using assms by (simp add: udp_recv_def on_io_def resize_write_front)

lemma udp_send_ignores_timeout:
  "udp_send net buf (udp_setTimeout us s) = (let (r, s') = udp_send net buf s in (r, udp_setTimeout us s'))"
  by (simp add: udp_send_def on_io_def udp_setTimeout_def udp_noise_def Let_def split: prod.split)

lemma doCmdResp_ignores_timeout:
  "doCmdResp cfg crcpp (udp_wire net) cmd (s\<lparr> transport := udp_setTimeout us (transport s) \<rparr>) =
     (let (r, s') = doCmdResp cfg crcpp (udp_wire net) cmd s
      in (r, s'\<lparr> transport := udp_setTimeout us (transport s') \<rparr>))"
  by (simp add: doCmdResp_def bindA_def send_on_def recv_on_def udp_send_ignores_timeout
      udp_recv_ignores_timeout Let_def split: prod.split sum.split)

section \<open>The server\<close>












section \<open>Properties\<close>

text \<open>
  A server over the UDP transport does not survive a second without a request: when the time
  of its receive is over and asio reports the cancelled receive, the error code leaves the
  function of the worker thread, which ends the program. The target is not touched.
\<close>

lemma idle_udp_server_dies:
  assumes "asio_documented net pending" and "pending (udp_io (srv_transport s)) = []"
    and "\<not> stop_requested net (udp_io (srv_transport s))"
    and "ctx_step net True (waiting net (srv_transport s)) = (Returns, w)"
    and "ctx_step net False (so_cancel net w) = (Dispatch h ec data, w')" and "ec \<noteq> 0"
  shows "\<exists>s'. backgroundWork cfg crcpp (udp_wire net) target (Suc n) s =
      (Terminated (ErrorCode ec), s') \<and> srv_target s' = srv_target s"
  using udp_recv_timed_out [OF assms(1-5)] assms(3,6)
  by (auto simp: received_def serve_one_def on_srv_transport_def)

definition udp_server :: "network_event list \<Rightarrow> (network udp_transport, 'a::len word \<Rightarrow> 'd::len word) server" where
  "udp_server events =
     \<lparr> srv_transport = scripted_udp events, srv_target = (\<lambda>a. 0),
       srv_serdes = \<lparr> max_message_size = 1452 \<rparr> \<rparr>"

lemma idle_udp_server_dies_example:
  "\<exists>s'. backgroundWork ExampleRapCfg bit_serial_crc (udp_wire scripted_network) register_file 1
     (udp_server [Deadline]) = (Terminated (ErrorCode 125), s')"
proof -
  let ?t = "scripted_udp [Deadline]"
  let ?w = "snd (ctx_step scripted_network True (waiting scripted_network ?t))"
  have "net_pending (udp_io ?t) = []" "\<not> stop_requested scripted_network (udp_io ?t)"
    "ctx_step scripted_network True (waiting scripted_network ?t) = (Returns, ?w)"
    "ctx_step scripted_network False (so_cancel scripted_network ?w) =
      (Dispatch 0 125 [], snd (ctx_step scripted_network False (so_cancel scripted_network ?w)))"
    by (simp_all add: scripted_run waiting_def armed_def)
  then show ?thesis
    using idle_udp_server_dies [OF network_documented, of "udp_server [Deadline]" ?w 0 125 "[]" _
        ExampleRapCfg bit_serial_crc register_file 0]
    by (simp add: udp_server_def) blast
qed



end
