(* ===== verification/Message_Sizes.thy ===== *)
theory Message_Sizes
  imports Udp_System
begin

text \<open>
  The limit of the transport. Client and server read \<open>getMaxMessageSize\<close> once, when they are
  constructed, and hand the transport buffers until they are destroyed. \<open>checked_wire\<close> is a
  transport that asserts the limit on each buffer it is given to send; the objects behave on it
  as they do on the transport itself.
\<close>

section \<open>The contract\<close>

text \<open>A transport whose limit no call of the interface changes.\<close>

definition keeps_limit :: "'w wire_transport \<Rightarrow> bool" where
  "keeps_limit wire \<longleftrightarrow>
     (\<forall>w. (\<forall>b. wt_getMaxMessageSize wire (snd (wt_send wire b w)) = wt_getMaxMessageSize wire w) \<and>
        wt_getMaxMessageSize wire (snd (wt_recv wire w)) = wt_getMaxMessageSize wire w \<and>
        wt_getMaxMessageSize wire (snd (wt_recv_stoken wire w)) = wt_getMaxMessageSize wire w)"

definition checked_wire :: "'w wire_transport \<Rightarrow> 'w wire_transport" where
  "checked_wire wire = wire\<lparr> wt_send := \<lambda>buf w.
     if length buf \<le> unat (wt_getMaxMessageSize wire w) then wt_send wire buf w
     else (throwR AssertionFailed, w) \<rparr>"

lemma checked_wire_simps [simp]:
  "wt_recv (checked_wire wire) = wt_recv wire"
  "wt_recv_stoken (checked_wire wire) = wt_recv_stoken wire"
  "wt_getMaxMessageSize (checked_wire wire) = wt_getMaxMessageSize wire"
  "wt_setTimeout (checked_wire wire) = wt_setTimeout wire"
  "wt_stop_requested (checked_wire wire) = wt_stop_requested wire"
  by (simp_all add: checked_wire_def)

lemma checked_send:
  "length buf \<le> unat (wt_getMaxMessageSize wire w) \<Longrightarrow>
     wt_send (checked_wire wire) buf w = wt_send wire buf w"
  by (simp add: checked_wire_def)

text \<open>An object whose \<open>Serdes\<close> was made for the transport it has.\<close>

definition limits_agree :: "'w wire_transport \<Rightarrow> serdes \<Rightarrow> 'w \<Rightarrow> bool" where
  "limits_agree wire sd w \<longleftrightarrow>
     serdes_ok sd \<and> max_message_size sd = unat (wt_getMaxMessageSize wire w)"

locale limited_wire =
  fixes wire :: "'w wire_transport"
  assumes limit_kept: "keeps_limit wire"
begin

lemma limit_of_send: "wt_send wire buf w = (r, w') \<Longrightarrow> wt_getMaxMessageSize wire w' = wt_getMaxMessageSize wire w"
  and limit_of_recv: "wt_recv wire w = (q, w') \<Longrightarrow> wt_getMaxMessageSize wire w' = wt_getMaxMessageSize wire w"
  and limit_of_recv_stoken: "wt_recv_stoken wire w = (q, w') \<Longrightarrow>
    wt_getMaxMessageSize wire w' = wt_getMaxMessageSize wire w"
  using limit_kept by (metis keeps_limit_def snd_conv)+

end

lemma bindA_cong: "m s = m' s \<Longrightarrow> bindA m f s = bindA m' f s"
  by (simp add: bindA_def)

lemma checked_recv_on [simp]: "recv_on (checked_wire wire) = recv_on wire"
  by (simp add: recv_on_def fun_eq_iff)

locale limited_stack = wf_wire cfg crcpp + limited_wire wire
  for cfg :: "('a::len, 'd::len, 'l::len, 'c::len) cfg" and crcpp :: "'c crc_function"
    and wire :: "'w wire_transport"
begin

subsection \<open>The client\<close>

lemma doCmdResp_checked:
  assumes "limits_agree wire (rap_serdes s) (transport s)"
  shows "doCmdResp cfg crcpp (checked_wire wire) cmd s = doCmdResp cfg crcpp wire cmd s"
proof (cases "encodeCommand cfg crcpp (rap_serdes s) cmd")
  case (Inr buf)
  then have "length buf \<le> unat (wt_getMaxMessageSize wire (transport s))"
    using assms length_command_packet [of "rap_serdes s" cmd]
    by (auto simp: limits_agree_def encodeCommand_eq split: if_splits)
  then have "send_on (checked_wire wire) buf s = send_on wire buf s"
    by (simp add: send_on_def checked_send)
  then show ?thesis
    by (simp add: doCmdResp_def Inr bindA_split [of "liftA (Inr buf)"]) (erule bindA_cong)
qed (simp add: doCmdResp_too_large)

lemma doCmdResp_limit:
  "wt_getMaxMessageSize wire (transport (snd (doCmdResp cfg crcpp wire cmd s))) =
     wt_getMaxMessageSize wire (transport s)"
proof -
  have "wt_getMaxMessageSize wire (transport (snd (send_on wire buf s))) =
      wt_getMaxMessageSize wire (transport s)" for buf s
    by (auto simp: send_on_def Let_def dest: limit_of_send split: prod.split)
  moreover have "wt_getMaxMessageSize wire (transport (snd (recv_on wire s))) =
      wt_getMaxMessageSize wire (transport s)" for s
    by (auto simp: recv_on_def Let_def dest: limit_of_recv split: prod.split)
  ultimately show ?thesis
    by (simp add: doCmdResp_def bindA_split split: sum.split)
qed

lemma call_checked:
  assumes "limits_agree wire (rap_serdes s) (transport s)" and "exchanged cfg (call, out)"
  shows "run_call (rap_register_target cfg crcpp (checked_wire wire) base) call (s, out) =
      run_call (rap_register_target cfg crcpp wire base) call (s, out)"
    and "run_call (rap_register_target cfg crcpp wire base) call (s, out) = (r, s', out') \<Longrightarrow>
      limits_agree wire (rap_serdes s') (transport s')"
proof -
  obtain cmd where cmd: "call_command cfg (length out) (next_txn_id s) call = Some cmd"
    and ok: "asserts (length out) call" using exchangedD [OF assms(2)] by blast
  note exchange = run_call_exchange [OF cmd ok, where crcpp = crcpp and base = base]
  show "run_call (rap_register_target cfg crcpp (checked_wire wire) base) call (s, out) =
      run_call (rap_register_target cfg crcpp wire base) call (s, out)"
    unfolding exchange by (rule bindA_cong) (simp add: doCmdResp_checked assms(1))
  assume run: "run_call (rap_register_target cfg crcpp wire base) call (s, out) = (r, s', out')"
  have "fst (snd (run_call (rap_register_target cfg crcpp wire base) call (s, out))) =
      snd (doCmdResp cfg crcpp wire cmd (s\<lparr> next_txn_id := next_txn_id s + 1 \<rparr>))"
    by (simp add: exchange bindA_split deliver_fst_snd split: sum.split)
  then have "s' = snd (doCmdResp cfg crcpp wire cmd (s\<lparr> next_txn_id := next_txn_id s + 1 \<rparr>))"
    by (simp add: run)
  then show "limits_agree wire (rap_serdes s') (transport s')"
    using assms(1) by (simp add: limits_agree_def doCmdResp_keeps doCmdResp_limit)
qed

lemma calls_checked:
  "limits_agree wire (rap_serdes s) (transport s) \<Longrightarrow> list_all (exchanged cfg) calls \<Longrightarrow>
     run_calls (rap_register_target cfg crcpp (checked_wire wire) base) calls s =
     run_calls (rap_register_target cfg crcpp wire base) calls s"
proof (induction calls arbitrary: s)
  case (Cons c calls)
  obtain call out where c: "c = (call, out)" by (cases c)
  obtain r s' out' where run: "run_call (rap_register_target cfg crcpp wire base) call (s, out) = (r, s', out')"
    by (rule prod_cases3)
  have "exchanged cfg (call, out)" using Cons.prems(2) c by simp
  note call_checked [OF Cons.prems(1) this, of base]
  then show ?case
    using Cons run c by (simp add: Let_def)
qed simp

subsection \<open>The server\<close>

lemma process_buffer_checked:
  assumes "limits_agree wire (srv_serdes s) (srv_transport s)"
  shows "process_buffer cfg crcpp (checked_wire wire) target buf s = process_buffer cfg crcpp wire target buf s"
proof -
  have "length rbuf \<le> unat (wt_getMaxMessageSize wire (srv_transport s))"
    if "encodeResponse cfg crcpp (srv_serdes s) resp = Inr rbuf" for resp rbuf
    using that assms length_response_packet [of "srv_serdes s" resp]
    by (auto simp: limits_agree_def encodeResponse_eq split: if_splits)
  then show ?thesis
    by (auto simp: process_buffer_def bindA_split on_srv_target_def on_srv_transport_def Let_def
        checked_send split: sum.split prod.split)
qed

lemma process_buffer_limit:
  "wt_getMaxMessageSize wire (srv_transport (snd (process_buffer cfg crcpp wire target buf s))) =
     wt_getMaxMessageSize wire (srv_transport s)"
  "srv_serdes (snd (process_buffer cfg crcpp wire target buf s)) = srv_serdes s"
  by (auto simp: process_buffer_def bindA_split on_srv_target_def on_srv_transport_def Let_def
      dest: limit_of_send split: sum.splits prod.splits)

lemma serve_one_checked:
  assumes "limits_agree wire (srv_serdes s) (srv_transport s)"
  shows "serve_one cfg crcpp (checked_wire wire) target s = serve_one cfg crcpp wire target s"
    and "serve_one cfg crcpp wire target s = (outcome, s') \<Longrightarrow>
      limits_agree wire (srv_serdes s') (srv_transport s')"
proof -
  obtain r w where recv: "wt_recv_stoken wire (srv_transport s) = (r, w)" by fastforce
  then have w: "limits_agree wire (srv_serdes s) w"
    using assms limit_of_recv_stoken by (simp add: limits_agree_def)
  then show "serve_one cfg crcpp (checked_wire wire) target s = serve_one cfg crcpp wire target s"
    by (simp add: serve_one_def on_srv_transport_def recv process_buffer_checked split: sum.split)
  show "limits_agree wire (srv_serdes s') (srv_transport s')"
    if "serve_one cfg crcpp wire target s = (outcome, s')"
    using that assms w process_buffer_limit [of target _ "s\<lparr> srv_transport := w \<rparr>"]
    by (auto simp: serve_one_def on_srv_transport_def recv limits_agree_def
        split: if_splits sum.splits prod.splits) (metis snd_conv)+
qed

lemma backgroundWork_checked:
  "limits_agree wire (srv_serdes s) (srv_transport s) \<Longrightarrow>
     backgroundWork cfg crcpp (checked_wire wire) target n s = backgroundWork cfg crcpp wire target n s"
proof (induction n arbitrary: s)
  case (Suc n)
  obtain outcome s' where one: "serve_one cfg crcpp wire target s = (outcome, s')" by fastforce
  with Suc serve_one_checked [OF Suc.prems, of target] show ?case
    by (cases outcome) simp_all
qed simp

end

section \<open>The transports keep the contract\<close>

lemma ipc_keeps_limit: "keeps_limit ipc_transport"
  by (auto simp: keeps_limit_def ipc_transport_def patient_recv_def patient_recv_stoken_def
      split: option.split prod.split)

lemma on_io_size:
  "udp_max_message_size (snd (on_io m s)) = udp_max_message_size s"
  by (simp add: on_io_def Let_def split: prod.split)

lemma udp_recv_stoken_size:
  "udp_recv_stoken net s = Some (r, s') \<Longrightarrow> udp_max_message_size s' = udp_max_message_size s"
  by (auto simp: udp_recv_stoken_def Let_def split: option.splits sum.splits prod.splits)

lemma udp_keeps_limit: "keeps_limit (udp_wire net)"
proof -
  have "udp_max_message_size (snd (udp_send net b s)) = udp_max_message_size s" for b s
    by (simp add: udp_send_def on_io_size)
  moreover have "udp_max_message_size (snd (udp_recv net s)) = udp_max_message_size s" for s
    using on_io_size [of "so_receive net (udp_max_message_size s)" s]
    by (auto simp: udp_recv_def Let_def split: prod.split sum.split)
  moreover have "udp_max_message_size (snd (wt_recv_stoken (udp_wire net) s)) = udp_max_message_size s" for s
    using udp_recv_stoken_size [of net s] by (auto simp: udp_wire_def split: option.split)
  ultimately show ?thesis by (simp add: keeps_limit_def udp_getMaxMessageSize_def)
qed

interpretation ipc_limit: limited_wire ipc_transport
  by unfold_locales (rule ipc_keeps_limit)

interpretation udp_limit: limited_wire "udp_wire net" for net
  by unfold_locales (rule udp_keeps_limit)

interpretation example_udp: limited_stack ExampleRapCfg bit_serial_crc "udp_wire scripted_network"
  by unfold_locales

section \<open>Properties\<close>

text \<open>
  C34. Nothing longer than the limit of the transport is ever sent, by client or server, from
  their construction on: on a transport that asserts the limit of every buffer it is given, any
  sequence of calls and any number of iterations of the worker have the same results and effects.
\<close>

theorem sent_messages_fit:
  assumes "cfg_wf cfg" and "crc_width_respected crcpp" and "keeps_limit wire"
    and "RapRegisterTarget wire w = Inr s" and "list_all (exchanged cfg) calls"
    and "RapServerAdapter wire v t = Inr srv"
  shows "run_calls (rap_register_target cfg crcpp (checked_wire wire) base) calls s =
      run_calls (rap_register_target cfg crcpp wire base) calls s \<and>
    backgroundWork cfg crcpp (checked_wire wire) target n srv =
      backgroundWork cfg crcpp wire target n srv"
proof -
  have "limits_agree wire (rap_serdes s) (transport s)"
    using assms(4) Serdes_constructor_ok
    by (auto simp: RapRegisterTarget_def limits_agree_def bindR_eq_Inr_conv)
  moreover have "limits_agree wire (srv_serdes srv) (srv_transport srv)"
    using assms(6) Serdes_constructor_ok
    by (auto simp: RapServerAdapter_def limits_agree_def bindR_eq_Inr_conv)
  ultimately show ?thesis
    using limited_stack.calls_checked limited_stack.backgroundWork_checked assms(1,2,3,5)
    by (metis limited_stack.intro limited_wire.intro wf_wireI)
qed

theorem sent_messages_fit_witness:
  "let s = \<lparr> transport = scripted_udp [Datagram [1]], rap_serdes = \<lparr> max_message_size = 1452 \<rparr>,
             next_txn_id = 0 \<rparr>;
       calls = [(CallRead 4, []), (CallFifoWrite 8 [1, 2], [])]
   in run_calls (rap_register_target ExampleRapCfg bit_serial_crc
        (checked_wire (udp_wire scripted_network)) unsupported) calls s =
      run_calls (rap_register_target ExampleRapCfg bit_serial_crc
        (udp_wire scripted_network) unsupported) calls s"
proof -
  let ?t = "scripted_udp [Datagram [1]]"
  have client: "RapRegisterTarget (udp_wire scripted_network) ?t =
      Inr \<lparr> transport = ?t, rap_serdes = \<lparr> max_message_size = 1452 \<rparr>, next_txn_id = 0 \<rparr>"
    and server: "RapServerAdapter (udp_wire scripted_network) ?t (\<lambda>a. 0) = Inr (udp_server [Datagram [1]])"
    by (simp_all add: RapRegisterTarget_def RapServerAdapter_def udp_getMaxMessageSize_def
        scripted_udp_def udp_server_def Serdes_constructor_def minimum_max_message_size_def)
  have calls: "list_all (exchanged ExampleRapCfg) [(CallRead 4, []), (CallFifoWrite 8 [1, 2], [])]"
    by (simp add: exchanged_def)
  show ?thesis
    unfolding Let_def
    by (rule sent_messages_fit [OF cfg_wf_ExampleRapCfg bit_serial_crc_width udp_keeps_limit
          client calls server, THEN conjunct1])
qed

end
