(* ===== verification/Packet_Damage.thy ===== *)
theory Packet_Damage
  imports Serdes
begin

text \<open>
  What the checksum is there for: a packet one byte of which was changed on its way is refused.
  The checksum function is a parameter, so this rests on a property of it (\<open>crc_detects\<close>: that
  of a cyclic redundancy check at least as wide as the damage). The bit-serial checksum has it
  for the four sets of parameters \<open>calculateCrc\<close> uses, which is proved from their polynomials
  having a constant term.
\<close>

section \<open>Checksums that detect a changed byte\<close>

definition crc_detects ::
  "('a::len, 'd::len, 'l::len, 'c::len) cfg \<Rightarrow> 'c crc_function \<Rightarrow> bool" where
  "crc_detects cfg crcpp \<longleftrightarrow>
     (\<forall>xs b c ys. b \<noteq> c \<longrightarrow>
        calculateCrc cfg crcpp (xs @ b # ys) \<noteq> calculateCrc cfg crcpp (xs @ c # ys))"

text \<open>Two registers that agree on their lowest bits.\<close>

definition agree :: "nat \<Rightarrow> 'c::len word \<Rightarrow> 'c word \<Rightarrow> bool" where
  "agree m r s \<longleftrightarrow> (\<forall>n < m. bit r n = bit s n)"

lemma agree_refl [simp]: "agree m r r"
  by (simp add: agree_def)

lemma agree_mono: "agree m r s \<Longrightarrow> k \<le> m \<Longrightarrow> agree k r s"
  by (simp add: agree_def)

lemma agree_Suc: "agree (Suc m) r s \<longleftrightarrow> agree m r s \<and> bit r m = bit s m"
  by (auto simp: agree_def less_Suc_eq)

lemma agree_take_bit_xor:
  assumes "take_bit w (r XOR f) = take_bit w (s XOR f)" and "w \<le> LENGTH('c)"
  shows "agree w r (s :: 'c::len word)"
  unfolding agree_def
proof (intro allI impI)
  fix n assume "n < w"
  then have "bit (r XOR f) n = bit (s XOR f) n"
    using assms by (metis bit_take_bit_iff)
  then show "bit r n = bit s n" by (auto simp: bit_xor_iff)
qed

text \<open>
  The register runs backwards: where the polynomial has a constant term the lowest bit of the
  new register tells whether it was added, and the others what the old register was, but for
  the bit that was shifted out.
\<close>

lemma bit_shift_register:
  fixes r :: "'c::len word"
  assumes "n < w" and "w \<le> LENGTH('c)"
  shows "bit (shift_register w poly r b) n \<longleftrightarrow>
    (0 < n \<and> bit r (n - 1)) \<noteq> ((bit r (w - 1) \<noteq> b) \<and> bit poly n)"
proof -
  have "bit (take_bit w (push_bit 1 r)) n \<longleftrightarrow> 0 < n \<and> bit r (n - 1)"
    using assms unfolding bit_take_bit_iff bit_push_bit_iff by auto
  then show ?thesis
    unfolding shift_register_def Let_def
    by (auto simp only: bit_xor_iff split: if_split)
qed

lemma shift_register_back:
  fixes r s :: "'c::len word"
  assumes "agree (Suc m) (shift_register w poly r b) (shift_register w poly s c)"
    and "bit poly 0" and "Suc m \<le> w" and "w \<le> LENGTH('c)"
  shows "agree m r s \<and> (bit r (w - 1) \<noteq> b \<longleftrightarrow> bit s (w - 1) \<noteq> c)"
proof -
  note step = bit_shift_register [OF _ assms(4), of _ poly]
  have flag: "bit r (w - 1) \<noteq> b \<longleftrightarrow> bit s (w - 1) \<noteq> c"
    using assms step [of 0] by (auto simp: agree_def)
  have "bit r n = bit s n" if "n < m" for n
  proof -
    have "bit (shift_register w poly r b) (Suc n) = bit (shift_register w poly s c) (Suc n)"
      using assms(1) that by (simp add: agree_def)
    then show ?thesis using step [of "Suc n"] that assms(3) flag by auto
  qed
  with flag show ?thesis by (simp add: agree_def)
qed

lemma feed_register_inject:
  fixes r s :: "'c::len word"
  assumes "bit poly 0" and "0 < w" and "w \<le> LENGTH('c)"
  shows "agree w (foldl (shift_register w poly) r bs) (foldl (shift_register w poly) s bs) \<Longrightarrow> agree w r s"
proof (induction bs arbitrary: r s)
  case (Cons b bs)
  obtain m where w: "w = Suc m" using assms(2) by (cases w) simp_all
  have "agree w (shift_register w poly r b) (shift_register w poly s b)"
    using Cons.IH Cons.prems by simp
  then have "agree m r s \<and> (bit r (w - 1) \<noteq> b \<longleftrightarrow> bit s (w - 1) \<noteq> b)"
    using shift_register_back [of m w poly r b s b] assms(1,3) w by simp
  then show ?case by (auto simp: w agree_Suc)
qed simp

lemma feed_bits_inject:
  fixes r :: "'c::len word"
  assumes "bit poly 0" and "w \<le> LENGTH('c)"
  shows "length bs = length cs \<Longrightarrow> length bs \<le> w \<Longrightarrow>
    agree (length bs) (foldl (shift_register w poly) r bs) (foldl (shift_register w poly) r cs) \<Longrightarrow> bs = cs"
proof (induction bs arbitrary: cs rule: rev_induct)
  case (snoc b bs)
  then obtain c cs' where cs: "cs = cs' @ [c]" "length cs' = length bs"
    by (cases cs rule: rev_cases) simp_all
  let ?f = "foldl (shift_register w poly) r"
  have "agree (length bs) (?f bs) (?f cs') \<and> (bit (?f bs) (w - 1) \<noteq> b \<longleftrightarrow> bit (?f cs') (w - 1) \<noteq> c)"
    using snoc.prems cs assms by (intro shift_register_back [of _ w poly]) simp_all
  then have same: "agree (length bs) (?f bs) (?f cs')" "bit (?f bs) (w - 1) \<noteq> b \<longleftrightarrow> bit (?f cs') (w - 1) \<noteq> c"
    by blast+
  have "bs = cs'" by (rule snoc.IH) (use cs snoc.prems same in simp_all)
  with same(2) show ?case unfolding cs(1) by (cases b; cases c) simp_all
qed simp

lemma bits_of_byte_inject: "bits_of_byte reflect b = bits_of_byte reflect c \<Longrightarrow> b = c"
  by (intro bit_word_eqI) (auto simp: bits_of_byte_def split: if_splits)

lemma length_bits_of_byte [simp]: "length (bits_of_byte reflect b) = 8"
  by (simp add: bits_of_byte_def)

lemma bit_reflect_loop:
  fixes r :: "'c::len word"
  assumes "k \<le> w" and "w \<le> LENGTH('c)"
  shows "bit (foldl (\<lambda>v i. if bit r i then set_bit (w - 1 - i) v else v) (0 :: 'c word) [0..<k]) n
    \<longleftrightarrow> (\<exists>i < k. bit r i \<and> n = w - 1 - i)"
  using assms(1)
proof (induction k)
  case (Suc k)
  then have "w - 1 - k < LENGTH('c)" using assms(2) by simp
  with Suc show ?case by (auto simp: bit_set_bit_iff less_Suc_eq)
qed simp

lemma bit_reflect_word:
  fixes r :: "'c::len word"
  assumes "n < w" and "w \<le> LENGTH('c)"
  shows "bit (reflect_word w r) n \<longleftrightarrow> bit r (w - 1 - n)"
proof -
  have "(\<exists>i < w. bit r i \<and> n = w - 1 - i) \<longleftrightarrow> bit r (w - 1 - n)"
  proof
    assume "\<exists>i < w. bit r i \<and> n = w - 1 - i"
    then obtain i where i: "i < w" "bit r i" "n = w - 1 - i" by blast
    then have "w - 1 - n = i" by simp
    with i(2) show "bit r (w - 1 - n)" by simp
  next
    assume "bit r (w - 1 - n)"
    with assms(1) show "\<exists>i < w. bit r i \<and> n = w - 1 - i" by (intro exI [of _ "w - 1 - n"]) simp
  qed
  then show ?thesis
    unfolding reflect_word_def bit_reflect_loop [OF order_refl assms(2)] .
qed

lemma agree_reflect_word:
  fixes r s :: "'c::len word"
  assumes "agree w (reflect_word w r) (reflect_word w s)" and "w \<le> LENGTH('c)"
  shows "agree w r s"
  unfolding agree_def
proof (intro allI impI)
  fix n assume n: "n < w"
  then have "bit (reflect_word w r) (w - 1 - n) = bit (reflect_word w s) (w - 1 - n)"
    using assms(1) by (simp add: agree_def)
  with n show "bit r n = bit s n" by (simp add: bit_reflect_word [OF _ assms(2)])
qed

lemma bit_serial_crc_detects_byte:
  fixes p :: "'c::len word crc_parameters"
  assumes "bit (polynomial p) 0" and "8 \<le> CRCWidth p" and "CRCWidth p \<le> LENGTH('c)"
    and "bit_serial_crc p (xs @ b # ys) = bit_serial_crc p (xs @ c # ys)"
  shows "b = c"
proof -
  let ?w = "CRCWidth p" and ?bits = "bits_of_byte (reflectInput p)"
  let ?f = "foldl (shift_register ?w (polynomial p))"
  let ?bs = "concat (map ?bits xs)" and ?cs = "concat (map ?bits ys)"
  let ?r = "?f (initialValue p) ?bs"
  have "agree ?w (?f (?f ?r (?bits b)) ?cs) (?f (?f ?r (?bits c)) ?cs)"
    using agree_take_bit_xor [OF _ assms(3)] agree_reflect_word [OF _ assms(3)] assms(4)
    by (fastforce simp: bit_serial_crc_def Let_def split: if_splits)
  then have "agree ?w (?f ?r (?bits b)) (?f ?r (?bits c))"
    using feed_register_inject [OF assms(1) _ assms(3)] assms(2) by simp
  then have "agree (length (?bits b)) (?f ?r (?bits b)) (?f ?r (?bits c))"
    using agree_mono assms(2) by simp
  then have "?bits b = ?bits c"
    using feed_bits_inject [OF assms(1,3)] assms(2) by simp
  then show ?thesis by (rule bits_of_byte_inject)
qed

text \<open>The four sets of parameters of the code.\<close>

lemma bit_serial_crc_detects:
  fixes cfg :: "('a::len, 'd::len, 'l::len, 'c::len) cfg"
  assumes "cfg_wf cfg"
  shows "crc_detects cfg bit_serial_crc"
proof -
  have width: "8 * CrcBytes cfg \<le> LENGTH('c)" and bytes: "CrcBytes cfg \<in> {1, 2, 3, 4}"
    using assms wf_config.crc_bytes_cases [OF wf_config.intro [OF assms]] by (auto simp: cfg_wf_def)
  have one_byte: "b = c" if "calculateCrc cfg bit_serial_crc (xs @ b # ys) =
      calculateCrc cfg bit_serial_crc (xs @ c # ys)" for xs b c ys
  proof -
    obtain p :: "'c word crc_parameters" where
      "calculateCrc cfg bit_serial_crc = (\<lambda>buf. Inr (bit_serial_crc p buf))"
      "bit (polynomial p) 0" "CRCWidth p = 8 * CrcBytes cfg"
    proof -
      note defs = calculateCrc_def fun_eq_iff crc8_dvb_s2_def crc16_xmodem_def crc24_interlaken_def
        crc32_interlaken_def
      from bytes consider "CrcBytes cfg = 1" | "CrcBytes cfg = 2" | "CrcBytes cfg = 3" | "CrcBytes cfg = 4"
        by blast
      then show thesis
        by cases (rule that [of crc8_dvb_s2] that [of crc16_xmodem] that [of crc24_interlaken]
          that [of crc32_interlaken]; simp add: defs bit_0)+
    qed
    then show ?thesis
      using bit_serial_crc_detects_byte [of p xs b ys c] that width bytes by auto
  qed
  then show ?thesis unfolding crc_detects_def by blast
qed

section \<open>Packets with a changed byte\<close>

context wf_wire
begin

lemma le_bytes_packet_crc_inject:
  "le_bytes (CrcBytes cfg) (packet_crc cfg crcpp xs) = le_bytes (CrcBytes cfg) (packet_crc cfg crcpp ys)
     \<longleftrightarrow> packet_crc cfg crcpp xs = packet_crc cfg crcpp ys"
  using le_word_le_bytes [of "CrcBytes cfg" "packet_crc cfg crcpp xs"]
    le_word_le_bytes [of "CrcBytes cfg" "packet_crc cfg crcpp ys"] fits_packet_crc
  by (metis fits_bytes_take_bit)

lemma packet_crc_changed:
  assumes "crc_detects cfg crcpp" and "i < length xs" and "b \<noteq> xs ! i"
  shows "packet_crc cfg crcpp (xs[i := b]) \<noteq> packet_crc cfg crcpp xs"
proof -
  have "calculateCrc cfg crcpp (take i xs @ b # drop (Suc i) xs) \<noteq>
      calculateCrc cfg crcpp (take i xs @ xs ! i # drop (Suc i) xs)"
    using assms(1,3) unfolding crc_detects_def by blast
  then show ?thesis
    using assms(2) by (simp add: calculateCrc_eq upd_conv_take_nth_drop id_take_nth_drop [symmetric])
qed

lemma openPacket_damaged:
  assumes "crc_detects cfg crcpp" and "i < length (packet cfg crcpp txn code body)"
    and "b \<noteq> packet cfg crcpp txn code body ! i"
  shows "\<exists>want got. openPacket cfg crcpp ((packet cfg crcpp txn code body)[i := b]) =
    Inl (CrcMismatchException want got)"
proof -
  let ?data = "txn # code # body"
  let ?tail = "le_bytes (CrcBytes cfg) (packet_crc cfg crcpp ?data)"
  show ?thesis
  proof (cases "i < length ?data")
    case True
    then obtain txn' code' body' where data: "?data[i := b] = txn' # code' # body'"
      by (metis length_Cons length_list_update length_Suc_conv)
    have "b \<noteq> ?data ! i"
      using assms(3) True nth_append [of ?data ?tail i] by (simp add: packet_def)
    then have "packet_crc cfg crcpp (?data[i := b]) \<noteq> packet_crc cfg crcpp ?data"
      by (rule packet_crc_changed [OF assms(1) True])
    then have "?tail \<noteq> le_bytes (CrcBytes cfg) (packet_crc cfg crcpp (txn' # code' # body'))"
      unfolding data le_bytes_packet_crc_inject by (rule not_sym)
    moreover have "(packet cfg crcpp txn code body)[i := b] = txn' # code' # body' @ ?tail"
      unfolding packet_def list_update_append1 [OF True] data by simp
    ultimately show ?thesis
      using openPacket_bad_crc [of ?tail txn' code' body'] by simp
  next
    case False
    let ?j = "i - length ?data"
    have "?j < length ?tail" using assms(2) False by simp
    moreover have "b \<noteq> ?tail ! ?j"
      using assms(3) False unfolding packet_def nth_append by (simp only: if_False simp_thms)
    ultimately have "?tail[?j := b] \<noteq> ?tail" by (metis nth_list_update_eq)
    moreover have "(packet cfg crcpp txn code body)[i := b] = txn # code # body @ ?tail[?j := b]"
      using False unfolding packet_def list_update_append by (simp only: if_False) simp
    ultimately show ?thesis
      using openPacket_bad_crc [of "?tail[?j := b]" txn code body] by simp
  qed
qed

end

section \<open>Property\<close>

text \<open>
  C35. A message is never taken for another one because a byte of it was changed on the way,
  whichever byte it is and whatever it became: both decoders refuse the damaged packet of a
  command or response with a \<open>CrcMismatchException\<close>.
\<close>

theorem damaged_byte_rejected:
  assumes "cfg_wf cfg" and "crc_width_respected crcpp" and "crc_detects cfg crcpp" and "serdes_ok sd"
    and "encodeCommand cfg crcpp sd cmd = Inr buf \<or> encodeResponse cfg crcpp sd resp = Inr buf"
    and "i < length buf" and "b \<noteq> buf ! i"
  shows "\<exists>want got. decodeCommand cfg crcpp (buf[i := b]) = Inl (CrcMismatchException want got) \<and>
    decodeResponse cfg crcpp (buf[i := b]) = Inl (CrcMismatchException want got)"
proof -
  note w = wf_wireI [OF assms(1,2)]
  obtain txn code body where "buf = packet cfg crcpp txn code body"
    using assms(5) by (auto simp: wf_wire.encodeCommand_eq [OF w assms(4)] command_packet_def
        wf_wire.encodeResponse_eq [OF w assms(4)] response_packet_def split: if_splits)
  with wf_wire.openPacket_damaged [OF w assms(3)] assms(6,7)
  obtain want got where "openPacket cfg crcpp (buf[i := b]) = Inl (CrcMismatchException want got)" by blast
  then show ?thesis by (simp add: decodeCommand_def decodeResponse_def)
qed

theorem damaged_byte_rejected_witness:
  "\<exists>buf. encodeCommand ExampleRapCfg bit_serial_crc sd512 (ReadSingleCommand 1 2) = Inr buf \<and>
    2 < length buf \<and> (\<exists>want got. decodeCommand ExampleRapCfg bit_serial_crc (buf[2 := buf ! 2 + 1]) =
      Inl (CrcMismatchException want got))"
proof -
  let ?cmd = "ReadSingleCommand 1 2 :: (32 word, 32 word, 16 word) Command"
  let ?buf = "command_packet ExampleRapCfg bit_serial_crc ?cmd"
  have enc: "encodeCommand ExampleRapCfg bit_serial_crc sd512 ?cmd = Inr ?buf"
    by (subst example_wire.encodeCommand_eq) simp_all
  moreover have "2 < length ?buf" by (simp add: command_packet_def)
  moreover from this damaged_byte_rejected [OF cfg_wf_ExampleRapCfg bit_serial_crc_width
      bit_serial_crc_detects [OF cfg_wf_ExampleRapCfg] sd512_ok disjI1 [OF enc], of 2 "?buf ! 2 + 1"]
  have "\<exists>want got. decodeCommand ExampleRapCfg bit_serial_crc (?buf[2 := ?buf ! 2 + 1]) =
      Inl (CrcMismatchException want got)" by auto
  ultimately show ?thesis by blast
qed

end
