(* ===== verification/Network_System.thy ===== *)
theory Network_System
  imports Rap_Stack Packet_Damage
begin

text \<open>
  Any number of threads that share one \<open>RapRegisterTarget\<close>, and a \<open>RapServerAdapter\<close>, over a
  network. The network is not in the repository, so it is a parameter (\<open>network\<close>): what a receive
  may return when these packets were sent, and the exceptions a transport over it may throw. It may
  lose, repeat, delay and reorder packets, as UDP may; what it may do to the bytes of a packet is a
  hypothesis of the properties that need one (\<open>damage_noticed\<close>).

  The id of a command is drawn from an atomic counter; between drawing it, sending the command
  and receiving a reply a thread can lose the processor, and nothing in \<open>doCmdResp\<close> keeps the
  others out. The worker is \<open>process_buffer\<close> on a transport that records what is sent.
\<close>

section \<open>States and steps\<close>

datatype ('a, 'd, 'l) call_phase =
    Ready
  | Numbered "('a, 'd, 'l) Command"
  | Sent "('a, 'd, 'l) Command"

record ('a, 'd, 'l, 't) network_state =
  phase :: "nat \<Rightarrow> ('a, 'd, 'l) call_phase"
  counter :: byte
  commands_sent :: "Buffer list"
  responses_sent :: "Buffer list"
  server_worker :: worker
  server_target :: 't
  drawn :: "('a, 'd, 'l) Command list"
  executed :: "('a, 'd, 'l) Command list"
  outcomes :: "(nat \<times> ('a, 'd, 'l) Command \<times> 'd Response result) list"

text \<open>The server, its transport being the record of what it has sent.\<close>

definition network_server ::
  "serdes \<Rightarrow> ('a, 'd, 'l, 't) network_state \<Rightarrow> (Buffer list \<times> Buffer list, 't) server" where
  "network_server sd \<sigma> =
     \<lparr> srv_transport = (responses_sent \<sigma>, []), srv_target = server_target \<sigma>, srv_serdes = sd \<rparr>"

definition set_server ::
  "(Buffer list \<times> Buffer list, 't) server \<Rightarrow> ('a, 'd, 'l, 't) network_state \<Rightarrow>
   ('a, 'd, 'l, 't) network_state" where
  "set_server S \<sigma> = \<sigma>\<lparr> responses_sent := fst (srv_transport S), server_target := srv_target S \<rparr>"

record network =
  delivers :: "Buffer list \<Rightarrow> Buffer \<Rightarrow> bool"
  throws :: "exn \<Rightarrow> bool"

text \<open>The calling threads: \<open>getNextTxnId\<close> and \<open>doCmdResp\<close> of \<open>RapRegisterTarget\<close>.\<close>

inductive call_step ::
  "('a::len, 'd::len, 'l::len, 'c::len) cfg \<Rightarrow> 'c crc_function \<Rightarrow> serdes \<Rightarrow> network \<Rightarrow>
     ('a word, 'd word, 'l word, 't) network_state \<Rightarrow> ('a word, 'd word, 'l word, 't) network_state \<Rightarrow> bool"
  for cfg crcpp sd net
where
  draw: "phase \<sigma> i = Ready \<Longrightarrow> cmd_transaction_id cmd = counter \<sigma> \<Longrightarrow>
    call_step cfg crcpp sd net \<sigma>
      (\<sigma>\<lparr> phase := (phase \<sigma>)(i := Numbered cmd), counter := counter \<sigma> + 1, drawn := drawn \<sigma> @ [cmd] \<rparr>)"
| transmit: "phase \<sigma> i = Numbered cmd \<Longrightarrow> encodeCommand cfg crcpp sd cmd = Inr buf \<Longrightarrow>
    call_step cfg crcpp sd net \<sigma>
      (\<sigma>\<lparr> phase := (phase \<sigma>)(i := Sent cmd), commands_sent := commands_sent \<sigma> @ [buf] \<rparr>)"
| refuse: "phase \<sigma> i = Numbered cmd \<Longrightarrow> encodeCommand cfg crcpp sd cmd = Inl e \<Longrightarrow>
    call_step cfg crcpp sd net \<sigma>
      (\<sigma>\<lparr> phase := (phase \<sigma>)(i := Ready), outcomes := outcomes \<sigma> @ [(i, cmd, Inl e)] \<rparr>)"
| reply: "phase \<sigma> i = Sent cmd \<Longrightarrow> delivers net (responses_sent \<sigma>) buf \<Longrightarrow>
    call_step cfg crcpp sd net \<sigma>
      (\<sigma>\<lparr> phase := (phase \<sigma>)(i := Ready), outcomes := outcomes \<sigma> @
         [(i, cmd, bindR (decodeResponse cfg crcpp buf) (match_response cmd))] \<rparr>)"
| no_reply: "phase \<sigma> i = Sent cmd \<Longrightarrow> throws net e \<Longrightarrow>
    call_step cfg crcpp sd net \<sigma>
      (\<sigma>\<lparr> phase := (phase \<sigma>)(i := Ready), outcomes := outcomes \<sigma> @ [(i, cmd, Inl e)] \<rparr>)"

text \<open>
  The worker: the loop of \<open>backgroundWork\<close> of \<open>RapServerAdapter\<close>. \<open>executed\<close> records what it has got
  out of the packets, whether or not the response could be sent.
\<close>

definition got ::
  "('a::len, 'd::len, 'l::len, 'c::len) cfg \<Rightarrow> 'c crc_function \<Rightarrow> Buffer \<Rightarrow>
     ('a word, 'd word, 'l word) Command list" where
  "got cfg crcpp buf = (case decodeCommand cfg crcpp buf of Inr cmd \<Rightarrow> [cmd] | Inl e \<Rightarrow> [])"

inductive server_step ::
  "('a::len, 'd::len, 'l::len, 'c::len) cfg \<Rightarrow> 'c crc_function \<Rightarrow> serdes \<Rightarrow>
     ('t, 'a word, 'd word) register_target \<Rightarrow> network \<Rightarrow>
     ('a word, 'd word, 'l word, 't) network_state \<Rightarrow> ('a word, 'd word, 'l word, 't) network_state \<Rightarrow> bool"
  for cfg crcpp sd target net
where
  work: "server_worker \<sigma> = Running \<Longrightarrow> delivers net (commands_sent \<sigma>) buf \<Longrightarrow>
    process_buffer cfg crcpp scripted_transport target buf (network_server sd \<sigma>) = (Inr (), S) \<Longrightarrow>
    server_step cfg crcpp sd target net \<sigma> ((set_server S \<sigma>)\<lparr> executed := executed \<sigma> @ got cfg crcpp buf \<rparr>)"
| work_fails: "server_worker \<sigma> = Running \<Longrightarrow> delivers net (commands_sent \<sigma>) buf \<Longrightarrow>
    process_buffer cfg crcpp scripted_transport target buf (network_server sd \<sigma>) = (Inl e, S) \<Longrightarrow>
    server_step cfg crcpp sd target net \<sigma>
      ((set_server S \<sigma>)\<lparr> executed := executed \<sigma> @ got cfg crcpp buf, server_worker := Terminated e \<rparr>)"
| no_command: "server_worker \<sigma> = Running \<Longrightarrow> throws net e \<Longrightarrow>
    server_step cfg crcpp sd target net \<sigma> (\<sigma>\<lparr> server_worker := Terminated e \<rparr>)"
| stop: "server_worker \<sigma> = Running \<Longrightarrow>
    server_step cfg crcpp sd target net \<sigma> (\<sigma>\<lparr> server_worker := Stopped \<rparr>)"

definition net_step ::
  "('a::len, 'd::len, 'l::len, 'c::len) cfg \<Rightarrow> 'c crc_function \<Rightarrow> serdes \<Rightarrow>
     ('t, 'a word, 'd word) register_target \<Rightarrow> network \<Rightarrow>
     ('a word, 'd word, 'l word, 't) network_state \<Rightarrow> ('a word, 'd word, 'l word, 't) network_state \<Rightarrow> bool" where
  "net_step cfg crcpp sd target net \<sigma> \<sigma>' \<longleftrightarrow>
     call_step cfg crcpp sd net \<sigma> \<sigma>' \<or> server_step cfg crcpp sd target net \<sigma> \<sigma>'"

lemma calls_move: "call_step cfg crcpp sd net \<sigma> \<sigma>' \<Longrightarrow> net_step cfg crcpp sd target net \<sigma> \<sigma>'"
  by (simp add: net_step_def)

lemma server_moves: "server_step cfg crcpp sd target net \<sigma> \<sigma>' \<Longrightarrow> net_step cfg crcpp sd target net \<sigma> \<sigma>'"
  by (simp add: net_step_def)

abbreviation net_run where
  "net_run cfg crcpp sd target net \<equiv> (net_step cfg crcpp sd target net)\<^sup>*\<^sup>*"

definition net_initial :: "byte \<Rightarrow> 't \<Rightarrow> ('a, 'd, 'l, 't) network_state" where
  "net_initial t0 r0 =
     \<lparr> phase = \<lambda>i. Ready, counter = t0, commands_sent = [], responses_sent = [],
       server_worker = Running, server_target = r0, drawn = [], executed = [], outcomes = [] \<rparr>"

section \<open>Networks\<close>

text \<open>
  What the properties need of the network: a buffer that arrives when only packets were sent is one
  of them, or both decoders refuse it. A damage that keeps checksum and format would be a packet that
  nobody sent.
\<close>

definition damage_noticed ::
  "('a::len, 'd::len, 'l::len, 'c::len) cfg \<Rightarrow> 'c crc_function \<Rightarrow> network \<Rightarrow> bool" where
  "damage_noticed cfg crcpp net \<longleftrightarrow>
     (\<forall>sent buf. (\<forall>p \<in> set sent. \<exists>txn code body. p = packet cfg crcpp txn code body) \<longrightarrow>
        delivers net sent buf \<longrightarrow> buf \<in> set sent \<or>
        (\<exists>e. decodeCommand cfg crcpp buf = Inl e) \<and> (\<exists>e. decodeResponse cfg crcpp buf = Inl e))"

text \<open>A network that delivers the packets that were sent, in any order and any number of times.\<close>

definition faithful_network :: network where
  "faithful_network = \<lparr> delivers = (\<lambda>sent buf. buf \<in> set sent), throws = (\<lambda>e. False) \<rparr>"

text \<open>One that may also change a byte of a packet, and over which a receive may fail in any way.\<close>

definition byte_damage_network :: network where
  "byte_damage_network =
     \<lparr> delivers = (\<lambda>sent buf. buf \<in> set sent \<or> (\<exists>p \<in> set sent. \<exists>i < length p. \<exists>b. buf = p[i := b])),
       throws = (\<lambda>e. True) \<rparr>"

lemma faithful_simps [simp]:
  "delivers faithful_network sent buf \<longleftrightarrow> buf \<in> set sent" "throws faithful_network e \<longleftrightarrow> False"
  by (simp_all add: faithful_network_def)

lemma faithful_noticed [simp]: "damage_noticed cfg crcpp faithful_network"
  by (simp add: damage_noticed_def)

lemma byte_damage_noticed:
  assumes "cfg_wf cfg" and "crc_width_respected crcpp" and "crc_detects cfg crcpp"
  shows "damage_noticed cfg crcpp byte_damage_network"
  unfolding damage_noticed_def
proof (intro allI impI)
  fix sent buf
  assume packets: "\<forall>p \<in> set sent. \<exists>txn code body. p = packet cfg crcpp txn code body"
    and arrived: "delivers byte_damage_network sent buf"
  show "buf \<in> set sent \<or>
    (\<exists>e. decodeCommand cfg crcpp buf = Inl e) \<and> (\<exists>e. decodeResponse cfg crcpp buf = Inl e)"
  proof (cases "buf \<in> set sent")
    case False
    then obtain p i b where p: "p \<in> set sent" "i < length p" "buf = p[i := b]"
      using arrived by (auto simp: byte_damage_network_def)
    then have "b \<noteq> p ! i" using False by auto
    moreover obtain txn code body where "p = packet cfg crcpp txn code body"
      using packets p(1) by blast
    ultimately obtain want got where "openPacket cfg crcpp buf = Inl (CrcMismatchException want got)"
      using wf_wire.openPacket_damaged [OF wf_wireI [OF assms(1,2)] assms(3)] p(2,3) by blast
    then show ?thesis by (simp add: decodeCommand_def decodeResponse_def)
  qed simp
qed

text \<open>
  The steps of a thread are those of the code: a whole call, \<open>getNextTxnId\<close> and \<open>doCmdResp\<close> on a
  transport that records what is sent and hands out packets of the network, is a run.
\<close>

lemma exchange_is_run:
  assumes numbered: "phase \<sigma> i = Numbered cmd" and obj: "rap_serdes s = sd" "transport s = (commands_sent \<sigma>, bufs)"
    and bufs: "\<forall>buf \<in> set bufs. delivers net (responses_sent \<sigma>) buf" "throws net TransportTimeoutException"
    and call: "doCmdResp cfg crcpp scripted_transport cmd s = (r, s')"
  shows "\<exists>\<sigma>'. net_run cfg crcpp sd target net \<sigma> \<sigma>' \<and> phase \<sigma>' i = Ready \<and> drawn \<sigma>' = drawn \<sigma> \<and>
    counter \<sigma>' = counter \<sigma> \<and> commands_sent \<sigma>' = fst (transport s') \<and>
    outcomes \<sigma>' = outcomes \<sigma> @ [(i, cmd, r)]"
proof (cases "encodeCommand cfg crcpp sd cmd")
  case (Inl e)
  let ?fin = "\<sigma>\<lparr> phase := (phase \<sigma>)(i := Ready), outcomes := outcomes \<sigma> @ [(i, cmd, r)] \<rparr>"
  have r: "r = Inl e" "s' = s"
    using call doCmdResp_too_large [of cfg crcpp s cmd e] Inl obj(1) by simp_all
  then have "net_step cfg crcpp sd target net \<sigma> ?fin" by (simp only: calls_move [OF refuse [OF numbered Inl]])
  with obj(2) r(2) show ?thesis by (intro exI [of _ ?fin]) auto
next
  case (Inr buf)
  let ?s = "\<sigma>\<lparr> phase := (phase \<sigma>)(i := Sent cmd), commands_sent := commands_sent \<sigma> @ [buf] \<rparr>"
  let ?fin = "?s\<lparr> phase := (phase ?s)(i := Ready), outcomes := outcomes ?s @ [(i, cmd, r)] \<rparr>"
  have s': "s' = s\<lparr> transport := (commands_sent \<sigma> @ [buf], tl bufs) \<rparr>"
    and r: "r = (case bufs of [] \<Rightarrow> Inl TransportTimeoutException
      | b # bs \<Rightarrow> bindR (decodeResponse cfg crcpp b) (match_response cmd))"
    using call Inr obj
    by (cases bufs; auto simp: doCmdResp_def bindA_split send_on_def recv_on_def liftA_def)+
  have "net_step cfg crcpp sd target net ?s ?fin"
  proof (cases bufs)
    case Nil
    then have r': "r = Inl TransportTimeoutException" by (simp add: r)
    show ?thesis unfolding r' using bufs(2) by (intro calls_move no_reply) simp_all
  next
    case (Cons b bs)
    then have r': "r = bindR (decodeResponse cfg crcpp b) (match_response cmd)" by (simp add: r)
    show ?thesis unfolding r' using bufs(1) Cons by (intro calls_move reply) simp_all
  qed
  with calls_move [OF transmit [OF numbered Inr]] have "net_run cfg crcpp sd target net \<sigma> ?fin"
    by (rule converse_rtranclp_into_rtranclp [OF _ r_into_rtranclp])
  then show ?thesis by (intro exI [of _ ?fin]) (simp add: s')
qed

lemma call_is_run:
  assumes ready: "phase \<sigma> i = Ready" and obj: "rap_serdes s = sd" "next_txn_id s = counter \<sigma>"
    "transport s = (commands_sent \<sigma>, bufs)"
    and bufs: "\<forall>buf \<in> set bufs. delivers net (responses_sent \<sigma>) buf" "throws net TransportTimeoutException"
    and id: "getNextTxnId s = (Inr (cmd_transaction_id cmd), s1)"
    and call: "doCmdResp cfg crcpp scripted_transport cmd s1 = (r, s')"
  shows "\<exists>\<sigma>'. net_run cfg crcpp sd target net \<sigma> \<sigma>' \<and> phase \<sigma>' i = Ready \<and> drawn \<sigma>' = drawn \<sigma> @ [cmd] \<and>
    counter \<sigma>' = next_txn_id s' \<and> commands_sent \<sigma>' = fst (transport s') \<and>
    outcomes \<sigma>' = outcomes \<sigma> @ [(i, cmd, r)]"
proof -
  let ?n = "\<sigma>\<lparr> phase := (phase \<sigma>)(i := Numbered cmd), counter := counter \<sigma> + 1, drawn := drawn \<sigma> @ [cmd] \<rparr>"
  have s1: "cmd_transaction_id cmd = counter \<sigma>" "s1 = s\<lparr> next_txn_id := next_txn_id s + 1 \<rparr>"
    using id obj by (auto simp: getNextTxnId_def)
  have "next_txn_id s' = counter \<sigma> + 1"
    using doCmdResp_keeps(1) [of cfg crcpp scripted_transport cmd s1] call s1(2) obj(2) by simp
  with exchange_is_run [of ?n i cmd s1 sd bufs net cfg crcpp r s' target] obj bufs call s1(2)
  obtain \<sigma>' where "net_run cfg crcpp sd target net ?n \<sigma>'" "phase \<sigma>' i = Ready" "drawn \<sigma>' = drawn \<sigma> @ [cmd]"
    "counter \<sigma>' = next_txn_id s'" "commands_sent \<sigma>' = fst (transport s')"
    "outcomes \<sigma>' = outcomes \<sigma> @ [(i, cmd, r)]"
    by auto
  with converse_rtranclp_into_rtranclp [of "net_step cfg crcpp sd target net", OF calls_move [OF draw [OF ready s1(1)]]]
  show ?thesis by blast
qed

section \<open>The invariant\<close>

text \<open>
  Every command on the network and in a thread was drawn, with consecutive ids; the worker has
  executed what some of them arrived as; every response on the network is that of a command it has
  executed, in the order of execution; and
  every acknowledge that a call has returned is one of them, for a command with its id.
\<close>

fun in_flight :: "('a, 'd, 'l) call_phase \<Rightarrow> ('a, 'd, 'l) Command set" where
  "in_flight Ready = {}"
| "in_flight (Numbered cmd) = {cmd}"
| "in_flight (Sent cmd) = {cmd}"

definition sendable ::
  "('a::len, 'd::len, 'l::len, 'c::len) cfg \<Rightarrow> 'c crc_function \<Rightarrow> serdes \<Rightarrow>
   ('a word, 'd word, 'l word) Command list \<Rightarrow> ('a word, 'd word, 'l word) Command set" where
  "sendable cfg crcpp sd cmds = {cmd \<in> set (passed cfg sd cmds). legible cfg crcpp cmd}"

definition genuine where
  "genuine cfg crcpp sd target t0 r0 \<sigma> resps \<longleftrightarrow>
     serve_all target (executed \<sigma>) r0 = (resps, server_target \<sigma>) \<and>
     responses_sent \<sigma> = map (response_packet cfg crcpp) resps \<and>
     set (executed \<sigma>) \<subseteq> as_received cfg crcpp ` sendable cfg crcpp sd (drawn \<sigma>) \<and>
     set (commands_sent \<sigma>) \<subseteq> command_packet cfg crcpp ` set (passed cfg sd (drawn \<sigma>)) \<and>
     (\<forall>i. in_flight (phase \<sigma> i) \<subseteq> set (drawn \<sigma>)) \<and>
     (\<forall>i cmd. phase \<sigma> i = Sent cmd \<longrightarrow>
        command_limit cfg sd cmd \<and> command_packet cfg crcpp cmd \<in> set (commands_sent \<sigma>)) \<and>
     (\<forall>j < length (drawn \<sigma>). cmd_transaction_id (drawn \<sigma> ! j) = t0 + word_of_nat j) \<and>
     counter \<sigma> = t0 + word_of_nat (length (drawn \<sigma>)) \<and>
     (\<forall>i cmd r. (i, cmd, Inr r) \<in> set (outcomes \<sigma>) \<longrightarrow>
        cmd \<in> set (drawn \<sigma>) \<and> r \<in> set resps \<and>
        resp_transaction_id r = cmd_transaction_id cmd \<and> AckResponseType cmd r)"

lemma genuine_initial: "genuine cfg crcpp sd target t0 r0 (net_initial t0 r0) []"
  by (simp add: genuine_def net_initial_def)

context rap_stack
begin

lemma network_process:
  fixes cmd :: "('a word, 'd word, 'l word) Command"
  assumes "cmd \<in> sendable cfg crcpp sd cmds"
    and "handleCmd target (as_received cfg crcpp cmd) (server_target \<sigma>) = (r, t')"
  shows "process_buffer cfg crcpp scripted_transport target (command_packet cfg crcpp cmd)
      (network_server sd \<sigma>) =
    (Inr (), (network_server sd \<sigma>)\<lparr> srv_target := t', srv_transport :=
       (responses_sent \<sigma> @ [response_packet cfg crcpp (response_for (as_received cfg crcpp cmd) r)], []) \<rparr>)"
  using assms by (intro process_command) (simp_all add: sendable_def network_server_def)

end

text \<open>The stack over a network whose damage the decoders notice.\<close>

locale rap_network = rap_stack cfg crcpp sd target
  for cfg :: "('a::len, 'd::len, 'l::len, 'c::len) cfg" and crcpp :: "'c crc_function"
    and sd :: serdes and target :: "('t, 'a word, 'd word) register_target" +
  fixes net :: network
  assumes noticed: "damage_noticed cfg crcpp net"
begin

lemma genuine_draw:
  assumes "genuine cfg crcpp sd target t0 r0 \<sigma> resps" and "cmd_transaction_id cmd = counter \<sigma>"
    and "phase \<sigma> i = Ready"
  shows "genuine cfg crcpp sd target t0 r0
    (\<sigma>\<lparr> phase := (phase \<sigma>)(i := Numbered cmd), counter := counter \<sigma> + 1, drawn := drawn \<sigma> @ [cmd] \<rparr>)
    resps"
  using assms by (auto simp: genuine_def sendable_def nth_append less_Suc_eq)

lemma genuine_transmit:
  assumes "genuine cfg crcpp sd target t0 r0 \<sigma> resps" and "phase \<sigma> i = Numbered cmd"
    and "encodeCommand cfg crcpp sd cmd = Inr buf"
  shows "genuine cfg crcpp sd target t0 r0
    (\<sigma>\<lparr> phase := (phase \<sigma>)(i := Sent cmd), commands_sent := commands_sent \<sigma> @ [buf] \<rparr>) resps"
proof -
  have "command_limit cfg sd cmd" "buf = command_packet cfg crcpp cmd"
    using assms(3) by (simp_all add: wf_wire.encodeCommand_eq [OF wire sd_ok] split: if_splits)
  moreover have "cmd \<in> set (drawn \<sigma>)"
    using assms(1,2) unfolding genuine_def by (metis in_flight.simps(2) insert_subset)
  ultimately show ?thesis
    using assms(1) by (auto simp: genuine_def sendable_def)
qed

text \<open>A thread that ends its call with \<open>r\<close>; only an acknowledge has to be accounted for.\<close>

lemma genuine_outcome:
  assumes "genuine cfg crcpp sd target t0 r0 \<sigma> resps" and "cmd \<in> in_flight (phase \<sigma> i)"
    and "\<And>q. r = Inr q \<Longrightarrow> q \<in> set resps \<and> resp_transaction_id q = cmd_transaction_id cmd \<and>
      AckResponseType cmd q"
  shows "genuine cfg crcpp sd target t0 r0
    (\<sigma>\<lparr> phase := (phase \<sigma>)(i := Ready), outcomes := outcomes \<sigma> @ [(i, cmd, r)] \<rparr>) resps"
proof -
  have "cmd \<in> set (drawn \<sigma>)" using assms(1,2) unfolding genuine_def by blast
  with assms show ?thesis by (auto simp: genuine_def)
qed

lemma genuine_responses_fit:
  assumes "genuine cfg crcpp sd target t0 r0 \<sigma> resps" and "resp \<in> set resps"
  shows "response_fits cfg resp"
proof (rule serve_all_fits)
  show "serve_all target (executed \<sigma>) r0 = (resps, server_target \<sigma>)"
    using assms(1) by (simp add: genuine_def)
  have "set (executed \<sigma>) \<subseteq> as_received cfg crcpp ` sendable cfg crcpp sd (drawn \<sigma>)"
    using assms(1) by (simp add: genuine_def)
  then show "\<forall>cmd \<in> set (executed \<sigma>). command_fits cfg cmd"
    using wf_wire.as_received_same(1) [OF wire] by (fastforce simp: sendable_def)
qed (rule assms(2))

text \<open>What arrives on a network on which only packets are is one of them, or is refused.\<close>

lemma arrived_response:
  assumes "genuine cfg crcpp sd target t0 r0 \<sigma> resps" and "delivers net (responses_sent \<sigma>) buf"
    and "decodeResponse cfg crcpp buf = Inr resp"
  shows "resp \<in> set resps"
proof -
  have sent: "responses_sent \<sigma> = map (response_packet cfg crcpp) resps"
    using assms(1) by (simp add: genuine_def)
  then have "\<forall>p \<in> set (responses_sent \<sigma>). \<exists>txn code body. p = packet cfg crcpp txn code body"
    by (auto simp: response_packet_def)
  with noticed assms(2,3) have "buf \<in> set (responses_sent \<sigma>)"
    unfolding damage_noticed_def by fastforce
  then obtain q where "q \<in> set resps" "buf = response_packet cfg crcpp q" by (auto simp: sent)
  with assms(3) genuine_responses_fit [OF assms(1)] show ?thesis
    by (simp add: wf_wire.decodeResponse_response_packet [OF wire])
qed

lemma arrived_command:
  assumes "genuine cfg crcpp sd target t0 r0 \<sigma> resps" and "delivers net (commands_sent \<sigma>) buf"
    and "decodeCommand cfg crcpp buf = Inr cmd'"
  obtains cmd where "cmd \<in> sendable cfg crcpp sd (drawn \<sigma>)" "buf = command_packet cfg crcpp cmd"
    "cmd' = as_received cfg crcpp cmd"
proof -
  have sent: "set (commands_sent \<sigma>) \<subseteq> command_packet cfg crcpp ` set (passed cfg sd (drawn \<sigma>))"
    using assms(1) by (simp add: genuine_def)
  then have "\<forall>p \<in> set (commands_sent \<sigma>). \<exists>txn code body. p = packet cfg crcpp txn code body"
    using command_packet_def by fast
  with noticed assms(2,3) have "buf \<in> set (commands_sent \<sigma>)"
    unfolding damage_noticed_def by fastforce
  with sent obtain cmd where cmd: "cmd \<in> set (passed cfg sd (drawn \<sigma>))" "buf = command_packet cfg crcpp cmd"
    by auto
  with assms(3) show ?thesis
    by (intro that [of cmd]) (simp_all add: sendable_def legible_def as_received_def)
qed

lemma genuine_reply:
  assumes "genuine cfg crcpp sd target t0 r0 \<sigma> resps" and "phase \<sigma> i = Sent cmd"
    and "delivers net (responses_sent \<sigma>) buf"
  shows "genuine cfg crcpp sd target t0 r0
    (\<sigma>\<lparr> phase := (phase \<sigma>)(i := Ready), outcomes := outcomes \<sigma> @
       [(i, cmd, bindR (decodeResponse cfg crcpp buf) (match_response cmd))] \<rparr>) resps"
proof (rule genuine_outcome [OF assms(1)])
  fix q assume "bindR (decodeResponse cfg crcpp buf) (match_response cmd) = Inr q"
  then have q: "decodeResponse cfg crcpp buf = Inr q" "resp_transaction_id q = cmd_transaction_id cmd"
    "AckResponseType cmd q"
    by (auto simp: bindR_eq_Inr_conv match_response_iff)
  with arrived_response [OF assms(1,3)]
  show "q \<in> set resps \<and> resp_transaction_id q = cmd_transaction_id cmd \<and> AckResponseType cmd q"
    by simp
qed (simp add: assms(2))

text \<open>The worker executes what it gets out of a packet, and sends the response.\<close>

lemma genuine_execute:
  assumes "genuine cfg crcpp sd target t0 r0 \<sigma> resps" and "cmd \<in> sendable cfg crcpp sd (drawn \<sigma>)"
    and "handleCmd target (as_received cfg crcpp cmd) (server_target \<sigma>) = (r, t')"
  shows "genuine cfg crcpp sd target t0 r0
    (\<sigma>\<lparr> responses_sent := responses_sent \<sigma> @
          [response_packet cfg crcpp (response_for (as_received cfg crcpp cmd) r)],
       server_target := t', executed := executed \<sigma> @ [as_received cfg crcpp cmd] \<rparr>)
    (resps @ [response_for (as_received cfg crcpp cmd) r])"
  using assms by (auto simp: genuine_def serve_all_append Let_def)

lemma arrived_work:
  assumes "genuine cfg crcpp sd target t0 r0 \<sigma> resps" and "delivers net (commands_sent \<sigma>) buf"
    and proc: "process_buffer cfg crcpp scripted_transport target buf (network_server sd \<sigma>) = (res, S)"
  shows "(\<exists>e. res = Inl e \<and> S = network_server sd \<sigma> \<and> got cfg crcpp buf = []) \<or>
    (\<exists>cmd r t'. res = Inr () \<and> cmd \<in> sendable cfg crcpp sd (drawn \<sigma>) \<and>
       got cfg crcpp buf = [as_received cfg crcpp cmd] \<and>
       handleCmd target (as_received cfg crcpp cmd) (server_target \<sigma>) = (r, t') \<and>
       set_server S \<sigma> = \<sigma>\<lparr> responses_sent := responses_sent \<sigma> @
         [response_packet cfg crcpp (response_for (as_received cfg crcpp cmd) r)], server_target := t' \<rparr>)"
proof (cases "decodeCommand cfg crcpp buf")
  case (Inl e)
  with proc show ?thesis by (intro disjI1 exI [of _ e]) (simp add: process_illegible got_def)
next
  case (Inr cmd')
  obtain cmd where cmd: "cmd \<in> sendable cfg crcpp sd (drawn \<sigma>)" "buf = command_packet cfg crcpp cmd"
    "cmd' = as_received cfg crcpp cmd" using arrived_command [OF assms(1,2) Inr] .
  obtain r t' where r: "handleCmd target (as_received cfg crcpp cmd) (server_target \<sigma>) = (r, t')" by fastforce
  from network_process [OF cmd(1) r] proc have "res = Inr ()"
    "S = (network_server sd \<sigma>)\<lparr> srv_target := t', srv_transport :=
       (responses_sent \<sigma> @ [response_packet cfg crcpp (response_for (as_received cfg crcpp cmd) r)], []) \<rparr>"
    by (simp_all add: cmd(2))
  with cmd r Inr show ?thesis
    by (intro disjI2 exI [of _ cmd] exI [of _ r] exI [of _ t']) (simp add: got_def set_server_def)
qed

lemma genuine_call:
  assumes inv: "genuine cfg crcpp sd target t0 r0 \<sigma> resps" and "call_step cfg crcpp sd net \<sigma> \<sigma>'"
  shows "genuine cfg crcpp sd target t0 r0 \<sigma>' resps"
  using assms(2)
proof cases
  case (refuse i cmd e)
  with genuine_outcome [OF inv, of cmd i "Inl e"] show ?thesis by simp
next
  case (no_reply i cmd e)
  with genuine_outcome [OF inv, of cmd i "Inl e"] show ?thesis by simp
qed (simp_all add: genuine_draw [OF inv] genuine_transmit [OF inv] genuine_reply [OF inv])

lemma genuine_server:
  assumes inv: "genuine cfg crcpp sd target t0 r0 \<sigma> resps" and "server_step cfg crcpp sd target net \<sigma> \<sigma>'"
  shows "\<exists>extra. genuine cfg crcpp sd target t0 r0 \<sigma>' (resps @ extra)"
proof -
  have same: "genuine cfg crcpp sd target t0 r0 (\<sigma>\<lparr> server_worker := how \<rparr>) (resps @ [])" for how
    using inv by (simp add: genuine_def)
  from assms(2) show ?thesis
  proof cases
    case (work buf S)
    from arrived_work [OF inv work(3,4)] obtain cmd r t' where
      "cmd \<in> sendable cfg crcpp sd (drawn \<sigma>)" "got cfg crcpp buf = [as_received cfg crcpp cmd]"
      "handleCmd target (as_received cfg crcpp cmd) (server_target \<sigma>) = (r, t')"
      "set_server S \<sigma> = \<sigma>\<lparr> responses_sent := responses_sent \<sigma> @
         [response_packet cfg crcpp (response_for (as_received cfg crcpp cmd) r)], server_target := t' \<rparr>"
      by blast
    with genuine_execute [OF inv this(1,3)] show ?thesis
      by (intro exI [of _ "[response_for (as_received cfg crcpp cmd) r]"]) (simp add: work(1))
  next
    case (work_fails buf e S)
    from arrived_work [OF inv work_fails(3,4)] have "S = network_server sd \<sigma>" "got cfg crcpp buf = []" by auto
    with same [of "Terminated e"] show ?thesis
      by (intro exI [of _ "[]"]) (simp add: work_fails(1) set_server_def network_server_def)
  qed (use same in blast)+
qed

lemma genuine_run:
  assumes "net_run cfg crcpp sd target net (net_initial t0 r0) \<sigma>"
  shows "\<exists>resps. genuine cfg crcpp sd target t0 r0 \<sigma> resps"
  using assms
proof induction
  case base
  show ?case by (rule exI, rule genuine_initial)
next
  case (step \<sigma> \<sigma>')
  then show ?case unfolding net_step_def using genuine_call genuine_server by blast
qed

end

section \<open>Whose acknowledge it is\<close>

text \<open>Up to 256 commands have different ids.\<close>

lemma drawn_ids_differ:
  assumes "\<forall>j < length cmds. cmd_transaction_id (cmds ! j) = t0 + word_of_nat j" and "length cmds \<le> 256"
    and "c \<in> set cmds" and "d \<in> set cmds" and "cmd_transaction_id c = cmd_transaction_id d"
  shows "c = d"
proof -
  obtain i j where ij: "i < length cmds" "j < length cmds" "c = cmds ! i" "d = cmds ! j"
    using assms(3,4) by (auto simp: in_set_conv_nth)
  then have "(word_of_nat i :: byte) = word_of_nat j" using assms(1,5) by simp
  from byte_of_nat_inject [OF this, of 0] ij assms(2) have "i = j" by simp
  with ij show ?thesis by simp
qed

lemma response_for_ack: "AckResponseType cmd (response_for cmd r) \<Longrightarrow> r = Inr (response_for cmd r)"
  by (cases r) (simp_all add: response_for_def)

context rap_network
begin

lemma acknowledge_source:
  assumes "genuine cfg crcpp sd target t0 r0 \<sigma> resps" and "(i, cmd, Inr r) \<in> set (outcomes \<sigma>)"
  shows "\<exists>k < length (executed \<sigma>). \<exists>cmd' \<in> sendable cfg crcpp sd (drawn \<sigma>).
    executed \<sigma> ! k = as_received cfg crcpp cmd' \<and> cmd_transaction_id cmd' = cmd_transaction_id cmd \<and>
    cmd \<in> set (drawn \<sigma>) \<and> AckResponseType cmd r \<and> cmd_transaction_id cmd = resp_transaction_id r \<and>
    r = response_for (executed \<sigma> ! k)
      (fst (handleCmd target (executed \<sigma> ! k) (snd (serve_all target (take k (executed \<sigma>)) r0))))"
proof -
  have served: "serve_all target (executed \<sigma>) r0 = (resps, server_target \<sigma>)"
    and r: "cmd \<in> set (drawn \<sigma>)" "r \<in> set resps" "resp_transaction_id r = cmd_transaction_id cmd"
      "AckResponseType cmd r"
    and known: "set (executed \<sigma>) \<subseteq> as_received cfg crcpp ` sendable cfg crcpp sd (drawn \<sigma>)"
    using assms unfolding genuine_def by blast+
  obtain k where k: "k < length (executed \<sigma>)" "r = resps ! k"
    using r(2) length_serve_all [OF served] by (auto simp: in_set_conv_nth)
  note source = serve_all_nth_state [OF served k(1), folded k(2)]
  have "executed \<sigma> ! k \<in> set (executed \<sigma>)" using k(1) by simp
  with known obtain cmd' where cmd': "cmd' \<in> sendable cfg crcpp sd (drawn \<sigma>)"
    "executed \<sigma> ! k = as_received cfg crcpp cmd'" by blast
  have "cmd_transaction_id (executed \<sigma> ! k) = cmd_transaction_id cmd"
    using source r(3) response_for_txn by (metis prod.collapse)
  moreover have "cmd_transaction_id (executed \<sigma> ! k) = cmd_transaction_id cmd'"
    using cmd' by (simp add: sendable_def wf_wire.as_received_same(3) [OF wire])
  ultimately show ?thesis
    using k(1) r source cmd' by (intro exI [of _ k] conjI bexI [of _ cmd']) simp_all
qed

lemma acknowledge_genuine:
  assumes inv: "genuine cfg crcpp sd target t0 r0 \<sigma> resps" and "(i, cmd, Inr r) \<in> set (outcomes \<sigma>)"
    and "length (drawn \<sigma>) \<le> 256"
  shows "legible cfg crcpp cmd \<and> (\<exists>k < length (executed \<sigma>). executed \<sigma> ! k = as_received cfg crcpp cmd \<and>
    fst (handleCmd target (executed \<sigma> ! k) (snd (serve_all target (take k (executed \<sigma>)) r0))) = Inr r)"
proof -
  obtain k cmd' where k: "k < length (executed \<sigma>)" "cmd' \<in> sendable cfg crcpp sd (drawn \<sigma>)"
    "executed \<sigma> ! k = as_received cfg crcpp cmd'" "cmd_transaction_id cmd' = cmd_transaction_id cmd"
    "cmd \<in> set (drawn \<sigma>)" and ack: "AckResponseType cmd r" "cmd_transaction_id cmd = resp_transaction_id r"
    and r: "r = response_for (executed \<sigma> ! k)
      (fst (handleCmd target (executed \<sigma> ! k) (snd (serve_all target (take k (executed \<sigma>)) r0))))"
    using acknowledge_source [OF inv assms(2)] by blast
  have "cmd' = cmd"
    using inv k by (intro drawn_ids_differ [OF _ assms(3), of t0]) (auto simp: genuine_def sendable_def)
  then have legible: "legible cfg crcpp cmd" and exec: "executed \<sigma> ! k = as_received cfg crcpp cmd"
    using k by (simp_all add: sendable_def)
  have "match_response cmd r = Inr r" using ack by (simp add: match_response_iff)
  then have "AckResponseType (executed \<sigma> ! k) r"
    by (simp add: exec match_response_iff flip: wf_wire.as_received_same(4) [OF wire legible])
  then show ?thesis
    using r response_for_ack [of "executed \<sigma> ! k"] k(1) legible exec by metis
qed

end

section \<open>Calls at the same time\<close>

text \<open>What the worker makes of the packet of a command.\<close>

definition execute ::
  "('a::len, 'd::len, 'l::len, 'c::len) cfg \<Rightarrow> 'c crc_function \<Rightarrow> ('t, 'a word, 'd word) register_target \<Rightarrow>
     ('a word, 'd word, 'l word) Command \<Rightarrow> ('a word, 'd word, 'l word, 't) network_state \<Rightarrow>
     ('a word, 'd word, 'l word, 't) network_state" where
  "execute cfg crcpp target cmd \<sigma> =
     (let (r, t') = handleCmd target cmd (server_target \<sigma>)
      in \<sigma>\<lparr> responses_sent := responses_sent \<sigma> @ [response_packet cfg crcpp (response_for cmd r)],
            server_target := t', executed := executed \<sigma> @ [cmd] \<rparr>)"

lemma execute_simps [simp]:
  "phase (execute cfg crcpp target cmd \<sigma>) = phase \<sigma>"
  "counter (execute cfg crcpp target cmd \<sigma>) = counter \<sigma>"
  "commands_sent (execute cfg crcpp target cmd \<sigma>) = commands_sent \<sigma>"
  "drawn (execute cfg crcpp target cmd \<sigma>) = drawn \<sigma>"
  "server_worker (execute cfg crcpp target cmd \<sigma>) = server_worker \<sigma>"
  "outcomes (execute cfg crcpp target cmd \<sigma>) = outcomes \<sigma>"
  "executed (execute cfg crcpp target cmd \<sigma>) = executed \<sigma> @ [cmd]"
  "responses_sent (execute cfg crcpp target cmd \<sigma>) = responses_sent \<sigma> @
     [response_packet cfg crcpp (response_for cmd (fst (handleCmd target cmd (server_target \<sigma>))))]"
  by (simp_all add: execute_def Let_def split: prod.split)

definition end_call ::
  "nat \<Rightarrow> ('a, 'd, 'l) Command \<Rightarrow> 'd Response result \<Rightarrow> ('a, 'd, 'l, 't) network_state \<Rightarrow>
   ('a, 'd, 'l, 't) network_state" where
  "end_call i cmd r \<sigma> = \<sigma>\<lparr> phase := (phase \<sigma>)(i := Ready), outcomes := outcomes \<sigma> @ [(i, cmd, r)] \<rparr>"

lemma end_call_simps [simp]:
  "phase (end_call i cmd r \<sigma>) = (phase \<sigma>)(i := Ready)"
  "counter (end_call i cmd r \<sigma>) = counter \<sigma>"
  "commands_sent (end_call i cmd r \<sigma>) = commands_sent \<sigma>"
  "responses_sent (end_call i cmd r \<sigma>) = responses_sent \<sigma>"
  "server_worker (end_call i cmd r \<sigma>) = server_worker \<sigma>"
  "server_target (end_call i cmd r \<sigma>) = server_target \<sigma>"
  "drawn (end_call i cmd r \<sigma>) = drawn \<sigma>"
  "executed (end_call i cmd r \<sigma>) = executed \<sigma>"
  "outcomes (end_call i cmd r \<sigma>) = outcomes \<sigma> @ [(i, cmd, r)]"
  by (simp_all add: end_call_def)

context rap_stack
begin

lemma can_execute:
  assumes "server_worker \<sigma> = Running" and "delivers net (commands_sent \<sigma>) (command_packet cfg crcpp cmd)"
    and "legible cfg crcpp cmd" and "command_limit cfg sd cmd"
  shows "net_step cfg crcpp sd target net \<sigma> (execute cfg crcpp target (as_received cfg crcpp cmd) \<sigma>)"
proof -
  obtain r t' where r: "handleCmd target (as_received cfg crcpp cmd) (server_target \<sigma>) = (r, t')" by fastforce
  have "cmd \<in> sendable cfg crcpp sd [cmd]" using assms(3,4) by (simp add: sendable_def)
  from server_moves [OF work [OF assms(1,2) network_process [OF this r]]] show ?thesis
    by (simp add: execute_def r set_server_def got_def
        wf_wire.decode_legible [OF wire assms(3)])
qed

lemma can_reply:
  assumes "phase \<sigma> i = Sent cmd" and "delivers net (responses_sent \<sigma>) (response_packet cfg crcpp resp)"
    and "response_fits cfg resp"
  shows "net_step cfg crcpp sd target net \<sigma> (end_call i cmd (match_response cmd resp) \<sigma>)"
  using calls_move [OF reply [OF assms(1,2)], of cfg crcpp sd target]
  by (simp add: end_call_def wf_wire.decodeResponse_response_packet [OF wire assms(3)])

text \<open>
  Two threads in the middle of a call, each of which receives the response of the other. Nothing
  else goes wrong: the network only delivers what was sent, and no receive fails.
\<close>

lemma crossed_replies:
  assumes inv: "genuine cfg crcpp sd target t0 r0 \<sigma> resps" and run: "server_worker \<sigma> = Running"
    and sent: "phase \<sigma> i = Sent c" "phase \<sigma> j = Sent d" and "i \<noteq> j"
    and ids: "cmd_transaction_id c \<noteq> cmd_transaction_id d"
    and fit: "command_fits cfg c" "command_fits cfg d"
  shows "\<exists>\<sigma>'. net_run cfg crcpp sd target faithful_network \<sigma> \<sigma>' \<and> executed \<sigma>' = executed \<sigma> @ [c, d] \<and>
    outcomes \<sigma>' = outcomes \<sigma> @ [(j, d, Inl RapProtocolException), (i, c, Inl RapProtocolException)]"
proof -
  have known: "command_limit cfg sd x \<and> command_packet cfg crcpp x \<in> set (commands_sent \<sigma>)"
    if "phase \<sigma> k = Sent x" for k x
    using inv that unfolding genuine_def by metis
  note whole = wf_wire.as_received_fits [OF wire fit(1)] wf_wire.as_received_fits [OF wire fit(2)]
  let ?step = "net_step cfg crcpp sd target faithful_network"
  let ?s1 = "execute cfg crcpp target c \<sigma>"
  let ?s2 = "execute cfg crcpp target d ?s1"
  let ?rc = "response_for c (fst (handleCmd target c (server_target \<sigma>)))"
  let ?rd = "response_for d (fst (handleCmd target d (server_target ?s1)))"
  let ?s3 = "end_call j d (match_response d ?rc) ?s2"
  let ?s4 = "end_call i c (match_response c ?rd) ?s3"
  have fits: "response_fits cfg ?rc" "response_fits cfg ?rd"
    using fit response_for_fits prod.collapse by metis+
  have own: "resp_transaction_id ?rc = cmd_transaction_id c" "resp_transaction_id ?rd = cmd_transaction_id d"
    using response_for_txn prod.collapse by metis+
  have "?step \<sigma> ?s1"
    using known [OF sent(1)] run can_execute [of \<sigma> faithful_network c] by (simp add: whole)
  moreover have "?step ?s1 ?s2"
    using known [OF sent(2)] run can_execute [of ?s1 faithful_network d] by (simp add: whole)
  moreover have "?step ?s2 ?s3"
    by (rule can_reply) (simp_all add: sent fits)
  moreover have "?step ?s3 ?s4"
    by (rule can_reply) (simp_all add: sent fits \<open>i \<noteq> j\<close>)
  ultimately have "net_run cfg crcpp sd target faithful_network \<sigma> ?s4"
    by (meson converse_rtranclp_into_rtranclp r_into_rtranclp)
  then show ?thesis
    using ids own by (intro exI [of _ ?s4]) (simp add: match_response_def)
qed

end

section \<open>The example\<close>

text \<open>A thread that writes, and gets its acknowledge.\<close>

abbreviation (input) example_write :: "byte \<Rightarrow> 32 word \<Rightarrow> (32 word, 32 word, 16 word) Command" where
  "example_write t d \<equiv> WriteSingleCommand t False 8 d"

abbreviation (input) example_net_run where
  "example_net_run \<equiv> net_run ExampleRapCfg bit_serial_crc sd512 register_file faithful_network"

abbreviation (input) example_ack :: "byte \<Rightarrow> Buffer" where
  "example_ack t \<equiv> response_packet ExampleRapCfg bit_serial_crc (WriteSingleAckResponse t :: 32 word Response)"

definition write_sent ::
  "nat \<Rightarrow> 32 word \<Rightarrow> (32 word, 32 word, 16 word, 't) network_state \<Rightarrow>
   (32 word, 32 word, 16 word, 't) network_state" where
  "write_sent i d \<sigma> = \<sigma>\<lparr> phase := (phase \<sigma>)(i := Sent (example_write (counter \<sigma>) d)),
     counter := counter \<sigma> + 1, drawn := drawn \<sigma> @ [example_write (counter \<sigma>) d],
     commands_sent := commands_sent \<sigma> @
       [command_packet ExampleRapCfg bit_serial_crc (example_write (counter \<sigma>) d)] \<rparr>"

lemma example_write_fits [simp]: "command_fits ExampleRapCfg (example_write t d)"
  by (simp add: fits_bytes_full) (simp add: fits_bytes_def)

lemma write_sent_run:
  assumes "phase \<sigma> i = Ready"
  shows "example_net_run \<sigma> (write_sent i d \<sigma>)"
proof -
  let ?c = "example_write (counter \<sigma>) d"
  let ?s = "\<sigma>\<lparr> phase := (phase \<sigma>)(i := Numbered ?c), counter := counter \<sigma> + 1, drawn := drawn \<sigma> @ [?c] \<rparr>"
  let ?s' = "?s\<lparr> phase := (phase ?s)(i := Sent ?c),
    commands_sent := commands_sent ?s @ [command_packet ExampleRapCfg bit_serial_crc ?c] \<rparr>"
  have "net_step ExampleRapCfg bit_serial_crc sd512 register_file faithful_network \<sigma> ?s"
    by (rule calls_move, rule draw [OF assms]) simp
  moreover have "encodeCommand ExampleRapCfg bit_serial_crc sd512 ?c
      = Inr (command_packet ExampleRapCfg bit_serial_crc ?c)"
    by (subst example_wire.encodeCommand_eq) simp_all
  then have "net_step ExampleRapCfg bit_serial_crc sd512 register_file faithful_network ?s ?s'"
    by (intro calls_move transmit) simp_all
  ultimately have run: "example_net_run \<sigma> ?s'" by (rule converse_rtranclp_into_rtranclp [OF _ r_into_rtranclp])
  have "?s' = write_sent i d \<sigma>" by (simp add: write_sent_def)
  then show ?thesis by (rule back_subst [of "example_net_run \<sigma>", OF run])
qed

lemma write_sent_simps [simp]:
  "phase (write_sent i d \<sigma>) = (phase \<sigma>)(i := Sent (example_write (counter \<sigma>) d))"
  "counter (write_sent i d \<sigma>) = counter \<sigma> + 1"
  "drawn (write_sent i d \<sigma>) = drawn \<sigma> @ [example_write (counter \<sigma>) d]"
  "command_packet ExampleRapCfg bit_serial_crc (example_write (counter \<sigma>) d)
     \<in> set (commands_sent (write_sent i d \<sigma>))"
  "responses_sent (write_sent i d \<sigma>) = responses_sent \<sigma>"
  "server_worker (write_sent i d \<sigma>) = server_worker \<sigma>"
  "server_target (write_sent i d \<sigma>) = server_target \<sigma>"
  "executed (write_sent i d \<sigma>) = executed \<sigma>"
  "outcomes (write_sent i d \<sigma>) = outcomes \<sigma>"
  by (simp_all add: write_sent_def)

lemma write_acknowledged: "fst (handleCmd register_file (example_write t d) f) = Inr (WriteSingleAckResponse t)"
  by (simp add: register_file_def file_write_def bindA_def)

text \<open>A thread whose write is acknowledged, by the response to it or by another with its id.\<close>

lemma write_reply:
  assumes "phase \<sigma> i = Sent (example_write t d)" and "example_ack t \<in> set (responses_sent \<sigma>)"
  shows "example_net_run \<sigma> (end_call i (example_write t d) (Inr (WriteSingleAckResponse t)) \<sigma>)"
  using example_rap.can_reply [of \<sigma> i "example_write t d" faithful_network "WriteSingleAckResponse t"] assms
  by (auto simp: match_response_def)

lemma write_done:
  assumes "server_worker \<sigma> = Running" and "phase \<sigma> 0 = Ready"
  shows "\<exists>\<sigma>'. example_net_run \<sigma> \<sigma>' \<and> server_worker \<sigma>' = Running \<and> phase \<sigma>' 0 = Ready \<and>
    counter \<sigma>' = counter \<sigma> + 1 \<and> drawn \<sigma>' = drawn \<sigma> @ [example_write (counter \<sigma>) d] \<and>
    executed \<sigma>' = executed \<sigma> @ [example_write (counter \<sigma>) d] \<and>
    responses_sent \<sigma>' = responses_sent \<sigma> @ [example_ack (counter \<sigma>)] \<and>
    outcomes \<sigma>' = outcomes \<sigma> @
      [(0, example_write (counter \<sigma>) d, Inr (WriteSingleAckResponse (counter \<sigma>)))]"
proof -
  let ?c = "example_write (counter \<sigma>) d"
  let ?s = "execute ExampleRapCfg bit_serial_crc register_file ?c (write_sent 0 d \<sigma>)"
  have "net_step ExampleRapCfg bit_serial_crc sd512 register_file faithful_network (write_sent 0 d \<sigma>) ?s"
    using assms(1) example_rap.can_execute [of "write_sent 0 d \<sigma>" faithful_network ?c]
    by (simp add: example_wire.as_received_fits [OF example_write_fits] del: command_fits.simps)
  moreover have "responses_sent ?s = responses_sent \<sigma> @ [example_ack (counter \<sigma>)]"
    by (simp add: write_acknowledged response_for_def del: handleCmd.simps)
  moreover from this have "example_net_run ?s (end_call 0 ?c (Inr (WriteSingleAckResponse (counter \<sigma>))) ?s)"
    by (intro write_reply) simp_all
  moreover note write_sent_run [OF assms(2), of d]
  ultimately show ?thesis
    using assms(1) by (intro exI [of _ "end_call 0 ?c (Inr (WriteSingleAckResponse (counter \<sigma>))) ?s"]) auto
qed

lemma many_writes:
  "\<exists>\<sigma>. example_net_run (net_initial 0 f) \<sigma> \<and> server_worker \<sigma> = Running \<and> phase \<sigma> 0 = Ready \<and>
    counter \<sigma> = word_of_nat n \<and> length (drawn \<sigma>) = n \<and> (\<forall>cmd \<in> set (executed \<sigma>). cmd_data cmd = 1) \<and>
    (0 < n \<longrightarrow> example_ack 0 \<in> set (responses_sent \<sigma>))"
proof (induction n)
  case 0
  show ?case by (intro exI [of _ "net_initial 0 f"]) (simp add: net_initial_def)
next
  case (Suc n)
  then obtain \<sigma> where \<sigma>: "example_net_run (net_initial 0 f) \<sigma>" "server_worker \<sigma> = Running" "phase \<sigma> 0 = Ready"
    "counter \<sigma> = word_of_nat n" "length (drawn \<sigma>) = n" "\<forall>cmd \<in> set (executed \<sigma>). cmd_data cmd = 1"
    "0 < n \<longrightarrow> example_ack 0 \<in> set (responses_sent \<sigma>)" by blast
  from write_done [OF \<sigma>(2,3), of 1] obtain \<sigma>' where \<sigma>': "example_net_run \<sigma> \<sigma>'" "server_worker \<sigma>' = Running"
    "phase \<sigma>' 0 = Ready" "counter \<sigma>' = counter \<sigma> + 1" "drawn \<sigma>' = drawn \<sigma> @ [example_write (counter \<sigma>) 1]"
    "executed \<sigma>' = executed \<sigma> @ [example_write (counter \<sigma>) 1]"
    "responses_sent \<sigma>' = responses_sent \<sigma> @ [example_ack (counter \<sigma>)]" by blast
  have "example_ack 0 \<in> set (responses_sent \<sigma>')"
    using \<sigma>(4,7) \<sigma>'(7) by (cases n) simp_all
  with \<sigma> \<sigma>' show ?case
    by (intro exI [of _ \<sigma>']) (auto simp: ac_simps)
qed

interpretation damaged: rap_network ExampleRapCfg bit_serial_crc sd512 register_file byte_damage_network
  by unfold_locales (simp add: byte_damage_noticed bit_serial_crc_detects)

lemma rap_networkI:
  "stack_ok cfg crcpp sd target \<Longrightarrow> damage_noticed cfg crcpp net \<Longrightarrow> rap_network cfg crcpp sd target net"
  by (simp add: rap_network_def rap_stack_def rap_network_axioms_def)

lemma rap_stackI: "stack_ok cfg crcpp sd target \<Longrightarrow> rap_stack cfg crcpp sd target"
  by (rule rap_stack.intro)

section \<open>Properties\<close>

text \<open>
  C3. Whose result an acknowledge is, over a network that loses, repeats, delays and reorders packets
  and damages them in ways the decoders notice (\<open>damage_noticed\<close>; a change of one byte is one),
  and however many threads call at the same time: as long as 256 calls at most have been made, an
  acknowledge that a call returns is the result of what the packet of its own command decodes to,
  on the target in the state in which the worker executed it. A command whose fields fit the wire
  is decoded as itself.
\<close>

theorem acknowledge_is_own_result:
  fixes \<sigma> :: "('a::len word, 'd::len word, 'l::len word, 't) network_state"
    and cfg :: "('a, 'd, 'l, 'c::len) cfg"
  assumes "stack_ok cfg crcpp sd target" and "damage_noticed cfg crcpp net"
    and "net_run cfg crcpp sd target net (net_initial t0 r0) \<sigma>"
    and "length (drawn \<sigma>) \<le> 256" and "(i, cmd, Inr r) \<in> set (outcomes \<sigma>)"
  shows "\<exists>k < length (executed \<sigma>).
    decodeCommand cfg crcpp (command_packet cfg crcpp cmd) = Inr (executed \<sigma> ! k) \<and>
    (command_fits cfg cmd \<longrightarrow> executed \<sigma> ! k = cmd) \<and>
    fst (handleCmd target (executed \<sigma> ! k) (snd (serve_all target (take k (executed \<sigma>)) r0))) = Inr r"
proof -
  note net = rap_networkI [OF assms(1,2)]
  note wire = rap_stack.wire [OF rap_stackI [OF assms(1)]]
  obtain resps where "genuine cfg crcpp sd target t0 r0 \<sigma> resps"
    using rap_network.genuine_run [OF net assms(3)] by blast
  from rap_network.acknowledge_genuine [OF net this assms(5,4)] show ?thesis
    using wf_wire.decode_legible [OF wire] wf_wire.as_received_fits(2) [OF wire] by metis
qed

theorem acknowledge_is_own_result_witness:
  "\<exists>\<sigma>. example_net_run (net_initial 5 (\<lambda>a. 0)) \<sigma> \<and>
    (0, example_write 5 1, Inr (WriteSingleAckResponse 5)) \<in> set (outcomes \<sigma>) \<and>
    (\<exists>k < length (executed \<sigma>). executed \<sigma> ! k = example_write 5 1 \<and>
      fst (handleCmd register_file (example_write 5 1)
        (snd (serve_all register_file (take k (executed \<sigma>)) (\<lambda>a. 0)))) =
      Inr (WriteSingleAckResponse 5))"
proof -
  let ?init = "net_initial 5 (\<lambda>a. 0) :: (32 word, 32 word, 16 word, 32 word \<Rightarrow> 32 word) network_state"
  have init: "server_worker ?init = Running" "phase ?init 0 = Ready" "counter ?init = 5"
    "drawn ?init = []" "outcomes ?init = []"
    by (simp_all add: net_initial_def)
  from write_done [OF init(1,2), of 1, unfolded init] obtain \<sigma> where
    \<sigma>: "example_net_run ?init \<sigma>" "length (drawn \<sigma>) \<le> 256"
      "(0, example_write 5 1, Inr (WriteSingleAckResponse 5)) \<in> set (outcomes \<sigma>)"
    by fastforce
  from acknowledge_is_own_result [OF example_stack_ok faithful_noticed \<sigma>] \<sigma> show ?thesis
    using example_write_fits [of 5 1] by metis
qed



text \<open>
  C18. Two threads that have both sent their command may each receive the reply to the other, and
  the check of the id refuses both: over a network that only delivers what was sent and never fails,
  from every reachable state with two such commands, whose fields fit the wire and whose ids differ,
  there is a run in which both commands are executed, each thread receives a response the server has
  sent, and both calls end in \<open>RapProtocolException\<close>.
\<close>

theorem concurrent_calls_fail:
  fixes \<sigma> :: "('a::len word, 'd::len word, 'l::len word, 't) network_state"
    and cfg :: "('a, 'd, 'l, 'c::len) cfg"
  assumes "stack_ok cfg crcpp sd target"
    and "net_run cfg crcpp sd target faithful_network (net_initial t0 r0) \<sigma>"
    and "server_worker \<sigma> = Running" and "phase \<sigma> i = Sent c" and "phase \<sigma> j = Sent d" and "i \<noteq> j"
    and "cmd_transaction_id c \<noteq> cmd_transaction_id d" and "command_fits cfg c" and "command_fits cfg d"
  shows "\<exists>\<sigma>'. net_run cfg crcpp sd target faithful_network \<sigma> \<sigma>' \<and> executed \<sigma>' = executed \<sigma> @ [c, d] \<and>
    outcomes \<sigma>' = outcomes \<sigma> @ [(j, d, Inl RapProtocolException), (i, c, Inl RapProtocolException)]"
proof -
  obtain resps where "genuine cfg crcpp sd target t0 r0 \<sigma> resps"
    using rap_network.genuine_run [OF rap_networkI [OF assms(1) faithful_noticed] assms(2)] by blast
  from rap_stack.crossed_replies [OF rap_stackI [OF assms(1)] this assms(3-9)] show ?thesis .
qed

theorem concurrent_calls_fail_witness:
  "\<exists>\<sigma>. example_net_run (net_initial 0 (\<lambda>a. 0)) \<sigma> \<and> executed \<sigma> = [example_write 0 1, example_write 1 2] \<and>
    outcomes \<sigma> = [(1, example_write 1 2, Inl RapProtocolException),
      (0, example_write 0 1, Inl RapProtocolException)]"
proof -
  let ?init = "net_initial 0 (\<lambda>a. 0) :: (32 word, 32 word, 16 word, 32 word \<Rightarrow> 32 word) network_state"
  let ?s1 = "write_sent 0 1 ?init"
  let ?s2 = "write_sent 1 2 ?s1"
  have "example_net_run ?init ?s1" "example_net_run ?s1 ?s2"
    by (rule write_sent_run, simp add: net_initial_def)+
  then have run: "example_net_run ?init ?s2" by (rule rtranclp_trans)
  have "server_worker ?s2 = Running" "phase ?s2 0 = Sent (example_write 0 1)"
    "phase ?s2 1 = Sent (example_write 1 2)" "executed ?s2 = []" "outcomes ?s2 = []"
    by (simp_all add: net_initial_def)
  with concurrent_calls_fail [OF example_stack_ok run, of 0 "example_write 0 1" 1 "example_write 1 2"]
    example_write_fits [of 0 1] example_write_fits [of 1 2]
  obtain \<sigma> where "example_net_run ?s2 \<sigma>" "executed \<sigma> = [example_write 0 1, example_write 1 2]"
    "outcomes \<sigma> = [(1, example_write 1 2, Inl RapProtocolException),
      (0, example_write 0 1, Inl RapProtocolException)]"
    by (auto simp del: command_fits.simps)
  with run show ?thesis by (meson rtranclp_trans)
qed

text \<open>
  C19. The id of a command has eight bits, so 256 calls is the most that can be told apart: there
  is a run in which the 257th call, a write, returns an acknowledge although its command was
  never executed. The acknowledge is that of the first call, which the network repeats.
\<close>

theorem stale_acknowledge_accepted:
  "\<exists>\<sigma> cmd r. example_net_run (net_initial 0 (\<lambda>a. 0)) \<sigma> \<and> length (drawn \<sigma>) = 257 \<and>
    (0, cmd, Inr r) \<in> set (outcomes \<sigma>) \<and> cmd \<notin> set (executed \<sigma>)"
proof -
  obtain \<sigma> :: "(32 word, 32 word, 16 word, 32 word \<Rightarrow> 32 word) network_state"
    where \<sigma>: "example_net_run (net_initial 0 (\<lambda>a. 0)) \<sigma>" "phase \<sigma> 0 = Ready" "counter \<sigma> = word_of_nat 256"
      "length (drawn \<sigma>) = 256" "\<forall>cmd \<in> set (executed \<sigma>). cmd_data cmd = 1"
      "example_ack 0 \<in> set (responses_sent \<sigma>)"
    using many_writes [of "\<lambda>a. 0" 256] by auto
  then have wrapped: "counter \<sigma> = 0" by (simp add: word_of_nat_eq_0_iff)
  let ?sent = "write_sent 0 2 \<sigma>"
  let ?fin = "end_call 0 (example_write 0 2) (Inr (WriteSingleAckResponse 0)) ?sent"
  have "example_net_run ?sent ?fin"
    using \<sigma>(6) wrapped by (intro write_reply) simp_all
  with \<sigma>(1) write_sent_run [OF \<sigma>(2)] have "example_net_run (net_initial 0 (\<lambda>a. 0)) ?fin"
    by (meson rtranclp_trans)
  moreover have "example_write 0 2 \<notin> set (executed \<sigma>)" using \<sigma>(5) by fastforce
  ultimately show ?thesis
    using \<sigma>(4) by (intro exI [of _ ?fin] exI [of _ "example_write 0 2"] exI) auto
qed

end
