(* ===== verification/Network_Refinement.thy ===== *)
theory Network_Refinement
  imports Network_System Rap_Runs
begin

text \<open>
  The two queues of the paired transport are a network: every run of client and server over them
  is a run of one thread and the server over a network that delivers only what was sent and whose
  one exception is the timeout (\<open>paired_network\<close>). What holds of every network therefore holds of
  the paired system, timeouts and refused calls of the client and illegible commands included.
\<close>

section \<open>The simulation\<close>

fun phase_of :: "('a, 'd, 'l) client_thread \<Rightarrow> ('a, 'd, 'l) call_phase" where
  "phase_of Idle = Ready"
| "phase_of (Waiting cmd) = Sent cmd"

fun status_of :: "worker_thread \<Rightarrow> worker" where
  "status_of (Ended how) = how"
| "status_of _ = Running"

definition outcomes_of ::
  "('a, 'd, 'l) Command list \<Rightarrow> 'd Response result list \<Rightarrow>
   (nat \<times> ('a, 'd, 'l) Command \<times> 'd Response result) list" where
  "outcomes_of cmds rs = map2 (\<lambda>cmd r. (0, cmd, r)) cmds rs"

lemma outcomes_of_snoc:
  "length old = length rs \<Longrightarrow> outcomes_of (old @ [cmd]) (rs @ [r]) = outcomes_of (old @ [cmd]) rs @ [(0, cmd, r)]"
  "length old = length rs \<Longrightarrow> outcomes_of (old @ [cmd]) rs = outcomes_of old rs"
  by (simp_all add: outcomes_of_def zip_append1)

lemma in_outcomes_of:
  "i < length cmds \<Longrightarrow> i < length rs \<Longrightarrow> (0, cmds ! i, rs ! i) \<in> set (outcomes_of cmds rs)"
  by (force simp: outcomes_of_def set_zip)

text \<open>What the two queues are to the threads at their ends.\<close>

definition paired_network :: network where
  "paired_network =
     \<lparr> delivers = (\<lambda>sent buf. buf \<in> set sent), throws = (\<lambda>e. e = TransportTimeoutException) \<rparr>"

lemma paired_simps [simp]:
  "delivers paired_network sent buf \<longleftrightarrow> buf \<in> set sent"
  "throws paired_network e \<longleftrightarrow> e = TransportTimeoutException"
  by (simp_all add: paired_network_def)

lemma paired_noticed [simp]: "damage_noticed cfg crcpp paired_network"
  by (simp add: damage_noticed_def)

text \<open>
  \<open>\<tau>\<close> is the network with one client thread, number 0; whatever is in a queue or in the hands of
  the worker was sent. The rest is equal, part by part.
\<close>

definition mirrors where
  "mirrors cfg crcpp sd \<sigma> resps \<tau> \<longleftrightarrow>
     phase \<tau> 0 = phase_of (client_thread \<sigma>) \<and> counter \<tau> = txn \<sigma> \<and>
     command_packet cfg crcpp ` set (passed cfg sd (issued \<sigma>)) \<subseteq> set (commands_sent \<tau>) \<and>
     responses_sent \<tau> = map (response_packet cfg crcpp) resps \<and>
     server_worker \<tau> = status_of (worker_thread \<sigma>) \<and> server_target \<tau> = regs \<sigma> \<and>
     drawn \<tau> = issued \<sigma> \<and>
     executed \<tau> = map (as_received cfg crcpp) (take (length resps) (passed cfg sd (issued \<sigma>))) \<and>
     outcomes \<tau> = outcomes_of (issued \<sigma>) (results \<sigma>)"

lemma mirrors_initial:
  "mirrors cfg crcpp sd (initial w t0 r0) [] (net_initial t0 r0)"
  by (simp add: mirrors_def initial_def net_initial_def outcomes_of_def)

context rap_system
begin

abbreviation paired_run where
  "paired_run \<equiv> net_run cfg crcpp sd target paired_network"

lemma mirrors_draw:
  assumes sim: "mirrors cfg crcpp sd \<sigma> resps \<tau>" and idle: "client_thread \<sigma> = Idle"
    and id: "cmd_transaction_id cmd = txn \<sigma>"
  shows "net_step cfg crcpp sd target paired_network \<tau>
    (\<tau>\<lparr> phase := (phase \<tau>)(0 := Numbered cmd), counter := counter \<tau> + 1, drawn := drawn \<tau> @ [cmd] \<rparr>)"
  using sim idle id by (intro calls_move draw) (simp_all add: mirrors_def)

lemma mirrors_issue:
  assumes inv: "consistent cfg crcpp sd target c s t0 r0 \<sigma> resps" and sim: "mirrors cfg crcpp sd \<sigma> resps \<tau>"
    and idle: "client_thread \<sigma> = Idle" and id: "cmd_transaction_id cmd = txn \<sigma>"
    and enc: "encodeCommand cfg crcpp sd cmd = Inr buf"
  shows "\<exists>\<tau>'. paired_run \<tau> \<tau>' \<and> mirrors cfg crcpp sd
    (\<sigma>\<lparr> client_thread := Waiting cmd, txn := txn \<sigma> + 1, world := send c buf (world \<sigma>),
       issued := issued \<sigma> @ [cmd] \<rparr>) resps \<tau>'"
proof -
  let ?m = "\<tau>\<lparr> phase := (phase \<tau>)(0 := Numbered cmd), counter := counter \<tau> + 1, drawn := drawn \<tau> @ [cmd] \<rparr>"
  let ?t = "?m\<lparr> phase := (phase ?m)(0 := Sent cmd), commands_sent := commands_sent ?m @ [buf] \<rparr>"
  have "net_step cfg crcpp sd target paired_network ?m ?t"
    by (rule calls_move [OF transmit [OF _ enc]]) simp
  with mirrors_draw [OF sim idle id] have run: "paired_run \<tau> ?t"
    by (rule converse_rtranclp_into_rtranclp [OF _ r_into_rtranclp])
  have "buf = command_packet cfg crcpp cmd"
    using enc by (simp add: wf_wire.encodeCommand_eq [OF wire sd_ok] split: if_splits)
  moreover have "length (issued \<sigma>) = length (results \<sigma>)" "length resps \<le> length (passed cfg sd (issued \<sigma>))"
    using inv idle by (auto simp: consistent_def executed_prefix_def)
  ultimately have "mirrors cfg crcpp sd
    (\<sigma>\<lparr> client_thread := Waiting cmd, txn := txn \<sigma> + 1, world := send c buf (world \<sigma>),
       issued := issued \<sigma> @ [cmd] \<rparr>) resps ?t"
    using sim by (auto simp: mirrors_def outcomes_of_snoc)
  with run show ?thesis by blast
qed

lemma mirrors_refuse:
  assumes inv: "consistent cfg crcpp sd target c s t0 r0 \<sigma> resps" and sim: "mirrors cfg crcpp sd \<sigma> resps \<tau>"
    and idle: "client_thread \<sigma> = Idle" and id: "cmd_transaction_id cmd = txn \<sigma>"
    and enc: "encodeCommand cfg crcpp sd cmd = Inl e"
  shows "\<exists>\<tau>'. paired_run \<tau> \<tau>' \<and> mirrors cfg crcpp sd
    (\<sigma>\<lparr> txn := txn \<sigma> + 1, issued := issued \<sigma> @ [cmd], results := results \<sigma> @ [Inl e] \<rparr>) resps \<tau>'"
proof -
  let ?m = "\<tau>\<lparr> phase := (phase \<tau>)(0 := Numbered cmd), counter := counter \<tau> + 1, drawn := drawn \<tau> @ [cmd] \<rparr>"
  let ?t = "?m\<lparr> phase := (phase ?m)(0 := Ready), outcomes := outcomes ?m @ [(0, cmd, Inl e)] \<rparr>"
  have "net_step cfg crcpp sd target paired_network ?m ?t"
    by (rule calls_move [OF call_step.refuse [OF _ enc]]) simp
  with mirrors_draw [OF sim idle id] have run: "paired_run \<tau> ?t"
    by (rule converse_rtranclp_into_rtranclp [OF _ r_into_rtranclp])
  have limit: "\<not> command_limit cfg sd cmd"
    using enc by (simp add: wf_wire.encodeCommand_eq [OF wire sd_ok] split: if_splits)
  have "length (issued \<sigma>) = length (results \<sigma>)" using inv idle by (auto simp: consistent_def)
  with sim idle limit have "mirrors cfg crcpp sd
    (\<sigma>\<lparr> txn := txn \<sigma> + 1, issued := issued \<sigma> @ [cmd], results := results \<sigma> @ [Inl e] \<rparr>) resps ?t"
    by (simp add: mirrors_def outcomes_of_snoc)
  with run show ?thesis by blast
qed

text \<open>A call that ends, with any result.\<close>

lemma mirrors_outcome:
  assumes inv: "consistent cfg crcpp sd target c s t0 r0 \<sigma> resps" and sim: "mirrors cfg crcpp sd \<sigma> resps \<tau>"
    and wait: "client_thread \<sigma> = Waiting cmd"
  shows "mirrors cfg crcpp sd (\<sigma>\<lparr> client_thread := Idle, world := w, results := results \<sigma> @ [r] \<rparr>) resps
    (\<tau>\<lparr> phase := (phase \<tau>)(0 := Ready), outcomes := outcomes \<tau> @ [(0, cmd, r)] \<rparr>)"
  by (rule waiting_issued [OF inv wait]) (use sim in \<open>simp add: mirrors_def outcomes_of_snoc\<close>)

lemma mirrors_receive:
  assumes inv: "consistent cfg crcpp sd target c s t0 r0 \<sigma> resps" and sim: "mirrors cfg crcpp sd \<sigma> resps \<tau>"
    and wait: "client_thread \<sigma> = Waiting cmd" and quiet: "first_push events = None"
    and recv: "recv c events (world \<sigma>) = Some (Inr buf, w)"
  shows "\<exists>\<tau>'. paired_run \<tau> \<tau>' \<and> mirrors cfg crcpp sd
    (\<sigma>\<lparr> client_thread := Idle, world := w,
       results := results \<sigma> @ [bindR (decodeResponse cfg crcpp buf) (match_response cmd)] \<rparr>) resps \<tau>'"
proof -
  have "buf \<in> set (queue (queues (world \<sigma>) (rx_queue c)))"
    using recv_quiet_Inr [OF recv quiet] by simp
  then have "delivers paired_network (responses_sent \<tau>) buf"
    using inv sim by (auto simp: consistent_def mirrors_def dest: in_set_dropD)
  moreover have "phase \<tau> 0 = Sent cmd" using sim wait by (simp add: mirrors_def)
  ultimately show ?thesis
    using calls_move [OF reply [of \<tau> 0 cmd]] mirrors_outcome [OF inv sim wait] by blast
qed

lemma mirrors_give_up:
  assumes inv: "consistent cfg crcpp sd target c s t0 r0 \<sigma> resps" and sim: "mirrors cfg crcpp sd \<sigma> resps \<tau>"
    and wait: "client_thread \<sigma> = Waiting cmd" and quiet: "first_push events = None"
    and recv: "recv c events (world \<sigma>) = Some (Inl e, w)"
  shows "\<exists>\<tau>'. paired_run \<tau> \<tau>' \<and>
    mirrors cfg crcpp sd (\<sigma>\<lparr> client_thread := Idle, world := w, results := results \<sigma> @ [Inl e] \<rparr>) resps \<tau>'"
proof -
  have "phase \<tau> 0 = Sent cmd" using sim wait by (simp add: mirrors_def)
  moreover have "throws paired_network e" using recv_quiet_Inl [OF recv quiet] by simp
  ultimately show ?thesis
    using calls_move [OF no_reply [of \<tau> 0 cmd]] mirrors_outcome [OF inv sim wait] by blast
qed

text \<open>The worker serves a command, is ended by an illegible one, or stops.\<close>

lemma mirrors_serve:
  assumes inv: "consistent cfg crcpp sd target c s t0 r0 \<sigma> resps" and sim: "mirrors cfg crcpp sd \<sigma> resps \<tau>"
    and hold: "worker_thread \<sigma> = Holding buf"
    and proc: "process_buffer cfg crcpp ipc_transport target buf (server_of sd s \<sigma>) = (Inr (), S)"
  shows "\<exists>extra \<tau>'. paired_run \<tau> \<tau>' \<and>
    consistent cfg crcpp sd target c s t0 r0
      (\<sigma>\<lparr> worker_thread := Listening, world := snd (srv_transport S), regs := srv_target S \<rparr>) (resps @ extra) \<and>
    mirrors cfg crcpp sd
      (\<sigma>\<lparr> worker_thread := Listening, world := snd (srv_transport S), regs := srv_target S \<rparr>) (resps @ extra) \<tau>'"
proof (rule serve_held [OF inv hold proc])
  fix cmd r
  let ?cmd = "as_received cfg crcpp cmd" and ?sent = "passed cfg sd (issued \<sigma>)"
  assume k: "length resps < length ?sent" and cmd: "cmd = ?sent ! length resps"
    and ok: "legible cfg crcpp cmd" "command_limit cfg sd cmd"
    and r: "handleCmd target ?cmd (regs \<sigma>) = (r, srv_target S)"
    and inv': "consistent cfg crcpp sd target c s t0 r0
      (\<sigma>\<lparr> worker_thread := Listening, world := snd (srv_transport S), regs := srv_target S \<rparr>)
      (resps @ [response_for ?cmd r])"
  have "cmd \<in> set ?sent" using k cmd nth_mem by blast
  then have "delivers paired_network (commands_sent \<tau>) (command_packet cfg crcpp cmd)"
    using sim by (auto simp: mirrors_def)
  moreover have "server_worker \<tau> = Running" using sim hold by (simp add: mirrors_def)
  ultimately have "net_step cfg crcpp sd target paired_network \<tau> (execute cfg crcpp target ?cmd \<tau>)"
    using ok by (intro can_execute)
  moreover have "take (Suc (length resps)) ?sent = take (length resps) ?sent @ [cmd]"
    by (simp add: take_Suc_conv_app_nth k cmd)
  then have "mirrors cfg crcpp sd
    (\<sigma>\<lparr> worker_thread := Listening, world := snd (srv_transport S), regs := srv_target S \<rparr>)
    (resps @ [response_for ?cmd r]) (execute cfg crcpp target ?cmd \<tau>)"
    using sim r hold by (simp add: mirrors_def execute_def)
  ultimately show ?thesis using inv' by blast
qed

lemma mirrors_crash:
  assumes inv: "consistent cfg crcpp sd target c s t0 r0 \<sigma> resps" and sim: "mirrors cfg crcpp sd \<sigma> resps \<tau>"
    and hold: "worker_thread \<sigma> = Holding buf"
    and proc: "process_buffer cfg crcpp ipc_transport target buf (server_of sd s \<sigma>) = (Inl e, S)"
  shows "\<exists>\<tau>'. paired_run \<tau> \<tau>' \<and> mirrors cfg crcpp sd
    (\<sigma>\<lparr> worker_thread := Ended (Terminated e), world := snd (srv_transport S), regs := srv_target S \<rparr>) resps \<tau>'"
proof (rule crash_held [OF inv hold proc])
  fix cmd
  assume cmd: "cmd \<in> set (issued \<sigma>)" "command_limit cfg sd cmd" "buf = command_packet cfg crcpp cmd"
    and dec: "decodeCommand cfg crcpp buf = Inl e" and S: "S = server_of sd s \<sigma>"
  have "delivers paired_network (commands_sent \<tau>) buf" using sim cmd by (auto simp: mirrors_def)
  moreover have "server_worker \<tau> = Running" using sim hold by (simp add: mirrors_def)
  ultimately have "net_step cfg crcpp sd target paired_network \<tau>
    ((set_server (network_server sd \<tau>) \<tau>)\<lparr> executed := executed \<tau> @ got cfg crcpp buf,
       server_worker := Terminated e \<rparr>)"
    by (intro server_moves work_fails process_illegible [OF dec])
  moreover have "(set_server (network_server sd \<tau>) \<tau>)\<lparr> executed := executed \<tau> @ got cfg crcpp buf,
       server_worker := Terminated e \<rparr> = \<tau>\<lparr> server_worker := Terminated e \<rparr>"
    by (simp add: set_server_def network_server_def got_def dec)
  moreover have "mirrors cfg crcpp sd
    (\<sigma>\<lparr> worker_thread := Ended (Terminated e), world := snd (srv_transport S), regs := srv_target S \<rparr>) resps
    (\<tau>\<lparr> server_worker := Terminated e \<rparr>)"
    using sim by (simp add: mirrors_def S server_of_def)
  ultimately show ?thesis by (metis r_into_rtranclp)
qed

lemma mirrors_worker_ends:
  assumes sim: "mirrors cfg crcpp sd \<sigma> resps \<tau>" and "worker_thread \<sigma> = Listening \<or> worker_thread \<sigma> = Holding buf"
    and "how = Stopped \<or> how = Terminated TransportTimeoutException"
  shows "\<exists>\<tau>'. paired_run \<tau> \<tau>' \<and>
    mirrors cfg crcpp sd (\<sigma>\<lparr> worker_thread := Ended how, world := w \<rparr>) resps \<tau>'"
proof -
  have "server_worker \<tau> = Running" using sim assms(2) by (auto simp: mirrors_def)
  then have "net_step cfg crcpp sd target paired_network \<tau> (\<tau>\<lparr> server_worker := how \<rparr>)"
    using assms(3) by (elim disjE) (simp_all add: server_moves stop no_command)
  moreover have "mirrors cfg crcpp sd (\<sigma>\<lparr> worker_thread := Ended how, world := w \<rparr>) resps
    (\<tau>\<lparr> server_worker := how \<rparr>)"
    using sim by (simp add: mirrors_def)
  ultimately show ?thesis by blast
qed

lemma mirrors_client:
  assumes inv: "consistent cfg crcpp sd target c s t0 r0 \<sigma> resps" and sim: "mirrors cfg crcpp sd \<sigma> resps \<tau>"
    and "client_step cfg crcpp sd c \<sigma> ev \<sigma>'"
  shows "\<exists>\<tau>'. paired_run \<tau> \<tau>' \<and> mirrors cfg crcpp sd \<sigma>' resps \<tau>'"
  using assms(3)
  by cases (simp_all add: mirrors_issue [OF inv sim] mirrors_refuse [OF inv sim] mirrors_receive [OF inv sim]
      mirrors_give_up [OF inv sim])

lemma mirrors_worker:
  assumes inv: "consistent cfg crcpp sd target c s t0 r0 \<sigma> resps" and sim: "mirrors cfg crcpp sd \<sigma> resps \<tau>"
    and "worker_step cfg crcpp sd target s \<sigma> ev \<sigma>'"
  shows "\<exists>extra \<tau>'. paired_run \<tau> \<tau>' \<and>
    consistent cfg crcpp sd target c s t0 r0 \<sigma>' (resps @ extra) \<and> mirrors cfg crcpp sd \<sigma>' (resps @ extra) \<tau>'"
  using assms(3)
proof cases
  case (take_cmd events buf w)
  moreover have "mirrors cfg crcpp sd (\<sigma>\<lparr> worker_thread := Holding buf, world := w \<rparr>) resps \<tau>"
    using sim take_cmd by (simp add: mirrors_def)
  ultimately show ?thesis
    using consistent_take [OF inv] by (metis append_Nil2 rtranclp.rtrancl_refl)
next
  case (serve buf S)
  with mirrors_serve [OF inv sim] show ?thesis by metis
next
  case (crash buf e S)
  with consistent_crash [OF inv crash(3,4)] mirrors_crash [OF inv sim crash(3,4)] show ?thesis
    by (metis append_Nil2)
next
  case (idle_crash events e w)
  with consistent_idle_crash [OF inv idle_crash(3-6)] mirrors_worker_ends [OF sim disjI1, of "Terminated e" w]
  show ?thesis by (metis append_Nil2)
next
  case (shutdown buf)
  have "consistent cfg crcpp sd target c s t0 r0 \<sigma>' (resps @ [])"
    using consistent_ended [OF inv, of Stopped] shutdown by auto
  moreover from mirrors_worker_ends [OF sim shutdown(3), of Stopped "world \<sigma>"] shutdown(2)
  obtain \<tau>' where "paired_run \<tau> \<tau>'" "mirrors cfg crcpp sd \<sigma>' resps \<tau>'" by auto
  ultimately show ?thesis by (metis append_Nil2)
qed

lemma mirrors_run:
  assumes "empty_queues c s w" and "run cfg crcpp sd target c s (initial w t0 r0) evs \<sigma>"
  shows "\<exists>resps \<tau>. paired_run (net_initial t0 r0) \<tau> \<and>
    consistent cfg crcpp sd target c s t0 r0 \<sigma> resps \<and> mirrors cfg crcpp sd \<sigma> resps \<tau>"
  using assms(2)
proof induction
  case run_nil
  show ?case
    by (intro exI [of _ "[]"] exI [of _ "net_initial t0 r0"])
      (simp add: consistent_initial [OF assms(1)] mirrors_initial)
next
  case (run_snoc evs \<sigma>' ev \<sigma>'')
  then obtain resps \<tau> where \<tau>: "paired_run (net_initial t0 r0) \<tau>"
    "consistent cfg crcpp sd target c s t0 r0 \<sigma>' resps" "mirrors cfg crcpp sd \<sigma>' resps \<tau>" by blast
  from run_snoc.hyps(2) show ?case unfolding step_def
  proof
    assume "client_step cfg crcpp sd c \<sigma>' ev \<sigma>''"
    with mirrors_client [OF \<tau>(2,3)] consistent_client [OF \<tau>(2)] rtranclp_trans [OF \<tau>(1)]
    show ?thesis by blast
  next
    assume "worker_step cfg crcpp sd target s \<sigma>' ev \<sigma>''"
    with mirrors_worker [OF \<tau>(2,3)] rtranclp_trans [OF \<tau>(1)] show ?thesis by blast
  qed
qed

end

text \<open>
  A call over such a network can still end as it does on the target itself: while the worker runs,
  a command that was sent, and whose fields fit the wire, can be executed and its response received
  next.
\<close>

lemma call_can_complete:
  fixes \<sigma> :: "('a::len word, 'd::len word, 'l::len word, 't) network_state"
    and cfg :: "('a, 'd, 'l, 'c::len) cfg"
  assumes "stack_ok cfg crcpp sd target" and "net_run cfg crcpp sd target paired_network (net_initial t0 r0) \<sigma>"
    and run: "server_worker \<sigma> = Running" and sent: "phase \<sigma> i = Sent cmd" and fits: "command_fits cfg cmd"
  shows "\<exists>\<sigma>'. net_run cfg crcpp sd target paired_network \<sigma> \<sigma>' \<and> phase \<sigma>' i = Ready \<and>
    server_target \<sigma>' = snd (handleCmd target cmd (server_target \<sigma>)) \<and>
    outcomes \<sigma>' = outcomes \<sigma> @ [(i, cmd, reported (fst (handleCmd target cmd (server_target \<sigma>))))]"
proof -
  have st: "rap_stack cfg crcpp sd target" by (rule rap_stackI [OF assms(1)])
  obtain resps where inv: "genuine cfg crcpp sd target t0 r0 \<sigma> resps"
    using rap_network.genuine_run [OF rap_networkI [OF assms(1) paired_noticed] assms(2)] by blast
  obtain r u where r: "handleCmd target cmd (server_target \<sigma>) = (r, u)" by fastforce
  note whole = wf_wire.as_received_fits [OF rap_stack.wire [OF st] fits]
  have known: "delivers paired_network (commands_sent \<sigma>) (command_packet cfg crcpp cmd)" "command_limit cfg sd cmd"
    using inv sent by (auto simp: genuine_def)
  let ?s = "execute cfg crcpp target cmd \<sigma>"
  have "net_step cfg crcpp sd target paired_network \<sigma> ?s"
    using rap_stack.can_execute [OF st run known(1) whole(1) known(2)] by (simp add: whole(2))
  moreover have "net_step cfg crcpp sd target paired_network ?s
      (end_call i cmd (match_response cmd (response_for cmd r)) ?s)"
    by (rule rap_stack.can_reply [OF st])
      (simp_all add: sent r rap_stack.response_for_fits [OF st fits r])
  moreover have "8 \<le> LENGTH('d)" using assms(1) by (auto simp: stack_ok_def cfg_wf_def)
  note match_response_for [OF r this]
  ultimately show ?thesis
    by (intro exI [of _ "end_call i cmd (match_response cmd (response_for cmd r)) ?s"])
      (auto simp: r execute_def)
qed

section \<open>Properties\<close>

text \<open>
  C4. The paired transport is a network that delivers only what was sent and throws only timeouts:
  to every run of client and worker over the two queues, calls refused by the encoder, timeouts and
  commands that do not fit the wire included, there is a run of that network with the same commands
  and results, the same state of the target and of the worker, in which the worker has executed a
  prefix of the commands sent, each as its packet was decoded.
\<close>

theorem paired_run_is_network_run:
  fixes \<sigma> :: "('a::len word, 'd::len word, 'l::len word, 't) system"
    and cfg :: "('a, 'd, 'l, 'c::len) cfg"
  assumes "system_ok cfg crcpp sd target c s" and "empty_queues c s w"
    and "run cfg crcpp sd target c s (initial w t0 r0) evs \<sigma>"
  shows "\<exists>\<tau> n. net_run cfg crcpp sd target paired_network (net_initial t0 r0) \<tau> \<and> drawn \<tau> = issued \<sigma> \<and>
    outcomes \<tau> = outcomes_of (issued \<sigma>) (results \<sigma>) \<and>
    executed \<tau> = map (as_received cfg crcpp) (take n (passed cfg sd (issued \<sigma>))) \<and>
    server_target \<tau> = regs \<sigma> \<and> server_worker \<tau> = status_of (worker_thread \<sigma>)"
  using rap_system.mirrors_run [OF rap_systemI [OF assms(1)] assms(2,3)] unfolding mirrors_def by blast

theorem paired_run_is_network_run_witness:
  "\<exists>\<sigma> \<tau>. run ExampleRapCfg bit_serial_crc sd512 register_file example_client example_server
      (initial example_world 0 (\<lambda>a. a + 1)) [Issue (example_read 0)] \<sigma> \<and>
    net_run ExampleRapCfg bit_serial_crc sd512 register_file paired_network (net_initial 0 (\<lambda>a. a + 1)) \<tau> \<and>
    drawn \<tau> = [example_read 0]"
proof -
  let ?init = "initial example_world 0 (\<lambda>a. a + 1)
    :: (32 word, 32 word, 16 word, 32 word \<Rightarrow> 32 word) system"
  have init: "client_thread ?init = Idle" "txn ?init = 0" "issued ?init = []"
    by (simp_all add: initial_def)
  from example_issue [OF init(1), unfolded init] obtain \<sigma> where
    "step ExampleRapCfg bit_serial_crc sd512 register_file example_client example_server ?init
       (Issue (example_read 0)) \<sigma>" "issued \<sigma> = [example_read 0]"
    by auto
  with paired_run_is_network_run [OF example_system_ok example_empty run_single] run_single
  show ?thesis by metis
qed

text \<open>
  What holds of the network holds of the paired system: as long as 256 calls at most have been made
  no acknowledge is a wrong one, timeouts or not. It is the result of what the packet of its command
  decodes to, after a prefix of the commands sent.
\<close>

lemma paired_acknowledge_is_own_result:
  fixes \<sigma> :: "('a::len word, 'd::len word, 'l::len word, 't) system"
    and cfg :: "('a, 'd, 'l, 'c::len) cfg"
  assumes "system_ok cfg crcpp sd target c s" and "empty_queues c s w"
    and "run cfg crcpp sd target c s (initial w t0 r0) evs \<sigma>"
    and "length (issued \<sigma>) \<le> 256" and "i < length (results \<sigma>)" and "results \<sigma> ! i = Inr r"
  shows "\<exists>k. fst (handleCmd target (as_received cfg crcpp (issued \<sigma> ! i))
    (snd (serve_all target (map (as_received cfg crcpp) (take k (passed cfg sd (issued \<sigma>)))) r0))) = Inr r"
proof -
  note sys = rap_systemI [OF assms(1)]
  have net: "rap_network cfg crcpp sd target paired_network"
    using assms(1) by (simp add: system_ok_def rap_networkI)
  from rap_system.mirrors_run [OF sys assms(2,3)] obtain resps \<tau> where
    run: "net_run cfg crcpp sd target paired_network (net_initial t0 r0) \<tau>"
    and inv: "consistent cfg crcpp sd target c s t0 r0 \<sigma> resps" and sim: "mirrors cfg crcpp sd \<sigma> resps \<tau>"
    by blast
  have i: "i < length (issued \<sigma>)" using inv assms(5) by (auto simp: consistent_def)
  from rap_network.genuine_run [OF net run] obtain qs where "genuine cfg crcpp sd target t0 r0 \<tau> qs" by blast
  moreover have "(0, issued \<sigma> ! i, Inr r) \<in> set (outcomes \<tau>)"
    using sim in_outcomes_of [OF i assms(5)] assms(6) by (simp add: mirrors_def)
  ultimately obtain k where "k < length (executed \<tau>)" "executed \<tau> ! k = as_received cfg crcpp (issued \<sigma> ! i)"
    "fst (handleCmd target (executed \<tau> ! k) (snd (serve_all target (take k (executed \<tau>)) r0))) = Inr r"
    using rap_network.acknowledge_genuine [OF net] sim assms(4) unfolding mirrors_def by metis
  moreover from this(1) sim have "take k (executed \<tau>) =
      map (as_received cfg crcpp) (take k (passed cfg sd (issued \<sigma>)))"
    by (simp add: mirrors_def take_map min_absorb1)
  ultimately show ?thesis by metis
qed

end
