(* ===== verification/Queue_Threads.thy ===== *)
theory Queue_Threads
  imports Transports
begin

text \<open>
  The queue of the paired transport statement by statement (\<open>IpcTransportQueue\<close> of
  \<open>SyncPairedIpcTransports.cpp\<close>): any number of threads in \<open>push\<close> and \<open>pop\<close>, its mutex, and its
  condition variable with spurious wake-ups, timeouts and stop requests. The development takes a
  queue operation to be atomic (\<open>push\<close>, \<open>take_front\<close>); this theory shows that the code makes it
  so, and that no wake-up is lost as long as no stop is requested.
\<close>

section \<open>States\<close>

text \<open>
  Where a thread is. The flag of a \<open>pop\<close> says whether it was given a stop token; \<open>Woken t late\<close>
  is a thread that has left the wait and needs the mutex again, \<open>late\<close> when it was the timeout.
\<close>

datatype queue_pc =
    Outside
  | PushLock Buffer
  | PushItem Buffer
  | PushUnlock
  | PushNotify
  | PopLock bool
  | PopCheck bool
  | Asleep bool
  | Woken bool bool
  | PopDone bool
  | PopFront
  | PopRemove Buffer
  | PopUnlock "Buffer result"

text \<open>What the calls amount to, in the order in which they take effect.\<close>

datatype queue_op =
    Added nat Buffer
  | Taken nat Buffer
  | FoundEmpty nat
  | Cancelled nat

record queue_threads =
  shared :: ipc_queue
  owner :: "nat option"
  pcs :: "nat \<Rightarrow> queue_pc"
  stop_asked :: bool
  undefined_access :: bool
  ops :: "queue_op list"
  returned :: "(nat \<times> Buffer result) list"

definition queue_initial :: queue_threads where
  "queue_initial =
     \<lparr> shared = \<lparr> queue = [] \<rparr>, owner = None, pcs = \<lambda>i. Outside, stop_asked = False,
       undefined_access = False, ops = [], returned = [] \<rparr>"

definition moves :: "nat \<Rightarrow> queue_pc \<Rightarrow> queue_threads \<Rightarrow> queue_threads" where
  "moves i p \<sigma> = \<sigma>\<lparr> pcs := (pcs \<sigma>)(i := p) \<rparr>"

section \<open>Steps\<close>

text \<open>
  The statements of \<open>push\<close> and of both \<open>pop\<close>s. \<open>wait_for\<close> tests its predicate (and the stop
  token) with the mutex in hand; going to sleep gives the mutex back in the same step, which is
  what a condition variable is for. \<open>front()\<close> and \<open>pop()\<close> of an empty \<open>std::queue\<close> are undefined.
\<close>

inductive code_step :: "queue_threads \<Rightarrow> queue_threads \<Rightarrow> bool" where
  lock_push: "pcs \<sigma> i = PushLock b \<Longrightarrow> owner \<sigma> = None \<Longrightarrow>
    code_step \<sigma> (moves i (PushItem b) (\<sigma>\<lparr> owner := Some i \<rparr>))"
| push_item: "pcs \<sigma> i = PushItem b \<Longrightarrow>
    code_step \<sigma> (moves i PushUnlock (\<sigma>\<lparr> shared := push b (shared \<sigma>), ops := ops \<sigma> @ [Added i b] \<rparr>))"
| unlock_push: "pcs \<sigma> i = PushUnlock \<Longrightarrow> code_step \<sigma> (moves i PushNotify (\<sigma>\<lparr> owner := None \<rparr>))"
| notify_one: "pcs \<sigma> i = PushNotify \<Longrightarrow> pcs \<sigma> j = Asleep t \<Longrightarrow>
    code_step \<sigma> (moves i Outside (moves j (Woken t False) \<sigma>))"
| notify_none: "pcs \<sigma> i = PushNotify \<Longrightarrow> \<forall>j t. pcs \<sigma> j \<noteq> Asleep t \<Longrightarrow>
    code_step \<sigma> (moves i Outside \<sigma>)"
| lock_pop: "pcs \<sigma> i = PopLock t \<Longrightarrow> owner \<sigma> = None \<Longrightarrow>
    code_step \<sigma> (moves i (PopCheck t) (\<sigma>\<lparr> owner := Some i \<rparr>))"
| check_true: "pcs \<sigma> i = PopCheck t \<Longrightarrow> t \<and> stop_asked \<sigma> \<or> queue (shared \<sigma>) \<noteq> [] \<Longrightarrow>
    code_step \<sigma> (moves i (PopDone t) \<sigma>)"
| check_false: "pcs \<sigma> i = PopCheck t \<Longrightarrow> \<not> (t \<and> stop_asked \<sigma>) \<Longrightarrow> queue (shared \<sigma>) = [] \<Longrightarrow>
    code_step \<sigma> (moves i (Asleep t) (\<sigma>\<lparr> owner := None \<rparr>))"
| relock: "pcs \<sigma> i = Woken t late \<Longrightarrow> owner \<sigma> = None \<Longrightarrow>
    code_step \<sigma> (moves i (if late then PopDone t else PopCheck t) (\<sigma>\<lparr> owner := Some i \<rparr>))"
| cancelled: "pcs \<sigma> i = PopDone t \<Longrightarrow> t \<and> stop_asked \<sigma> \<Longrightarrow>
    code_step \<sigma> (moves i (PopUnlock (Inr [])) (\<sigma>\<lparr> ops := ops \<sigma> @ [Cancelled i] \<rparr>))"
| found_empty: "pcs \<sigma> i = PopDone t \<Longrightarrow> \<not> (t \<and> stop_asked \<sigma>) \<Longrightarrow> queue (shared \<sigma>) = [] \<Longrightarrow>
    code_step \<sigma> (moves i (PopUnlock (throwR TransportTimeoutException))
      (\<sigma>\<lparr> ops := ops \<sigma> @ [FoundEmpty i] \<rparr>))"
| not_empty: "pcs \<sigma> i = PopDone t \<Longrightarrow> \<not> (t \<and> stop_asked \<sigma>) \<Longrightarrow> queue (shared \<sigma>) \<noteq> [] \<Longrightarrow>
    code_step \<sigma> (moves i PopFront \<sigma>)"
| front: "pcs \<sigma> i = PopFront \<Longrightarrow> queue (shared \<sigma>) = b # rest \<Longrightarrow>
    code_step \<sigma> (moves i (PopRemove b) \<sigma>)"
| front_undefined: "pcs \<sigma> i = PopFront \<Longrightarrow> queue (shared \<sigma>) = [] \<Longrightarrow>
    code_step \<sigma> (moves i (PopRemove []) (\<sigma>\<lparr> undefined_access := True \<rparr>))"
| remove: "pcs \<sigma> i = PopRemove b \<Longrightarrow>
    code_step \<sigma> (moves i (PopUnlock (Inr b))
      (\<sigma>\<lparr> shared := (shared \<sigma>)\<lparr> queue := tl (queue (shared \<sigma>)) \<rparr>,
         undefined_access := undefined_access \<sigma> \<or> queue (shared \<sigma>) = [],
         ops := ops \<sigma> @ [Taken i b] \<rparr>))"
| leave: "pcs \<sigma> i = PopUnlock r \<Longrightarrow>
    code_step \<sigma> (moves i Outside (\<sigma>\<lparr> owner := None, returned := returned \<sigma> @ [(i, r)] \<rparr>))"

text \<open>
  What happens to the queue from outside: a call, a wake-up for no reason or for the timeout, and
  a stop request, which wakes every thread that was given the token.
\<close>

inductive outside_step :: "queue_threads \<Rightarrow> queue_threads \<Rightarrow> bool" where
  call_push: "pcs \<sigma> i = Outside \<Longrightarrow> outside_step \<sigma> (moves i (PushLock b) \<sigma>)"
| call_pop: "pcs \<sigma> i = Outside \<Longrightarrow> outside_step \<sigma> (moves i (PopLock t) \<sigma>)"
| wake_up: "pcs \<sigma> i = Asleep t \<Longrightarrow> outside_step \<sigma> (moves i (Woken t late) \<sigma>)"
| ask_stop: "outside_step \<sigma>
    (\<sigma>\<lparr> stop_asked := True,
       pcs := \<lambda>i. if pcs \<sigma> i = Asleep True then Woken True False else pcs \<sigma> i \<rparr>)"

definition queue_step :: "queue_threads \<Rightarrow> queue_threads \<Rightarrow> bool" where
  "queue_step \<sigma> \<sigma>' \<longleftrightarrow> code_step \<sigma> \<sigma>' \<or> outside_step \<sigma> \<sigma>'"

abbreviation queue_run :: "queue_threads \<Rightarrow> queue_threads \<Rightarrow> bool" where
  "queue_run \<equiv> queue_step\<^sup>*\<^sup>*"

lemma moves_simps [simp]:
  "pcs (moves i p \<sigma>) = (pcs \<sigma>)(i := p)"
  "shared (moves i p \<sigma>) = shared \<sigma>"
  "owner (moves i p \<sigma>) = owner \<sigma>"
  "stop_asked (moves i p \<sigma>) = stop_asked \<sigma>"
  "undefined_access (moves i p \<sigma>) = undefined_access \<sigma>"
  "ops (moves i p \<sigma>) = ops \<sigma>"
  "returned (moves i p \<sigma>) = returned \<sigma>"
  by (simp_all add: moves_def)

section \<open>Mutual exclusion\<close>

fun holds :: "queue_pc \<Rightarrow> bool" where
  "holds (PushItem b) = True"
| "holds PushUnlock = True"
| "holds (PopCheck t) = True"
| "holds (PopDone t) = True"
| "holds PopFront = True"
| "holds (PopRemove b) = True"
| "holds (PopUnlock r) = True"
| "holds _ = False"

definition locked :: "nat option \<Rightarrow> (nat \<Rightarrow> queue_pc) \<Rightarrow> bool" where
  "locked own f \<longleftrightarrow> (\<forall>i. holds (f i) \<longleftrightarrow> own = Some i)"

lemma locked_keep: "locked own f \<Longrightarrow> holds p = holds (f i) \<Longrightarrow> locked own (f(i := p))"
  by (simp add: locked_def)

lemma locked_acquire: "locked None f \<Longrightarrow> holds p \<Longrightarrow> locked (Some i) (f(i := p))"
  by (auto simp: locked_def)

lemma locked_release: "locked own f \<Longrightarrow> holds (f i) \<Longrightarrow> \<not> holds p \<Longrightarrow> locked None (f(i := p))"
  by (auto simp: locked_def)

lemma locked_only: "locked own f \<Longrightarrow> holds (f i) \<Longrightarrow> holds (f j) \<Longrightarrow> i = j"
  by (auto simp: locked_def)

lemma locked_code:
  "code_step \<sigma> \<sigma>' \<Longrightarrow> locked (owner \<sigma>) (pcs \<sigma>) \<Longrightarrow> locked (owner \<sigma>') (pcs \<sigma>')"
proof (induction rule: code_step.induct)
  case (notify_one \<sigma> i j t)
  then show ?case unfolding moves_simps by (intro locked_keep) simp_all
qed (auto intro: locked_keep locked_acquire locked_release split: if_splits)

lemma locked_outside:
  "outside_step \<sigma> \<sigma>' \<Longrightarrow> locked (owner \<sigma>) (pcs \<sigma>) \<Longrightarrow> locked (owner \<sigma>') (pcs \<sigma>')"
proof (induction rule: outside_step.induct)
  case (ask_stop \<sigma>)
  have "holds (if pcs \<sigma> i = Asleep True then Woken True False else pcs \<sigma> i) = holds (pcs \<sigma> i)" for i
    by simp
  with ask_stop show ?case by (simp add: locked_def)
qed (auto intro: locked_keep)

section \<open>The atomic queue\<close>

text \<open>
  The same operations on a queue that nobody else touches, with \<open>push\<close> and \<open>take_front\<close>:
  \<open>replay\<close> is undefined when one of them would have another result.
\<close>

fun apply_op :: "queue_op \<Rightarrow> ipc_queue \<Rightarrow> ipc_queue option" where
  "apply_op (Added i b) q = Some (push b q)"
| "apply_op (Taken i b) q = (let (r, q') = take_front q in if r = Inr b then Some q' else None)"
| "apply_op (FoundEmpty i) q =
     (let (r, q') = take_front q in if r = throwR TransportTimeoutException then Some q' else None)"
| "apply_op (Cancelled i) q = Some q"

fun replay :: "queue_op list \<Rightarrow> ipc_queue \<Rightarrow> ipc_queue option" where
  "replay [] q = Some q"
| "replay (x # xs) q = Option.bind (apply_op x q) (replay xs)"

lemma replay_snoc: "replay (xs @ [x]) q = Option.bind (replay xs q) (apply_op x)"
proof (induction xs arbitrary: q)
  case Nil
  show ?case by (cases "apply_op x q") simp_all
next
  case (Cons a xs)
  then show ?case by (cases "apply_op a q") simp_all
qed

text \<open>The results of the calls of a thread, as the operations have them.\<close>

fun op_results :: "queue_op \<Rightarrow> (nat \<times> Buffer result) list" where
  "op_results (Added i b) = []"
| "op_results (Taken i b) = [(i, Inr b)]"
| "op_results (FoundEmpty i) = [(i, throwR TransportTimeoutException)]"
| "op_results (Cancelled i) = [(i, Inr [])]"

definition results_of :: "nat \<Rightarrow> (nat \<times> Buffer result) list \<Rightarrow> Buffer result list" where
  "results_of i xs = map snd (filter (\<lambda>x. fst x = i) xs)"

lemma results_of_append [simp]: "results_of i (xs @ ys) = results_of i xs @ results_of i ys"
  by (simp add: results_of_def)

lemma results_of_simps [simp]:
  "results_of i [] = []" "results_of i [(j, r)] = (if j = i then [r] else [])"
  by (simp_all add: results_of_def)

fun on_return :: "queue_pc \<Rightarrow> Buffer result list" where
  "on_return (PopUnlock r) = [r]"
| "on_return _ = []"

fun added :: "queue_op \<Rightarrow> Buffer list" where
  "added (Added i b) = [b]"
| "added _ = []"

fun taken :: "queue_op \<Rightarrow> Buffer list" where
  "taken (Taken i b) = [b]"
| "taken _ = []"

lemma replay_fifo:
  "replay xs q = Some q' \<Longrightarrow>
     queue q @ concat (map added xs) = concat (map taken xs) @ queue q'"
proof (induction xs arbitrary: q)
  case (Cons x xs)
  then obtain q1 where "apply_op x q = Some q1" "replay xs q1 = Some q'"
    by (auto simp: bind_eq_Some_conv)
  with Cons.IH [of q1] show ?case
    by (cases x) (auto simp: push_def take_front_def split: list.splits if_splits)
qed simp

definition linear :: "queue_threads \<Rightarrow> bool" where
  "linear \<sigma> \<longleftrightarrow> \<not> undefined_access \<sigma> \<and> replay (ops \<sigma>) \<lparr> queue = [] \<rparr> = Some (shared \<sigma>) \<and>
     (\<forall>i. pcs \<sigma> i = PopFront \<longrightarrow> queue (shared \<sigma>) \<noteq> []) \<and>
     (\<forall>i b. pcs \<sigma> i = PopRemove b \<longrightarrow> (\<exists>rest. queue (shared \<sigma>) = b # rest))"

definition answers :: "queue_threads \<Rightarrow> bool" where
  "answers \<sigma> \<longleftrightarrow> (\<forall>i. results_of i (concat (map op_results (ops \<sigma>))) =
     results_of i (returned \<sigma>) @ on_return (pcs \<sigma> i))"

lemma linear_code:
  "code_step \<sigma> \<sigma>' \<Longrightarrow> locked (owner \<sigma>) (pcs \<sigma>) \<Longrightarrow> linear \<sigma> \<Longrightarrow> linear \<sigma>'"
proof (induction rule: code_step.induct)
  case (remove \<sigma> i b)
  have "pcs \<sigma> j \<noteq> PopFront \<and> pcs \<sigma> j \<noteq> PopRemove c" if "j \<noteq> i" for j c
    using locked_only [OF remove(2), of i j] remove(1) that by auto
  moreover obtain rest where "queue (shared \<sigma>) = b # rest"
    using remove(1,3) unfolding linear_def by blast
  ultimately show ?case
    using remove(3) by (auto simp: linear_def replay_snoc take_front_def)
next
  case (push_item \<sigma> i b)
  have "\<exists>rest. queue (shared \<sigma>) @ [b] = c # rest" if "pcs \<sigma> j = PopRemove c" for j c
    using push_item(3) that unfolding linear_def by fastforce
  with push_item(3) show ?case by (auto simp: linear_def replay_snoc push_def split: if_splits)
qed (auto simp: linear_def replay_snoc take_front_def push_def split: if_splits)

lemma answers_code: "code_step \<sigma> \<sigma>' \<Longrightarrow> answers \<sigma> \<Longrightarrow> answers \<sigma>'"
  by (induction rule: code_step.induct) (auto simp: answers_def)

lemma linear_outside: "outside_step \<sigma> \<sigma>' \<Longrightarrow> linear \<sigma> \<Longrightarrow> linear \<sigma>'"
  by (induction rule: outside_step.induct) (auto simp: linear_def)

lemma answers_outside: "outside_step \<sigma> \<sigma>' \<Longrightarrow> answers \<sigma> \<Longrightarrow> answers \<sigma>'"
  by (induction rule: outside_step.induct) (auto simp: answers_def)

section \<open>No wake-up is lost\<close>

text \<open>
  The threads that a sleeping one can rely on: those that have added a buffer and not yet
  notified, and those that are awake in a \<open>pop\<close> and will look at the queue. As long as nobody has
  asked to stop, there is one of them for each buffer.
\<close>

fun attends :: "queue_pc \<Rightarrow> bool" where
  "attends PushUnlock = True"
| "attends PushNotify = True"
| "attends (PopLock t) = True"
| "attends (PopCheck t) = True"
| "attends (Woken t late) = True"
| "attends (PopDone t) = True"
| "attends PopFront = True"
| "attends (PopRemove b) = True"
| "attends _ = False"

definition attending :: "(nat \<Rightarrow> queue_pc) \<Rightarrow> nat set" where
  "attending f = {i. attends (f i)}"

definition busy :: "(nat \<Rightarrow> queue_pc) \<Rightarrow> nat set" where
  "busy f = {i. f i \<noteq> Outside}"

definition asleep :: "(nat \<Rightarrow> queue_pc) \<Rightarrow> bool" where
  "asleep f \<longleftrightarrow> (\<exists>i t. f i = Asleep t)"

lemma finite_busy_upd [simp]: "finite (busy (f(i := p))) \<longleftrightarrow> finite (busy f)"
proof -
  have "busy (f(i := p)) \<subseteq> insert i (busy f)" "busy f \<subseteq> insert i (busy (f(i := p)))"
    by (auto simp: busy_def)
  then show ?thesis by (meson finite_insert finite_subset)
qed

lemma finite_attending: "finite (busy f) \<Longrightarrow> finite (attending f)"
  by (rule rev_finite_subset) (auto simp: attending_def busy_def)

lemma card_attending:
  assumes "finite (busy f)"
  shows "card (attending (f(i := p))) + (if attends (f i) then 1 else 0) =
    card (attending f) + (if attends p then 1 else 0)"
proof -
  note fin = finite_attending [OF assms]
  have upd: "attending (f(i := p)) = (if attends p then insert i (attending f) else attending f - {i})"
    by (auto simp: attending_def)
  have "i \<in> attending f \<longleftrightarrow> attends (f i)" by (simp add: attending_def)
  with fin card_Suc_Diff1 [OF fin, of i] show ?thesis by (auto simp: upd insert_absorb)
qed

definition attended :: "queue_threads \<Rightarrow> bool" where
  "attended \<sigma> \<longleftrightarrow> finite (busy (pcs \<sigma>)) \<and>
     (stop_asked \<sigma> \<longrightarrow> (\<forall>i. pcs \<sigma> i \<noteq> Asleep True)) \<and>
     (asleep (pcs \<sigma>) \<and> \<not> stop_asked \<sigma> \<longrightarrow>
        length (queue (shared \<sigma>)) \<le> card (attending (pcs \<sigma>)))"

lemma asleep_upd: "(\<forall>t. p \<noteq> Asleep t) \<Longrightarrow> asleep (f(i := p)) \<Longrightarrow> asleep f"
  by (auto simp: asleep_def split: if_splits)

lemma attended_frame [simp]:
  "attended (\<sigma>\<lparr> owner := x \<rparr>) = attended \<sigma>"
  "attended (\<sigma>\<lparr> ops := xs \<rparr>) = attended \<sigma>"
  "attended (\<sigma>\<lparr> returned := rs \<rparr>) = attended \<sigma>"
  "attended (\<sigma>\<lparr> undefined_access := u \<rparr>) = attended \<sigma>"
  by (simp_all add: attended_def)

text \<open>A thread that stays attending, or need not any more.\<close>

lemma attended_moves:
  assumes "attended \<sigma>" and "\<forall>t. p \<noteq> Asleep t"
    and "attends (pcs \<sigma> i) \<longrightarrow> attends p \<or> queue (shared \<sigma>) = [] \<or> stop_asked \<sigma> \<or> \<not> asleep (pcs \<sigma>)"
  shows "attended (moves i p \<sigma>)"
  using assms card_attending [of "pcs \<sigma>" i p] asleep_upd [of p "pcs \<sigma>" i]
  by (auto simp: attended_def split: if_splits)

lemma attended_code: "code_step \<sigma> \<sigma>' \<Longrightarrow> attended \<sigma> \<Longrightarrow> attended \<sigma>'"
proof (induction rule: code_step.induct)
  case (push_item \<sigma> i b)
  then show ?case
    using card_attending [of "pcs \<sigma>" i PushUnlock] asleep_upd [of PushUnlock "pcs \<sigma>" i]
    by (auto simp: attended_def push_def)
next
  case (notify_one \<sigma> i j t)
  then have "i \<noteq> j" by auto
  have fin: "finite (busy (pcs \<sigma>))" using notify_one(3) by (simp add: attended_def)
  have "card (attending ((pcs \<sigma>)(j := Woken t False, i := Outside))) = card (attending (pcs \<sigma>))"
    using card_attending [OF fin, of j "Woken t False"] notify_one(1,2) \<open>i \<noteq> j\<close>
      card_attending [of "(pcs \<sigma>)(j := Woken t False)" i Outside] fin by simp
  moreover have "asleep ((pcs \<sigma>)(j := Woken t False, i := Outside)) \<Longrightarrow> asleep (pcs \<sigma>)"
    by (auto dest!: asleep_upd [rotated])
  ultimately show ?case
    using notify_one(3) by (auto simp: attended_def)
next
  case (check_false \<sigma> i t)
  then show ?case by (auto simp: attended_def)
next
  case (remove \<sigma> i b)
  then show ?case
    using card_attending [of "pcs \<sigma>" i "PopUnlock (Inr b)"] asleep_upd [of "PopUnlock (Inr b)" "pcs \<sigma>" i]
    by (auto simp: attended_def)
next
  case (notify_none \<sigma> i)
  then show ?case by (intro attended_moves) (auto simp: asleep_def)
qed (auto intro!: attended_moves)

lemma attended_outside: "outside_step \<sigma> \<sigma>' \<Longrightarrow> attended \<sigma> \<Longrightarrow> attended \<sigma>'"
proof (induction rule: outside_step.induct)
  case (ask_stop \<sigma>)
  have "busy (\<lambda>i. if pcs \<sigma> i = Asleep True then Woken True False else pcs \<sigma> i) = busy (pcs \<sigma>)"
    by (auto simp: busy_def)
  with ask_stop show ?case by (simp add: attended_def)
qed (auto intro!: attended_moves)

section \<open>Every call gets on\<close>

text \<open>How far a thread is from the end of its call, or from sleep.\<close>

fun distance :: "queue_pc \<Rightarrow> nat" where
  "distance (PushLock b) = 10"
| "distance (PushItem b) = 9"
| "distance PushUnlock = 8"
| "distance PushNotify = 7"
| "distance (PopLock t) = 6"
| "distance (Woken t late) = 6"
| "distance (PopCheck t) = 5"
| "distance (PopDone t) = 4"
| "distance PopFront = 3"
| "distance (PopRemove b) = 2"
| "distance (PopUnlock r) = 1"
| "distance (Asleep t) = 0"
| "distance Outside = 0"

definition work_left :: "(nat \<Rightarrow> queue_pc) \<Rightarrow> nat" where
  "work_left f = (\<Sum>i \<in> busy f. distance (f i))"

lemma work_left_upd:
  assumes "finite (busy f)"
  shows "work_left (f(i := p)) + distance (f i) = work_left f + distance p"
proof -
  let ?A = "insert i (busy f)"
  have all: "work_left g = (\<Sum>k \<in> ?A. distance (g k))" if "busy g \<subseteq> ?A" for g
    unfolding work_left_def using assms that by (intro sum.mono_neutral_left) (auto simp: busy_def)
  have "busy (f(i := p)) \<subseteq> ?A" by (auto simp: busy_def)
  moreover have "(\<Sum>k \<in> ?A - {i}. distance ((f(i := p)) k)) = (\<Sum>k \<in> ?A - {i}. distance (f k))"
    by (rule sum.cong) simp_all
  then have "(\<Sum>k \<in> ?A. distance ((f(i := p)) k)) = distance p + (\<Sum>k \<in> ?A - {i}. distance (f k))"
    using assms sum.remove [of ?A i "\<lambda>k. distance ((f(i := p)) k)"] by simp
  moreover have "(\<Sum>k \<in> ?A. distance (f k)) = distance (f i) + (\<Sum>k \<in> ?A - {i}. distance (f k))"
    using assms by (intro sum.remove) simp_all
  moreover have "busy f \<subseteq> ?A" by blast
  ultimately show ?thesis using all [of f] all [of "f(i := p)"] by simp
qed

lemma work_left_less:
  "finite (busy f) \<Longrightarrow> distance p < distance (f i) \<Longrightarrow> work_left (f(i := p)) < work_left f"
  using work_left_upd [of f i p] by simp

lemma finite_busy_code: "code_step \<sigma> \<sigma>' \<Longrightarrow> finite (busy (pcs \<sigma>)) \<Longrightarrow> finite (busy (pcs \<sigma>'))"
  by (induction rule: code_step.induct) simp_all

lemma code_step_works:
  "code_step \<sigma> \<sigma>' \<Longrightarrow> finite (busy (pcs \<sigma>)) \<Longrightarrow> work_left (pcs \<sigma>') < work_left (pcs \<sigma>)"
proof (induction rule: code_step.induct)
  case (notify_one \<sigma> i j t)
  then have "i \<noteq> j" by auto
  with notify_one work_left_upd [of "pcs \<sigma>" j "Woken t False"]
    work_left_upd [of "(pcs \<sigma>)(j := Woken t False)" i Outside]
  have "work_left ((pcs \<sigma>)(j := Woken t False, i := Outside)) < work_left (pcs \<sigma>)" by simp
  then show ?case by (simp only: moves_simps)
qed (simp_all add: work_left_less)

section \<open>Reachable states\<close>

definition queue_inv :: "queue_threads \<Rightarrow> bool" where
  "queue_inv \<sigma> \<longleftrightarrow> locked (owner \<sigma>) (pcs \<sigma>) \<and> linear \<sigma> \<and> answers \<sigma> \<and> attended \<sigma>"

lemma queue_inv_run: "queue_run queue_initial \<sigma> \<Longrightarrow> queue_inv \<sigma>"
proof (induction rule: rtranclp_induct)
  case base
  have "busy (\<lambda>i. Outside) = {}" by (simp add: busy_def)
  then show ?case
    by (simp add: queue_inv_def queue_initial_def locked_def linear_def answers_def attended_def asleep_def)
next
  case (step \<sigma> \<sigma>')
  then show ?case
    using locked_code linear_code answers_code attended_code
      locked_outside linear_outside answers_outside attended_outside
    unfolding queue_step_def queue_inv_def by blast
qed

text \<open>A state in which no thread can do anything more by itself.\<close>

definition resting :: "queue_threads \<Rightarrow> bool" where
  "resting \<sigma> \<longleftrightarrow> (\<forall>\<sigma>'. \<not> code_step \<sigma> \<sigma>')"

lemma resting_free:
  assumes "locked (owner \<sigma>) (pcs \<sigma>)" and "resting \<sigma>"
  shows "owner \<sigma> = None"
proof (rule ccontr)
  assume "owner \<sigma> \<noteq> None"
  then obtain i where "holds (pcs \<sigma> i)" using assms(1) by (auto simp: locked_def)
  then show False
  proof (cases "pcs \<sigma> i")
    case PopFront
    then show ?thesis
      using assms(2) front front_undefined unfolding resting_def by (cases "queue (shared \<sigma>)") blast+
  next
    case (PushItem b)
    from push_item [OF this] assms(2) show ?thesis by (simp add: resting_def)
  next
    case PushUnlock
    from unlock_push [OF this] assms(2) show ?thesis by (simp add: resting_def)
  next
    case (PopCheck t)
    from check_true [OF this] check_false [OF this] assms(2) show ?thesis by (auto simp: resting_def)
  next
    case (PopDone t)
    from cancelled [OF this] found_empty [OF this] not_empty [OF this] assms(2)
    show ?thesis by (auto simp: resting_def)
  next
    case (PopRemove b)
    from remove [OF this] assms(2) show ?thesis by (simp add: resting_def)
  next
    case (PopUnlock r)
    from leave [OF this] assms(2) show ?thesis by (simp add: resting_def)
  qed simp_all
qed

lemma resting_threads:
  assumes "queue_inv \<sigma>" and "resting \<sigma>"
  shows "pcs \<sigma> i = Outside \<or> (\<exists>t. pcs \<sigma> i = Asleep t)"
proof -
  have free: "owner \<sigma> = None" using assms resting_free by (simp add: queue_inv_def)
  then have "\<not> holds (pcs \<sigma> i)" using assms(1) by (simp add: queue_inv_def locked_def)
  then show ?thesis
  proof (cases "pcs \<sigma> i")
    case (PushLock b)
    from lock_push [OF this free] assms(2) show ?thesis by (simp add: resting_def)
  next
    case PushNotify
    from notify_one [OF this] notify_none [OF this] assms(2) show ?thesis by (auto simp: resting_def)
  next
    case (PopLock t)
    from lock_pop [OF this free] assms(2) show ?thesis by (simp add: resting_def)
  next
    case (Woken t late)
    from relock [OF this free] assms(2) show ?thesis by (simp add: resting_def)
  qed simp_all
qed

lemma resting_asleep:
  assumes "queue_inv \<sigma>" and "resting \<sigma>" and "pcs \<sigma> i = Asleep t"
  shows "\<not> (t \<and> stop_asked \<sigma>) \<and> (queue (shared \<sigma>) = [] \<or> stop_asked \<sigma>)"
proof -
  have att: "attended \<sigma>" using assms(1) by (simp add: queue_inv_def)
  have "\<not> attends (pcs \<sigma> k)" for k using resting_threads [OF assms(1,2), of k] by auto
  then have "attending (pcs \<sigma>) = {}" by (simp add: attending_def)
  moreover have "asleep (pcs \<sigma>)" using assms(3) by (auto simp: asleep_def)
  ultimately show ?thesis using att assms(3) by (auto simp: attended_def)
qed

lemma code_steps_bounded:
  "(code_step ^^ n) \<sigma> \<sigma>' \<Longrightarrow> finite (busy (pcs \<sigma>)) \<Longrightarrow> n + work_left (pcs \<sigma>') \<le> work_left (pcs \<sigma>)"
proof (induction n arbitrary: \<sigma>)
  case (Suc n)
  from Suc.prems(1) obtain \<tau> where "code_step \<sigma> \<tau>" "(code_step ^^ n) \<tau> \<sigma>'"
    by (rule relpowp_Suc_E2)
  with Suc.IH [of \<tau>] code_step_works [of \<sigma> \<tau>] finite_busy_code [of \<sigma> \<tau>] Suc.prems(2)
  show ?case by simp
qed simp

lemma queue_run_code: "queue_run \<sigma> \<sigma>' \<Longrightarrow> (code_step ^^ n) \<sigma>' \<sigma>'' \<Longrightarrow> queue_run \<sigma> \<sigma>''"
proof (induction n arbitrary: \<sigma>'')
  case (Suc n)
  then obtain \<tau> where \<tau>: "(code_step ^^ n) \<sigma>' \<tau>" "code_step \<tau> \<sigma>''" by (auto elim: relpowp_Suc_E)
  from \<tau>(2) have "queue_step \<tau> \<sigma>''" by (simp add: queue_step_def)
  with Suc.IH [OF Suc.prems(1) \<tau>(1)] show ?case by (rule rtranclp.rtrancl_into_rtrancl)
qed simp

section \<open>Properties\<close>

text \<open>
  C25. The queue is linearizable: however its threads interleave, what its calls have done is what
  they would do one at a time on a queue of their own, in the order in which they took effect,
  and each thread is returned the results of that order. No buffer is lost, repeated or
  reordered, no two threads are between the lock and the unlock at once, and no thread reads or
  removes the front of an empty queue.
\<close>

theorem queue_linearizable:
  assumes "queue_run queue_initial \<sigma>"
  shows "replay (ops \<sigma>) \<lparr> queue = [] \<rparr> = Some (shared \<sigma>) \<and>
    concat (map added (ops \<sigma>)) = concat (map taken (ops \<sigma>)) @ queue (shared \<sigma>) \<and>
    (\<forall>i. results_of i (concat (map op_results (ops \<sigma>))) =
      results_of i (returned \<sigma>) @ on_return (pcs \<sigma> i)) \<and>
    (\<forall>i j. holds (pcs \<sigma> i) \<and> holds (pcs \<sigma> j) \<longrightarrow> i = j) \<and> \<not> undefined_access \<sigma>"
proof -
  have inv: "locked (owner \<sigma>) (pcs \<sigma>)" "linear \<sigma>" "answers \<sigma>"
    using queue_inv_run [OF assms] by (simp_all add: queue_inv_def)
  then have "replay (ops \<sigma>) \<lparr> queue = [] \<rparr> = Some (shared \<sigma>)" by (simp add: linear_def)
  moreover from replay_fifo [OF this]
  have "concat (map added (ops \<sigma>)) = concat (map taken (ops \<sigma>)) @ queue (shared \<sigma>)" by simp
  ultimately show ?thesis
    using inv locked_only [OF inv(1)] by (auto simp: linear_def answers_def)
qed

theorem queue_linearizable_witness:
  "\<exists>\<sigma>. queue_run queue_initial \<sigma> \<and> ops \<sigma> = [Added 0 [7]] \<and> queue (shared \<sigma>) = [[7]]"
proof -
  let ?s1 = "moves 0 (PushLock [7]) queue_initial"
  let ?s2 = "moves 0 (PushItem [7]) (?s1\<lparr> owner := Some 0 \<rparr>)"
  let ?s3 = "moves 0 PushUnlock (?s2\<lparr> shared := push [7] (shared ?s2), ops := ops ?s2 @ [Added 0 [7]] \<rparr>)"
  have s1: "queue_step queue_initial ?s1"
    unfolding queue_step_def by (intro disjI2 call_push) (simp add: queue_initial_def)
  have s2: "queue_step ?s1 ?s2"
    unfolding queue_step_def by (intro disjI1 lock_push) (simp_all add: queue_initial_def)
  have s3: "queue_step ?s2 ?s3"
    unfolding queue_step_def by (intro disjI1 push_item) simp
  have run: "queue_run queue_initial ?s3"
    by (rule converse_rtranclp_into_rtranclp, rule s1, rule converse_rtranclp_into_rtranclp, rule s2,
        rule r_into_rtranclp, rule s3)
  have "ops ?s3 = [Added 0 [7]]" by (simp add: queue_initial_def)
  with run queue_linearizable [OF run] show ?thesis by (intro exI [of _ ?s3]) simp
qed

text \<open>
  C26. Nothing deadlocks, and without a stop request no wake-up is lost: left to themselves, the
  threads in the queue come to rest after a bounded number of steps, in any order of scheduling,
  and then every call has returned, but for a \<open>pop\<close> that sleeps. If no stop was requested the queue
  is then empty. If one was, no \<open>pop\<close> that was given the token sleeps; one without a token may, on a
  queue that is not empty, because the wake-up of a push can go to a thread that the stop request
  makes return without a buffer. (A queue of the paired transport has one receiving thread.)
\<close>

theorem queue_calls_finish:
  assumes "queue_run queue_initial \<sigma>" and "(code_step ^^ n) \<sigma> \<sigma>'"
  shows "n \<le> work_left (pcs \<sigma>) \<and>
    (resting \<sigma>' \<longrightarrow> (\<forall>i. pcs \<sigma>' i = Outside \<or>
      (\<exists>t. pcs \<sigma>' i = Asleep t \<and> \<not> (t \<and> stop_asked \<sigma>') \<and>
        (queue (shared \<sigma>') = [] \<or> stop_asked \<sigma>'))))"
proof -
  have "finite (busy (pcs \<sigma>))"
    using queue_inv_run [OF assms(1)] by (simp add: queue_inv_def attended_def)
  from code_steps_bounded [OF assms(2) this] have "n \<le> work_left (pcs \<sigma>)" by simp
  moreover have "queue_inv \<sigma>'" by (rule queue_inv_run [OF queue_run_code [OF assms]])
  then have "pcs \<sigma>' i = Outside \<or> (\<exists>t. pcs \<sigma>' i = Asleep t \<and> \<not> (t \<and> stop_asked \<sigma>') \<and>
      (queue (shared \<sigma>') = [] \<or> stop_asked \<sigma>'))" if "resting \<sigma>'" for i
    using resting_threads [OF _ that, of i] resting_asleep [OF _ that, of i] by blast
  ultimately show ?thesis by blast
qed

theorem queue_calls_finish_witness:
  "\<exists>\<sigma> \<sigma>'. queue_run queue_initial \<sigma> \<and> (code_step ^^ 2) \<sigma> \<sigma>' \<and> pcs \<sigma>' 0 = Asleep True \<and>
    2 \<le> work_left (pcs \<sigma>)"
proof -
  let ?s1 = "moves 0 (PopLock True) queue_initial"
  let ?s2 = "moves 0 (PopCheck True) (?s1\<lparr> owner := Some 0 \<rparr>)"
  let ?s3 = "moves 0 (Asleep True) (?s2\<lparr> owner := None \<rparr>)"
  have "queue_step queue_initial ?s1"
    unfolding queue_step_def by (intro disjI2 call_pop) (simp add: queue_initial_def)
  then have run: "queue_run queue_initial ?s1" by (rule r_into_rtranclp)
  have "code_step ?s1 ?s2" by (rule lock_pop) (simp_all add: queue_initial_def)
  moreover have "code_step ?s2 ?s3" by (rule check_false) (simp_all add: queue_initial_def)
  ultimately have two: "(code_step ^^ 2) ?s1 ?s3" by (auto simp: numeral_2_eq_2)
  from queue_calls_finish [OF run two] run two show ?thesis
    by (intro exI [of _ ?s1] exI [of _ ?s3]) simp
qed

end
