(* ===== verification/Wireshark_Dissector.thy ===== *)
theory Wireshark_Dissector
  imports Serdes
begin

text \<open>
  \<open>WiresharkDissector.lua\<close>, the second reader of the wire format in the repository: a script for
  Wireshark that displays RAP messages. It repeats the message codes and the layout of every
  message in Lua. Here it is modelled and compared with the C++ decoders.

  What the script calls in Wireshark is a parameter, the record \<open>wireshark\<close>. The tree it builds is
  the state; a Lua error ends the script and leaves the tree as it is.
\<close>

section \<open>The configuration and the tables\<close>

record lua_cfg =
  lua_AddrBytes :: nat
  lua_DataBytes :: nat
  lua_LenBytes :: nat
  lua_CrcBytes :: nat
  LocalPort :: nat
  RemotePort :: nat

definition lua_cfg_source :: lua_cfg where
  "lua_cfg_source =
     \<lparr> lua_AddrBytes = 4, lua_DataBytes = 2, lua_LenBytes = 1, lua_CrcBytes = 2,
       LocalPort = 1234, RemotePort = 4321 \<rparr>"

text \<open>The constructors of \<open>ProtoField\<close> the script uses; \<open>None\<close> is \<open>nil\<close>.\<close>

datatype field_type = uint8 | uint16 | uint32 | uint64 | ubytes

definition makeCfgField :: "nat \<Rightarrow> field_type option" where
  "makeCfgField cfg_val =
     (if cfg_val = 1 then Some uint8
      else if cfg_val = 2 then Some uint16
      else if cfg_val = 3 \<or> cfg_val = 4 then Some uint32
      else if cfg_val > 4 \<and> cfg_val < 9 then Some uint64
      else None)"

datatype lua_field =
    F_txn_id | F_msg_type | F_payload | F_addr | F_data | F_mask | F_status | F_increment
  | F_count | F_length | F_crc

text \<open>The table \<open>fields\<close>: the type each field is declared with.\<close>

fun lua_fields :: "lua_cfg \<Rightarrow> lua_field \<Rightarrow> field_type option" where
  "lua_fields c F_txn_id = Some uint8"
| "lua_fields c F_msg_type = Some uint8"
| "lua_fields c F_payload = Some ubytes"
| "lua_fields c F_addr = makeCfgField (lua_AddrBytes c)"
| "lua_fields c F_data = makeCfgField (lua_DataBytes c)"
| "lua_fields c F_mask = makeCfgField (lua_DataBytes c)"
| "lua_fields c F_status = makeCfgField (lua_DataBytes c)"
| "lua_fields c F_increment = makeCfgField (lua_DataBytes c)"
| "lua_fields c F_count = makeCfgField (lua_DataBytes c)"
| "lua_fields c F_length = makeCfgField (lua_LenBytes c)"
| "lua_fields c F_crc = makeCfgField (lua_CrcBytes c)"

definition MessageType_FromValue :: "(byte \<times> string) list" where
  "MessageType_FromValue =
     [(0x01, ''CmdSingleRead''), (0x80, ''AckSingleRead''), (0xC1, ''NakSingleRead''),
      (0x10, ''CmdSingleWrite''), (0x51, ''CmdSingleWritePosted''), (0x91, ''AckSingleWrite''),
      (0xD0, ''NakSingleWrite''), (0x04, ''CmdSeqRead''), (0x85, ''AckSeqRead''),
      (0xC4, ''NakSeqRead''), (0x15, ''CmdSeqWrite''), (0x54, ''CmdSeqWritePosted''),
      (0x94, ''AckSeqWrite''), (0xD5, ''NakSeqWrite''), (0x08, ''CmdCompRead''),
      (0x89, ''AckCompRead''), (0xC8, ''NakCompRead''), (0x19, ''CmdCompWrite''),
      (0x58, ''CmdCompWritePosted''), (0x98, ''AckCompWrite''), (0xD9, ''NakCompWrite''),
      (0x20, ''CmdSingleRmw''), (0x61, ''CmdSingleRmwPosted''), (0xA1, ''AckSingleRmw''),
      (0xE0, ''NakSingleRmw''), (0xB0, ''AckSingleInterrupt'')]"

definition msgTypeByteToString :: "byte \<Rightarrow> string" where
  "msgTypeByteToString v =
     (case map_of MessageType_FromValue v of Some str \<Rightarrow> str | None \<Rightarrow> ''<unknown>'')"

text \<open>The table \<open>MessageType\<close>, whose keys are the names of the C++ enumerators.\<close>

fun lua_MessageType :: "MessageType \<Rightarrow> byte" where
  "lua_MessageType eCmdSingleRead = 0x01"
| "lua_MessageType eAckSingleRead = 0x80"
| "lua_MessageType eNakSingleRead = 0xC1"
| "lua_MessageType eCmdSingleWrite = 0x10"
| "lua_MessageType eCmdSingleWritePosted = 0x51"
| "lua_MessageType eAckSingleWrite = 0x91"
| "lua_MessageType eNakSingleWrite = 0xD0"
| "lua_MessageType eCmdSeqRead = 0x04"
| "lua_MessageType eAckSeqRead = 0x85"
| "lua_MessageType eNakSeqRead = 0xC4"
| "lua_MessageType eCmdSeqWrite = 0x15"
| "lua_MessageType eCmdSeqWritePosted = 0x54"
| "lua_MessageType eAckSeqWrite = 0x94"
| "lua_MessageType eNakSeqWrite = 0xD5"
| "lua_MessageType eCmdCompRead = 0x08"
| "lua_MessageType eAckCompRead = 0x89"
| "lua_MessageType eNakCompRead = 0xC8"
| "lua_MessageType eCmdCompWrite = 0x19"
| "lua_MessageType eCmdCompWritePosted = 0x58"
| "lua_MessageType eAckCompWrite = 0x98"
| "lua_MessageType eNakCompWrite = 0xD9"
| "lua_MessageType eCmdSingleRmw = 0x20"
| "lua_MessageType eCmdSingleRmwPosted = 0x61"
| "lua_MessageType eAckSingleRmw = 0xA1"
| "lua_MessageType eNakSingleRmw = 0xE0"
| "lua_MessageType eAckSingleInterrupt = 0xB0"

definition incrToType :: "lua_cfg \<Rightarrow> nat \<Rightarrow> string" where
  "incrToType c incr =
     (if incr = 0 then ''FIFO'' else if incr = lua_DataBytes c then ''SEQ'' else ''INCR'')"

section \<open>The dissector\<close>

text \<open>
  Of Wireshark: \<open>buffer(offset, length)\<close>, which is a part of a buffer or a Lua error, and the value
  a field of a type is displayed as for little-endian bytes (and \<open>add_packet_field\<close> returns).
\<close>

record wireshark =
  ws_range :: "Buffer \<Rightarrow> int \<Rightarrow> int \<Rightarrow> string + Buffer"
  ws_value :: "field_type option \<Rightarrow> Buffer \<Rightarrow> nat"

text \<open>An item of a tree: a field with its value and appended text, a heading, or plain text.\<close>

datatype tree_item = Field lua_field nat string | Heading string string | Plain string

record lua_tree =
  subtree :: "tree_item list"
  payload_subtree :: "tree_item list"

type_synonym 'a lua = "(string, lua_tree, 'a) act"

definition add_to_subtree :: "tree_item \<Rightarrow> unit lua" where
  "add_to_subtree item s = (Inr (), s\<lparr> subtree := subtree s @ [item] \<rparr>)"

definition add_to_payload :: "tree_item \<Rightarrow> unit lua" where
  "add_to_payload item s = (Inr (), s\<lparr> payload_subtree := payload_subtree s @ [item] \<rparr>)"

text \<open>
  \<open>payload_subtree:add_le(field, payload_buffer(offset, n))\<close>, and \<open>add_packet_field\<close> with the text
  that is appended to the item.
\<close>

definition add_packet_field ::
  "wireshark \<Rightarrow> lua_cfg \<Rightarrow> lua_field \<Rightarrow> Buffer \<Rightarrow> int \<Rightarrow> int \<Rightarrow> (nat \<Rightarrow> string) \<Rightarrow> nat lua" where
  "add_packet_field ws c field payload_buffer offset n label =
     bindA (liftA (ws_range ws payload_buffer offset n)) (\<lambda>bytes.
     let v = ws_value ws (lua_fields c field) bytes
     in bindA (add_to_payload (Field field v (label v))) (\<lambda>_. liftA (Inr v)))"

definition add_le :: "wireshark \<Rightarrow> lua_cfg \<Rightarrow> lua_field \<Rightarrow> Buffer \<Rightarrow> int \<Rightarrow> int \<Rightarrow> unit lua" where
  "add_le ws c field payload_buffer offset n =
     bindA (add_packet_field ws c field payload_buffer offset n (\<lambda>v. [])) (\<lambda>_. liftA (Inr ()))"

text \<open>The same for \<open>subtree\<close>.\<close>

definition add_le_subtree ::
  "wireshark \<Rightarrow> lua_cfg \<Rightarrow> lua_field \<Rightarrow> Buffer \<Rightarrow> int \<Rightarrow> int \<Rightarrow> string \<Rightarrow> unit lua" where
  "add_le_subtree ws c field buffer offset n label =
     bindA (liftA (ws_range ws buffer offset n)) (\<lambda>bytes.
     add_to_subtree (Field field (ws_value ws (lua_fields c field) bytes) label))"

text \<open>\<open>for i=first,first+n-1,1 do body end\<close>\<close>

fun lua_for :: "nat \<Rightarrow> nat \<Rightarrow> (nat \<Rightarrow> unit lua) \<Rightarrow> unit lua" where
  "lua_for first 0 body = liftA (Inr ())"
| "lua_for first (Suc n) body = bindA (body first) (\<lambda>_. lua_for (Suc first) n body)"

definition parenthesised :: "string \<Rightarrow> string" where
  "parenthesised str = '' ('' @ str @ '')''"

definition lua_number :: "int \<Rightarrow> string" where
  "lua_number n = (if n < 0 then ''-'' @ decimal (nat (- n)) else decimal (nat n))"

text \<open>The branches of the dissector, for the message type byte and the payload.\<close>

definition dissect_payload :: "wireshark \<Rightarrow> lua_cfg \<Rightarrow> byte \<Rightarrow> Buffer \<Rightarrow> unit lua" where
  "dissect_payload ws c message_type payload_buffer =
     (let AddrBytes = int (lua_AddrBytes c); DataBytes = int (lua_DataBytes c);
          LenBytes = int (lua_LenBytes c); is = (\<lambda>t. message_type = lua_MessageType t);
          field = (\<lambda>f offset n. add_le ws c f payload_buffer offset n);
          counted = (\<lambda>offset. add_packet_field ws c F_count payload_buffer offset LenBytes (\<lambda>v. []));
          incr = (\<lambda>offset. add_packet_field ws c F_increment payload_buffer offset LenBytes
            (\<lambda>v. parenthesised (incrToType c v)));
          data_from = (\<lambda>fi count. lua_for 0 count (\<lambda>i. field F_data (fi + int i * DataBytes) DataBytes))
      in if is eCmdSingleRead then field F_addr 0 AddrBytes
      else if is eAckSingleRead then field F_data 0 DataBytes
      else if is eNakSingleRead then field F_status 0 DataBytes
      else if is eCmdSingleWrite \<or> is eCmdSingleWritePosted then
        bindA (field F_addr 0 AddrBytes) (\<lambda>_. field F_data AddrBytes DataBytes)
      else if is eAckSingleWrite then liftA (Inr ())
      else if is eNakSingleWrite then field F_status 0 DataBytes
      else if is eCmdSeqRead then
        bindA (field F_addr 0 AddrBytes) (\<lambda>_.
        bindA (incr AddrBytes) (\<lambda>_.
        bindA (counted (AddrBytes + LenBytes)) (\<lambda>_. liftA (Inr ()))))
      else if is eAckSeqRead then bindA (counted 0) (\<lambda>count. data_from LenBytes count)
      else if is eNakSeqRead then field F_status 0 DataBytes
      else if is eCmdSeqWrite \<or> is eCmdSeqWritePosted then
        bindA (field F_addr 0 AddrBytes) (\<lambda>_.
        bindA (incr AddrBytes) (\<lambda>_.
        bindA (counted (AddrBytes + LenBytes)) (\<lambda>count.
        data_from (AddrBytes + LenBytes + LenBytes) count)))
      else if is eAckSeqWrite then liftA (Inr ())
      else if is eNakSeqWrite then field F_status 0 DataBytes
      else if is eCmdCompRead then
        bindA (counted 0) (\<lambda>count.
        lua_for 0 count (\<lambda>i. field F_addr (LenBytes + int i * AddrBytes) AddrBytes))
      else if is eAckCompRead then bindA (counted 0) (\<lambda>count. data_from LenBytes count)
      else if is eNakCompRead then field F_status 0 DataBytes
      else if is eCmdCompWrite \<or> is eCmdCompWritePosted then
        bindA (counted 0) (\<lambda>count.
        lua_for 0 count (\<lambda>i. let adi = LenBytes + int i * (AddrBytes + DataBytes)
          in bindA (field F_addr adi AddrBytes) (\<lambda>_. field F_data (adi + AddrBytes) DataBytes)))
      else if is eAckCompWrite then liftA (Inr ())
      else if is eNakCompWrite then field F_status 0 DataBytes
      else if is eCmdSingleRmw \<or> is eCmdSingleRmwPosted then
        bindA (field F_addr 0 AddrBytes) (\<lambda>_.
        bindA (field F_data AddrBytes DataBytes) (\<lambda>_.
        field F_mask (AddrBytes + DataBytes) DataBytes))
      else if is eAckSingleRmw then liftA (Inr ())
      else if is eNakSingleRmw then field F_status 0 DataBytes
      else if is eAckSingleInterrupt then field F_status 0 DataBytes
      else add_to_payload (Plain ''ERROR''))"

definition dissector :: "wireshark \<Rightarrow> lua_cfg \<Rightarrow> Buffer \<Rightarrow> unit lua" where
  "dissector ws c buffer =
     (if length buffer = 0 then liftA (Inr ())
      else
        bindA (add_le_subtree ws c F_txn_id buffer 0 1 []) (\<lambda>_.
        bindA (liftA (ws_range ws buffer 1 1)) (\<lambda>bytes.
        let message_type = bytes ! 0; CrcBytes = int (lua_CrcBytes c); len = int (length buffer);
            payload_length = len - 2 - CrcBytes
        in
        bindA (add_le_subtree ws c F_msg_type buffer 1 1
          (parenthesised (msgTypeByteToString message_type))) (\<lambda>_.
        bindA (liftA (ws_range ws buffer 2 payload_length)) (\<lambda>payload_buffer.
        bindA (add_to_subtree (Heading ''Message Payload''
          (parenthesised (lua_number payload_length @ '' Bytes'')))) (\<lambda>_.
        bindA (add_le_subtree ws c F_crc buffer (len - CrcBytes) CrcBytes []) (\<lambda>_.
        dissect_payload ws c message_type payload_buffer)))))))"

section \<open>What is displayed\<close>

text \<open>
  The fields of a message, in the order of the wire: what a reader of the display should see.
\<close>

abbreviation shown :: "lua_field \<Rightarrow> 'w::len word \<Rightarrow> tree_item" where
  "shown f v \<equiv> Field f (unat v) []"

abbreviation shown_increment :: "lua_cfg \<Rightarrow> 'w::len word \<Rightarrow> tree_item" where
  "shown_increment c i \<equiv> Field F_increment (unat i) (parenthesised (incrToType c (unat i)))"

fun shown_command ::
  "lua_cfg \<Rightarrow> ('a::len word, 'd::len word, 'l::len word) Command \<Rightarrow> tree_item list" where
  "shown_command c (ReadSingleCommand t a) = [shown F_addr a]"
| "shown_command c (WriteSingleCommand t p a d) = [shown F_addr a, shown F_data d]"
| "shown_command c (ReadSeqCommand t a i n) = [shown F_addr a, shown_increment c i, shown F_count n]"
| "shown_command c (WriteSeqCommand t p a i ds) =
     [shown F_addr a, shown_increment c i, Field F_count (length ds) []] @ map (shown F_data) ds"
| "shown_command c (ReadCompCommand t as) = Field F_count (length as) [] # map (shown F_addr) as"
| "shown_command c (WriteCompCommand t p ads) =
     Field F_count (length ads) [] # concat (map (\<lambda>(a, d). [shown F_addr a, shown F_data d]) ads)"
| "shown_command c (ReadModifyWriteCommand t p a d m) = [shown F_addr a, shown F_data d, shown F_mask m]"

fun shown_response :: "'d::len word Response \<Rightarrow> tree_item list" where
  "shown_response (ReadSingleAckResponse t d) = [shown F_data d]"
| "shown_response (WriteSingleAckResponse t) = []"
| "shown_response (ReadSeqAckResponse t ds) = Field F_count (length ds) [] # map (shown F_data) ds"
| "shown_response (WriteSeqAckResponse t) = []"
| "shown_response (ReadCompAckResponse t ds) = Field F_count (length ds) [] # map (shown F_data) ds"
| "shown_response (WriteCompAckResponse t) = []"
| "shown_response (ReadmodifywriteSingleAckResponse t) = []"
| "shown_response resp = [shown F_status (resp_status resp)]"

text \<open>The header: transaction, type with its name, the size of the payload, and the checksum.\<close>

definition shown_packet :: "byte \<Rightarrow> MessageType \<Rightarrow> nat \<Rightarrow> 'c::len word \<Rightarrow> tree_item list" where
  "shown_packet txn mt n crc =
     [shown F_txn_id txn,
      Field F_msg_type (unat (msg_code mt)) (parenthesised (msgTypeByteToString (msg_code mt))),
      Heading ''Message Payload'' (parenthesised (decimal n @ '' Bytes'')),
      shown F_crc crc]"

section \<open>What is assumed of Wireshark, and of the configuration\<close>

fun field_bytes :: "field_type \<Rightarrow> nat" where
  "field_bytes uint8 = 1"
| "field_bytes uint16 = 2"
| "field_bytes uint32 = 4"
| "field_bytes uint64 = 8"
| "field_bytes ubytes = 0"

definition wireshark_documented :: "wireshark \<Rightarrow> bool" where
  "wireshark_documented ws \<longleftrightarrow>
     (\<forall>buf i n. i + n \<le> length buf \<longrightarrow> ws_range ws buf (int i) (int n) = Inr (take n (drop i buf))) \<and>
     (\<forall>ty bytes. 0 < length bytes \<longrightarrow> length bytes \<le> field_bytes ty \<longrightarrow>
        ws_value ws (Some ty) bytes = unat (le_word bytes :: 64 word))"

text \<open>
  The script is configured as the program is, its length fields are no longer than the type it
  declares them with, which is that of data, and there is a length field at all. The script computes
  with counts and increments as numbers, which Wireshark's Lua has for fields of up to four bytes:
  a longer one is an object, so the statement leaves configurations with such data out.
\<close>

definition dissects :: "lua_cfg \<Rightarrow> ('a::len, 'd::len, 'l::len, 'c::len) cfg \<Rightarrow> bool" where
  "dissects c cfg \<longleftrightarrow>
     lua_AddrBytes c = AddressBytes cfg \<and> lua_DataBytes c = DataBytes cfg \<and>
     lua_LenBytes c = LengthBytes cfg \<and> lua_CrcBytes c = CrcBytes cfg \<and>
     0 < LengthBytes cfg \<and> LengthBytes cfg \<le> DataBytes cfg \<and> DataBytes cfg \<le> 4"

section \<open>Reading one field\<close>

lemma makeCfgField_bytes: "0 < n \<Longrightarrow> n \<le> 8 \<Longrightarrow> \<exists>ty. makeCfgField n = Some ty \<and> n \<le> field_bytes ty"
  by (auto simp: makeCfgField_def)

lemma wireshark_range:
  "wireshark_documented ws \<Longrightarrow> n = int (length bytes) \<Longrightarrow>
     ws_range ws (pre @ bytes @ post) (int (length pre)) n = Inr bytes"
  by (simp add: wireshark_documented_def)

lemma wireshark_value:
  "wireshark_documented ws \<Longrightarrow> 0 < length bytes \<Longrightarrow> length bytes \<le> field_bytes ty \<Longrightarrow>
     ws_value ws (Some ty) bytes = unat (le_word bytes :: 64 word)"
  by (simp add: wireshark_documented_def)

lemma unat_le_word_64:
  assumes "fits_bytes n (v :: 'w::len word)" and "n \<le> 8"
  shows "unat (le_word (le_bytes n v) :: 64 word) = unat v"
proof -
  have "(le_word (le_bytes n v) :: 64 word) = ucast (take_bit (8 * n) v)"
  proof (rule bit_word_eqI)
    fix k assume "k < LENGTH(64)"
    moreover have "k < 8 * n \<Longrightarrow> k div 8 < n" by auto
    moreover have "8 * (k div 8) + k mod 8 = k" by simp
    ultimately show "bit (le_word (le_bytes n v) :: 64 word) k \<longleftrightarrow> bit (ucast (take_bit (8 * n) v) :: 64 word) k"
      by (auto simp: bit_le_word bit_ucast_iff bit_take_bit_iff bit_le_bytes_nth dest: bit_imp_le_length)
  qed
  also have "\<dots> = ucast v" by (simp add: fits_bytes_take_bit [OF assms(1)])
  finally have "unat (le_word (le_bytes n v) :: 64 word) = take_bit 64 (unat v)"
    by (simp add: unsigned_ucast_eq)
  moreover have "(2::nat) ^ (8 * n) \<le> 2 ^ 64" using assms(2) by (intro power_increasing) simp_all
  then have "unat v < 2 ^ 64" using assms(1) unfolding fits_bytes_def by linarith
  ultimately show ?thesis by (simp add: take_bit_nat_eq_self)
qed

text \<open>What a part of the script adds to the payload's tree, and the value it returns.\<close>

definition displays :: "'a lua \<Rightarrow> 'a \<Rightarrow> tree_item list \<Rightarrow> bool" where
  "displays m v items \<longleftrightarrow>
     (\<forall>s. m s = (Inr v, s\<lparr> payload_subtree := payload_subtree s @ items \<rparr>))"

lemma displays_return: "displays (liftA (Inr v)) v []"
  by (simp add: displays_def)

lemma displays_bind:
  "displays m v items \<Longrightarrow> displays (f v) w items' \<Longrightarrow> items'' = items @ items' \<Longrightarrow>
     displays (bindA m f) w items''"
  by (simp add: displays_def)

lemma displays_step:
  "displays m v [item] \<Longrightarrow> displays (f v) w items \<Longrightarrow> displays (bindA m f) w (item # items)"
  by (simp add: displays_bind)

lemma displays_then_return: "displays m x items \<Longrightarrow> displays (bindA m (\<lambda>v. liftA (Inr ()))) () items"
  by (simp add: displays_def)

lemma displays_for:
  assumes "\<And>i. i < n \<Longrightarrow> displays (body (k + i)) () (f i)"
  shows "displays (lua_for k n body) () (concat (map f [0..<n]))"
  using assms
proof (induction n arbitrary: k f)
  case 0
  then show ?case by (simp add: displays_def)
next
  case (Suc n)
  have "displays (lua_for (Suc k) n body) () (concat (map (f \<circ> Suc) [0..<n]))"
    using Suc.prems [of "Suc i" for i] by (intro Suc.IH) simp
  moreover have "displays (body k) () (f 0)" using Suc.prems [of 0] by simp
  moreover have "map f [0..<Suc n] = f 0 # map (f \<circ> Suc) [0..<n]"
    by (simp add: upt_conv_Cons map_Suc_upt [symmetric] del: upt_Suc)
  ultimately show ?case by (simp add: displays_bind)
qed

section \<open>One message\<close>

lemma concat_split_nth:
  "i < length xs \<Longrightarrow> concat (map f xs) = concat (map f (take i xs)) @ f (xs ! i) @ concat (map f (drop (Suc i) xs))"
  by (subst id_take_nth_drop [of i xs]) simp_all

lemma concat_map_nth: "concat (map (\<lambda>i. f (xs ! i)) [0..<length xs]) = concat (map f xs)"
proof -
  have "map f (map ((!) xs) [0..<length xs]) = map f xs" by (simp only: map_nth)
  then have "map (\<lambda>i. f (xs ! i)) [0..<length xs] = map f xs" by (simp add: o_def)
  then show ?thesis by (simp only:)
qed

lemma length_concat_take:
  "i \<le> length xs \<Longrightarrow> (\<And>x. length (f x) = n) \<Longrightarrow> length (concat (map f (take i xs))) = i * n"
  by (simp add: length_concat o_def sum_list_triv)

text \<open>How many bytes of a message a field is displayed from.\<close>

fun lua_width :: "lua_cfg \<Rightarrow> lua_field \<Rightarrow> nat" where
  "lua_width c F_addr = lua_AddrBytes c"
| "lua_width c F_increment = lua_LenBytes c"
| "lua_width c F_count = lua_LenBytes c"
| "lua_width c F_crc = lua_CrcBytes c"
| "lua_width c F_txn_id = 1"
| "lua_width c F_msg_type = 1"
| "lua_width c _ = lua_DataBytes c"

declare lua_width.simps [simp del]

text \<open>The two tables of message codes, this one and the C++ enumeration, are the same.\<close>

lemma lua_MessageType_code: "lua_MessageType t = msg_code t"
  by (cases t) (simp_all add: msg_code.simps)

locale display = wf_wire cfg crcpp
  for cfg :: "('a::len, 'd::len, 'l::len, 'c::len) cfg" and crcpp :: "'c crc_function" +
  fixes ws :: wireshark and c :: lua_cfg
  assumes documented: "wireshark_documented ws"
    and dissects: "dissects c cfg"
begin

lemma lua_widths: "lua_width c F_addr = AddressBytes cfg" "lua_width c F_data = DataBytes cfg"
    "lua_width c F_mask = DataBytes cfg" "lua_width c F_status = DataBytes cfg"
    "lua_width c F_increment = LengthBytes cfg" "lua_width c F_count = LengthBytes cfg"
    "lua_width c F_crc = CrcBytes cfg" "lua_width c F_txn_id = 1" "lua_width c F_msg_type = 1"
  using dissects by (simp_all add: dissects_def lua_width.simps)

lemma lua_bytes: "lua_AddrBytes c = AddressBytes cfg" "lua_DataBytes c = DataBytes cfg"
    "lua_LenBytes c = LengthBytes cfg" "lua_CrcBytes c = CrcBytes cfg"
  using dissects by (simp_all add: dissects_def)

lemma cfg_bytes: "0 < AddressBytes cfg" "AddressBytes cfg \<le> 8" "0 < DataBytes cfg" "DataBytes cfg \<le> 8"
    "0 < LengthBytes cfg" "LengthBytes cfg \<le> DataBytes cfg" "0 < CrcBytes cfg" "CrcBytes cfg \<le> 8"
  using wf dissects by (auto simp: cfg_wf_def dissects_def)

lemma declared_type:
  "f \<noteq> F_payload \<Longrightarrow> f \<noteq> F_length \<Longrightarrow>
     0 < lua_width c f \<and> lua_width c f \<le> 8 \<and>
     (\<exists>ty. lua_fields c f = Some ty \<and> lua_width c f \<le> field_bytes ty)"
  using cfg_bytes makeCfgField_bytes [of "AddressBytes cfg"] makeCfgField_bytes [of "DataBytes cfg"]
    makeCfgField_bytes [of "CrcBytes cfg"] dissects
  by (cases f) (auto simp: dissects_def lua_width.simps intro: order_trans)

lemma field_bytes_at:
  assumes "f \<noteq> F_payload" "f \<noteq> F_length" and "fits_bytes (lua_width c f) (v :: 'w::len word)"
    and "buf = pre @ le_bytes (lua_width c f) v @ post"
    and "offset = int (length pre)" and "n = int (lua_width c f)"
  shows "\<exists>bytes. ws_range ws buf offset n = Inr bytes \<and> ws_value ws (lua_fields c f) bytes = unat v"
proof -
  obtain ty where ty: "lua_fields c f = Some ty" "lua_width c f \<le> field_bytes ty"
    and w: "0 < lua_width c f" "lua_width c f \<le> 8"
    using declared_type [OF assms(1,2)] by blast
  have "ws_range ws buf offset n = Inr (le_bytes (lua_width c f) v)"
    unfolding assms(4-6) by (rule wireshark_range [OF documented]) simp
  moreover have "ws_value ws (lua_fields c f) (le_bytes (lua_width c f) v) = unat v"
    using w ty by (simp add: wireshark_value [OF documented] unat_le_word_64 [OF assms(3)])
  ultimately show ?thesis by blast
qed

lemma packet_field_at:
  assumes "f \<noteq> F_payload" "f \<noteq> F_length" and "fits_bytes (lua_width c f) (v :: 'w::len word)"
    and "payload = pre @ le_bytes (lua_width c f) v @ post"
    and "offset = int (length pre)" and "n = int (lua_width c f)"
  shows "displays (add_packet_field ws c f payload offset n label) (unat v)
    [Field f (unat v) (label (unat v))]"
  using field_bytes_at [OF assms]
  by (auto simp: displays_def add_packet_field_def add_to_payload_def Let_def)

lemma field_at:
  assumes "f \<noteq> F_payload" "f \<noteq> F_length" and "fits_bytes (lua_width c f) (v :: 'w::len word)"
    and "payload = pre @ le_bytes (lua_width c f) v @ post"
    and "offset = int (length pre)" and "n = int (lua_width c f)"
  shows "displays (add_le ws c f payload offset n) () [shown f v]"
  unfolding add_le_def
  by (rule displays_bind [OF packet_field_at [OF assms] displays_return]) simp

text \<open>The two loops: over values, and over pairs of an address and a value.\<close>

lemma fields_from:
  assumes "f \<noteq> F_payload" "f \<noteq> F_length" and "list_all (fits_bytes (lua_width c f)) (vs :: 'w::len word list)"
    and "payload = pre @ concat (map (le_bytes (lua_width c f)) vs)"
    and "fi = int (length pre)" and "n = int (lua_width c f)"
  shows "displays (lua_for 0 (length vs) (\<lambda>i. add_le ws c f payload (fi + int i * n) n)) () (map (shown f) vs)"
proof -
  have *: "displays (lua_for 0 (length vs) (\<lambda>i. add_le ws c f payload (fi + int i * n) n)) ()
    (concat (map (\<lambda>i. [shown f (vs ! i)]) [0..<length vs]))"
  proof (rule displays_for, rule field_at [OF assms(1,2)])
    fix i assume i: "i < length vs"
    show "fits_bytes (lua_width c f) (vs ! i)" using assms(3) i by (simp add: list_all_length)
    show "payload = (pre @ concat (map (le_bytes (lua_width c f)) (take i vs))) @
        le_bytes (lua_width c f) (vs ! i) @ concat (map (le_bytes (lua_width c f)) (drop (Suc i) vs))"
      unfolding assms(4) append_assoc by (simp add: concat_split_nth [OF i])
    show "fi + int (0 + i) * n = int (length (pre @ concat (map (le_bytes (lua_width c f)) (take i vs))))"
      using i by (simp add: assms(5,6) length_concat_take)
    show "n = int (lua_width c f)" by fact
  qed
  show ?thesis
    using * unfolding concat_map_nth [of "\<lambda>v. [shown f v]"] by (simp add: concat_map_singleton)
qed

lemma pairs_from:
  assumes "list_all (pair_fits cfg) ads"
    and "payload = pre @ concat (map (pair_bytes cfg) ads)" and "fi = int (length pre)"
    and "ab = int (AddressBytes cfg)" and "db = int (DataBytes cfg)"
  shows "displays (lua_for 0 (length ads) (\<lambda>i.
      bindA (add_le ws c F_addr payload (fi + int i * (ab + db)) ab)
        (\<lambda>_. add_le ws c F_data payload (fi + int i * (ab + db) + ab) db))) ()
    (concat (map (\<lambda>(a, d). [shown F_addr a, shown F_data d]) ads))"
proof -
  have "displays (lua_for 0 (length ads) (\<lambda>i.
      bindA (add_le ws c F_addr payload (fi + int i * (ab + db)) ab)
        (\<lambda>_. add_le ws c F_data payload (fi + int i * (ab + db) + ab) db))) ()
    (concat (map (\<lambda>i. case ads ! i of (a, d) \<Rightarrow> [shown F_addr a, shown F_data d]) [0..<length ads]))"
  proof (rule displays_for)
    fix i assume i: "i < length ads"
    obtain a d where ad: "ads ! i = (a, d)" by (cases "ads ! i")
    let ?pre = "pre @ concat (map (pair_bytes cfg) (take i ads))"
    let ?post = "concat (map (pair_bytes cfg) (drop (Suc i) ads))"
    have at: "payload = ?pre @ le_bytes (AddressBytes cfg) a @ le_bytes (DataBytes cfg) d @ ?post"
      unfolding assms(2) by (simp add: concat_split_nth [OF i] ad pair_bytes_def)
    have fits: "fits_bytes (AddressBytes cfg) a" "fits_bytes (DataBytes cfg) d"
      using assms(1) i ad by (auto simp: list_all_length pair_fits_def dest: spec [of _ i])
    have len: "min (length ads) i = i" using i by simp
    have A: "displays (add_le ws c F_addr payload (fi + int i * (ab + db)) ab) () [shown F_addr a]"
      by (rule field_at [where pre = ?pre and post = "le_bytes (DataBytes cfg) d @ ?post"])
        (use at fits len in \<open>simp_all add: lua_widths assms(3-5)\<close>)
    have D: "displays (add_le ws c F_data payload (fi + int i * (ab + db) + ab) db) () [shown F_data d]"
      by (rule field_at [where pre = "?pre @ le_bytes (AddressBytes cfg) a" and post = ?post])
        (use at fits len in \<open>simp_all add: lua_widths assms(3-5)\<close>)
    show "displays (bindA (add_le ws c F_addr payload (fi + int (0 + i) * (ab + db)) ab)
        (\<lambda>_. add_le ws c F_data payload (fi + int (0 + i) * (ab + db) + ab) db)) ()
      (case ads ! i of (a, d) \<Rightarrow> [shown F_addr a, shown F_data d])"
      unfolding ad prod.case add_0 by (rule displays_bind [OF A], rule D, simp)
  qed
  then show ?thesis by (simp add: concat_map_nth [of "\<lambda>(a, d). [shown F_addr a, shown F_data d]"])
qed

lemmas addr_at = field_at [of F_addr, unfolded lua_widths]
lemmas data_at = field_at [of F_data, unfolded lua_widths]
lemmas mask_at = field_at [of F_mask, unfolded lua_widths]
lemmas status_at = field_at [of F_status, unfolded lua_widths]
lemmas increment_at = packet_field_at [of F_increment, unfolded lua_widths]
lemmas number_at = packet_field_at [of F_count, unfolded lua_widths]
lemmas addrs_from = fields_from [of F_addr, unfolded lua_widths]
lemmas datas_from = fields_from [of F_data, unfolded lua_widths]

lemma count_at:
  assumes "m < 2 ^ (8 * LengthBytes cfg)"
    and "payload = pre @ le_bytes (LengthBytes cfg) (word_of_nat m :: 'l word) @ post"
    and "offset = int (length pre)" and "n = int (LengthBytes cfg)"
  shows "displays (add_packet_field ws c F_count payload offset n label) m [Field F_count m (label m)]"
  using packet_field_at [of F_count "word_of_nat m :: 'l word" payload pre post offset n label] assms
  by (simp add: lua_widths unat_word_of_length fits_word_of_length)

lemmas dissect_payload_cases = dissect_payload_def lua_MessageType_code msg_code_inject lua_bytes Let_def

text \<open>The payload of every command.\<close>

lemma dissect_ReadSingleCommand:
  assumes "command_fits cfg (ReadSingleCommand t a)"
  shows "displays (dissect_payload ws c (msg_code (command_type (ReadSingleCommand t a)))
      (command_body cfg (ReadSingleCommand t a))) () (shown_command c (ReadSingleCommand t a))"
  unfolding dissect_payload_cases using assms
  by simp
    (rule addr_at [where pre = "[]" and post = "[]"], simp_all)

lemma dissect_WriteSingleCommand:
  assumes "command_fits cfg (WriteSingleCommand t p a d)"
  shows "displays (dissect_payload ws c (msg_code (command_type (WriteSingleCommand t p a d)))
      (command_body cfg (WriteSingleCommand t p a d))) () (shown_command c (WriteSingleCommand t p a d))"
  unfolding dissect_payload_cases using assms
  by simp
    (rule displays_step [OF addr_at [where pre = "[]"]], simp_all,
     rule data_at [where pre = "le_bytes (AddressBytes cfg) a" and post = "[]"], simp_all)

lemma dissect_ReadModifyWriteCommand:
  assumes "command_fits cfg (ReadModifyWriteCommand t p a d m)"
  shows "displays (dissect_payload ws c (msg_code (command_type (ReadModifyWriteCommand t p a d m)))
      (command_body cfg (ReadModifyWriteCommand t p a d m))) () (shown_command c (ReadModifyWriteCommand t p a d m))"
  unfolding dissect_payload_cases using assms
  by simp
    (rule displays_step [OF addr_at [where pre = "[]"]], simp_all,
     rule displays_step [OF data_at [where pre = "le_bytes (AddressBytes cfg) a"]], simp_all,
     rule mask_at [where pre = "le_bytes (AddressBytes cfg) a @ le_bytes (DataBytes cfg) d" and post = "[]"], simp_all)

lemma dissect_ReadSeqCommand:
  assumes "command_fits cfg (ReadSeqCommand t a i n)"
  shows "displays (dissect_payload ws c (msg_code (command_type (ReadSeqCommand t a i n)))
      (command_body cfg (ReadSeqCommand t a i n))) () (shown_command c (ReadSeqCommand t a i n))"
  unfolding dissect_payload_cases using assms
  by simp
    (rule displays_step [OF addr_at [where pre = "[]"]], simp_all,
     rule displays_step [OF increment_at [where pre = "le_bytes (AddressBytes cfg) a"]], simp_all,
     rule displays_then_return,
     rule number_at [where pre = "le_bytes (AddressBytes cfg) a @ le_bytes (LengthBytes cfg) i" and post = "[]"], simp_all)

lemma dissect_WriteSeqCommand:
  assumes "command_fits cfg (WriteSeqCommand t p a i ds)"
  shows "displays (dissect_payload ws c (msg_code (command_type (WriteSeqCommand t p a i ds)))
      (command_body cfg (WriteSeqCommand t p a i ds))) () (shown_command c (WriteSeqCommand t p a i ds))"
  unfolding dissect_payload_cases using assms
  by simp
    (rule displays_step [OF addr_at [where pre = "[]"]], simp_all,
     rule displays_step [OF increment_at [where pre = "le_bytes (AddressBytes cfg) a"]], simp_all,
     rule displays_step [OF count_at [where pre = "le_bytes (AddressBytes cfg) a @ le_bytes (LengthBytes cfg) i"]], simp_all,
     rule datas_from [where pre = "le_bytes (AddressBytes cfg) a @ le_bytes (LengthBytes cfg) i @ le_bytes (LengthBytes cfg) (word_of_nat (length ds) :: 'l word)"], simp_all)

lemma dissect_ReadCompCommand:
  assumes "command_fits cfg (ReadCompCommand t as)"
  shows "displays (dissect_payload ws c (msg_code (command_type (ReadCompCommand t as)))
      (command_body cfg (ReadCompCommand t as))) () (shown_command c (ReadCompCommand t as))"
  unfolding dissect_payload_cases using assms
  by simp
    (rule displays_step [OF count_at [where pre = "[]"]], simp_all,
     rule addrs_from [where pre = "le_bytes (LengthBytes cfg) (word_of_nat (length as) :: 'l word)"], simp_all)

lemma dissect_WriteCompCommand:
  assumes "command_fits cfg (WriteCompCommand t p ads)"
  shows "displays (dissect_payload ws c (msg_code (command_type (WriteCompCommand t p ads)))
      (command_body cfg (WriteCompCommand t p ads))) () (shown_command c (WriteCompCommand t p ads))"
  unfolding dissect_payload_cases using assms
  by simp
    (rule displays_step [OF count_at [where pre = "[]"]], simp_all,
     rule pairs_from [where pre = "le_bytes (LengthBytes cfg) (word_of_nat (length ads) :: 'l word)"], simp_all)

text \<open>The payload of every response, by the four shapes there are.\<close>

lemma dissect_status:
  assumes "mt \<in> {eNakSingleRead, eNakSingleWrite, eNakSeqRead, eNakSeqWrite, eNakCompRead, eNakCompWrite,
      eNakSingleRmw, eAckSingleInterrupt}" and "fits_bytes (DataBytes cfg) (d :: 'd word)"
  shows "displays (dissect_payload ws c (msg_code mt) (le_bytes (DataBytes cfg) d)) () [shown F_status d]"
proof -
  have "displays (add_le ws c F_status (le_bytes (DataBytes cfg) d) 0 (int (DataBytes cfg))) () [shown F_status d]"
    by (rule status_at [where pre = "[]" and post = "[]"], simp_all add: assms(2))
  then show ?thesis
    using assms(1) unfolding dissect_payload_cases by auto
qed

lemma dissect_nothing:
  "mt \<in> {eAckSingleWrite, eAckSeqWrite, eAckCompWrite, eAckSingleRmw} \<Longrightarrow>
     displays (dissect_payload ws c (msg_code mt) body) () []"
  unfolding dissect_payload_cases by (auto simp: displays_return simp del: liftA_simp)

lemma dissect_data:
  "fits_bytes (DataBytes cfg) (d :: 'd word) \<Longrightarrow>
     displays (dissect_payload ws c (msg_code eAckSingleRead) (le_bytes (DataBytes cfg) d)) () [shown F_data d]"
  unfolding dissect_payload_cases
  by simp (rule data_at [where pre = "[]" and post = "[]"], simp_all)

lemma dissect_data_array:
  assumes "mt \<in> {eAckSeqRead, eAckCompRead}" and "length ds < 2 ^ (8 * LengthBytes cfg)"
    and "list_all (fits_bytes (DataBytes cfg)) (ds :: 'd word list)"
  shows "displays (dissect_payload ws c (msg_code mt)
      (le_bytes (LengthBytes cfg) (word_of_nat (length ds) :: 'l word) @ concat (map (le_bytes (DataBytes cfg)) ds)))
    () (Field F_count (length ds) [] # map (shown F_data) ds)"
  (is "displays (dissect_payload ws c (msg_code mt) ?body) () ?items")
proof -
  have "displays (bindA (add_packet_field ws c F_count ?body 0 (int (LengthBytes cfg)) (\<lambda>v. []))
      (\<lambda>count. lua_for 0 count (\<lambda>i. add_le ws c F_data ?body
         (int (LengthBytes cfg) + int i * int (DataBytes cfg)) (int (DataBytes cfg))))) () ?items"
    by (rule displays_step [OF count_at [where pre = "[]"]], simp_all add: assms(2),
        rule datas_from [where pre = "le_bytes (LengthBytes cfg) (word_of_nat (length ds) :: 'l word)"],
        simp_all add: assms(3))
  then show ?thesis
    using assms(1) unfolding dissect_payload_cases by auto
qed

lemma dissect_response:
  "response_fits cfg resp \<Longrightarrow>
     displays (dissect_payload ws c (msg_code (response_type resp)) (response_body cfg resp)) () (shown_response resp)"
  by (cases resp) (simp_all add: dissect_status dissect_nothing dissect_data dissect_data_array)

lemma dissect_command:
  "command_fits cfg cmd \<Longrightarrow>
     displays (dissect_payload ws c (msg_code (command_type cmd)) (command_body cfg cmd)) () (shown_command c cmd)"
  by (cases cmd)
     (simp_all only: command_type.simps dissect_ReadSingleCommand [unfolded command_type.simps]
       dissect_WriteSingleCommand [unfolded command_type.simps]
       dissect_ReadModifyWriteCommand [unfolded command_type.simps]
       dissect_ReadSeqCommand [unfolded command_type.simps] dissect_WriteSeqCommand [unfolded command_type.simps]
       dissect_ReadCompCommand [unfolded command_type.simps] dissect_WriteCompCommand [unfolded command_type.simps])

text \<open>The header and the checksum, which the script shows without checking it.\<close>

lemma header_at:
  assumes "f \<noteq> F_payload" "f \<noteq> F_length" and "fits_bytes (lua_width c f) (v :: 'w::len word)"
    and "buf = pre @ le_bytes (lua_width c f) v @ post"
    and "offset = int (length pre)" and "n = int (lua_width c f)"
  shows "add_le_subtree ws c f buf offset n label s =
    (Inr (), s\<lparr> subtree := subtree s @ [Field f (unat v) label] \<rparr>)"
  using field_bytes_at [OF assms] by (auto simp: add_le_subtree_def add_to_subtree_def)

lemma fits_one_byte: "fits_bytes 1 (b :: byte)"
  using unsigned_less [of b] by (simp add: fits_bytes_def)

lemma dissector_packet:
  assumes "displays (dissect_payload ws c (msg_code mt) body) () items"
  shows "dissector ws c (packet cfg crcpp txn (msg_code mt) body) s =
    (Inr (), s\<lparr> subtree := subtree s @ shown_packet txn mt (length body)
                 (packet_crc cfg crcpp (txn # msg_code mt # body)),
               payload_subtree := payload_subtree s @ items \<rparr>)"
proof -
  let ?buf = "packet cfg crcpp txn (msg_code mt) body" and ?crc = "packet_crc cfg crcpp (txn # msg_code mt # body)"
  have txn: "add_le_subtree ws c F_txn_id ?buf 0 1 label s =
      (Inr (), s\<lparr> subtree := subtree s @ [Field F_txn_id (unat txn) label] \<rparr>)" for label s
    by (rule header_at [where pre = "[]"], simp_all add: lua_widths fits_one_byte [simplified] le_bytes_def packet_def)
  have type: "add_le_subtree ws c F_msg_type ?buf 1 1 label s =
      (Inr (), s\<lparr> subtree := subtree s @ [Field F_msg_type (unat (msg_code mt)) label] \<rparr>)" for label s
    by (rule header_at [where pre = "[txn]"], simp_all add: lua_widths fits_one_byte [simplified] le_bytes_def packet_def)
  have crc: "add_le_subtree ws c F_crc ?buf (2 + int (length body)) (int (CrcBytes cfg)) label s =
      (Inr (), s\<lparr> subtree := subtree s @ [Field F_crc (unat ?crc) label] \<rparr>)" for label s
    by (rule header_at [where pre = "txn # msg_code mt # body" and post = "[]"],
        simp_all add: lua_widths fits_packet_crc packet_def)
  have one: "ws_range ws ?buf 1 1 = Inr [msg_code mt]"
    using wireshark_range [OF documented, of 1 "[msg_code mt]" "[txn]"] by (simp add: packet_def)
  have payload: "ws_range ws ?buf 2 (int (length body)) = Inr body"
    using wireshark_range [OF documented, of "int (length body)" body "[txn, msg_code mt]"] by (simp add: packet_def)
  show ?thesis
    using assms
    by (simp add: dissector_def Let_def txn type crc one payload lua_bytes add_to_subtree_def displays_def
        shown_packet_def lua_number_def)
qed

text \<open>A type byte no enumerator has is displayed as such, with nothing of the payload.\<close>

lemma dissect_unknown:
  assumes "message_type_of code = None"
  shows "displays (dissect_payload ws c code body) () [Plain ''ERROR'']"
proof -
  have "code \<noteq> msg_code t" for t using assms by auto
  then show ?thesis
    by (simp add: dissect_payload_def lua_MessageType_code displays_def add_to_payload_def Let_def)
qed

lemma dissector_command:
  assumes "decodeCommand cfg crcpp buf = Inr cmd"
  shows "dissector ws c buf s =
    (Inr (), s\<lparr> subtree := subtree s @ shown_packet (cmd_transaction_id cmd) (command_type cmd)
                 (length buf - 2 - CrcBytes cfg) (packet_crc cfg crcpp (take (length buf - CrcBytes cfg) buf)),
               payload_subtree := payload_subtree s @ shown_command c cmd \<rparr>)"
proof -
  have fits: "command_fits cfg cmd" and buf: "buf = command_packet cfg crcpp cmd"
    using assms by (simp_all add: decodeCommand_iff)
  show ?thesis
    unfolding buf command_packet_def dissector_packet [OF dissect_command [OF fits]]
    by (simp add: packet_def)
qed

lemma dissector_response:
  assumes "decodeResponse cfg crcpp buf = Inr resp"
  shows "dissector ws c buf s =
    (Inr (), s\<lparr> subtree := subtree s @ shown_packet (resp_transaction_id resp) (response_type resp)
                 (length buf - 2 - CrcBytes cfg) (packet_crc cfg crcpp (take (length buf - CrcBytes cfg) buf)),
               payload_subtree := payload_subtree s @ shown_response resp \<rparr>)"
proof -
  have fits: "response_fits cfg resp" and buf: "buf = response_packet cfg crcpp resp"
    using assms by (simp_all add: decodeResponse_iff)
  show ?thesis
    unfolding buf response_packet_def dissector_packet [OF dissect_response [OF fits]]
    by (simp add: packet_def)
qed

end

lemma displayI:
  "cfg_wf cfg \<Longrightarrow> crc_width_respected crcpp \<Longrightarrow> wireshark_documented ws \<Longrightarrow> dissects c cfg \<Longrightarrow>
     display cfg crcpp ws c"
  by (simp add: display_def display_axioms_def wf_wireI)

section \<open>Wireshark, concretely\<close>

text \<open>A Wireshark for the examples, with the bounds check of its buffers.\<close>

definition example_wireshark :: wireshark where
  "example_wireshark =
     \<lparr> ws_range = (\<lambda>buf offset n.
         if 0 \<le> offset \<and> 0 \<le> n \<and> offset + n \<le> int (length buf)
         then Inr (take (nat n) (drop (nat offset) buf)) else Inl ''Range is out of bounds''),
       ws_value = (\<lambda>ty bytes. unat (le_word bytes :: 64 word)) \<rparr>"

lemma example_wireshark_documented [simp]: "wireshark_documented example_wireshark"
  by (auto simp: wireshark_documented_def example_wireshark_def)

definition example_lua_cfg :: lua_cfg where
  "example_lua_cfg = lua_cfg_source\<lparr> lua_AddrBytes := 3, lua_DataBytes := 4, lua_LenBytes := 2 \<rparr>"

lemma example_dissects [simp]: "dissects example_lua_cfg ExampleRapCfg"
  by (simp add: dissects_def example_lua_cfg_def lua_cfg_source_def)

interpretation example_display: display ExampleRapCfg bit_serial_crc example_wireshark example_lua_cfg
  by unfold_locales simp_all

section \<open>The script reads the messages the program does\<close>

text \<open>
  C13. The second reader of the wire format agrees with the first, where the script is configured
  as the program is, the length fields are no longer than the data fields, and these have four bytes
  at most (\<open>dissects\<close>). For every buffer \<open>decodeCommand\<close> or \<open>decodeResponse\<close> accepts, the script runs
  without a Lua error and displays the transaction, the type with its name, the payload's size, the
  checksum, and exactly the fields of the decoded message, in their order: every offset it computes,
  every loop bound it reads and every message code is right. In other configurations the script
  declares counts with a type that is too short for them (\<open>count_declared_as_data\<close>), or works with
  counts that Wireshark does not return as numbers.
\<close>

theorem dissector_shows_messages:
  fixes cfg :: "('a::len, 'd::len, 'l::len, 'c::len) cfg"
  assumes "cfg_wf cfg" and "crc_width_respected crcpp"
    and "wireshark_documented ws" and "dissects c cfg"
  defines "shown_header \<equiv> \<lambda>txn mt buf. shown_packet txn mt (length buf - 2 - CrcBytes cfg)
    (packet_crc cfg crcpp (take (length buf - CrcBytes cfg) buf))"
  shows "(decodeCommand cfg crcpp buf = Inr cmd \<longrightarrow>
      dissector ws c buf \<lparr> subtree = [], payload_subtree = [] \<rparr> =
        (Inr (), \<lparr> subtree = shown_header (cmd_transaction_id cmd) (command_type cmd) buf,
                    payload_subtree = shown_command c cmd \<rparr>)) \<and>
    (decodeResponse cfg crcpp buf = Inr resp \<longrightarrow>
      dissector ws c buf \<lparr> subtree = [], payload_subtree = [] \<rparr> =
        (Inr (), \<lparr> subtree = shown_header (resp_transaction_id resp) (response_type resp) buf,
                    payload_subtree = shown_response resp \<rparr>))"
  by (simp add: shown_header_def display.dissector_command [OF displayI [OF assms(1-4)]]
      display.dissector_response [OF displayI [OF assms(1-4)]])

theorem dissector_shows_messages_witness:
  "dissector example_wireshark example_lua_cfg
     (command_packet ExampleRapCfg bit_serial_crc (WriteSeqCommand 7 False 0x0A0B0C 4 [1, 2]))
     \<lparr> subtree = [], payload_subtree = [] \<rparr> =
   (Inr (), \<lparr> subtree = shown_packet 7 eCmdSeqWrite 15
       (packet_crc ExampleRapCfg bit_serial_crc
         [7, 0x15, 0x0C, 0x0B, 0x0A, 4, 0, 2, 0, 1, 0, 0, 0, 2, 0, 0, 0]),
     payload_subtree = [Field F_addr 0x0A0B0C [], Field F_increment 4 '' (SEQ)'', Field F_count 2 [],
       Field F_data 1 [], Field F_data 2 []] \<rparr>)"
proof -
  let ?cmd = "WriteSeqCommand 7 False 0x0A0B0C 4 [1, 2] :: (32 word, 32 word, 16 word) Command"
  have dec: "decodeCommand ExampleRapCfg bit_serial_crc (command_packet ExampleRapCfg bit_serial_crc ?cmd) = Inr ?cmd"
    by (simp add: example_wire.decodeCommand_iff fits_bytes_def)
  have bytes: "take 17 (command_packet ExampleRapCfg bit_serial_crc ?cmd)
      = [7, 0x15, 0x0C, 0x0B, 0x0A, 4, 0, 2, 0, 1, 0, 0, 0, 2, 0, 0, 0]"
    by (simp add: command_packet_def packet_def msg_code.simps le_bytes_def upt_rec)
  have len: "length (command_packet ExampleRapCfg bit_serial_crc ?cmd) = 19"
    by (simp add: command_packet_def)
  have items: "shown_command example_lua_cfg ?cmd = [Field F_addr 0x0A0B0C [], Field F_increment 4 '' (SEQ)'',
      Field F_count 2 [], Field F_data 1 [], Field F_data 2 []]"
    by (simp add: parenthesised_def incrToType_def example_lua_cfg_def lua_cfg_source_def)
  note shown = dissector_shows_messages [of ExampleRapCfg bit_serial_crc example_wireshark example_lua_cfg,
      OF cfg_wf_ExampleRapCfg bit_serial_crc_width example_wireshark_documented example_dissects]
  show ?thesis
    using shown [THEN conjunct1, THEN mp, OF dec] by (simp only: len items) (simp add: bytes)
qed

section \<open>Where the script and the program differ\<close>

text \<open>
  Counts and increments are declared with the type of data, and the field that is declared with the
  type of lengths is not used: with one byte of data and lengths of two bytes a count is declared as
  a one-byte field.
\<close>

lemma count_declared_as_data:
  "makeCfgField (lua_LenBytes (c\<lparr> lua_DataBytes := 1, lua_LenBytes := 2 \<rparr>)) = Some uint16 \<and>
   lua_fields (c\<lparr> lua_DataBytes := 1, lua_LenBytes := 2 \<rparr>) F_count = Some uint8"
  by (simp add: makeCfgField_def)

text \<open>
  An increment is called sequential when it is the number of bytes of a value on the wire; the
  client's increment for consecutive registers is the size of the C++ type.
\<close>

lemma three_byte_sequential_increment:
  "incrToType (c\<lparr> lua_DataBytes := 3 \<rparr>) (sizeof uint32_t) = ''INCR''"
  by (simp add: incrToType_def)

end
